theory Spec2Isabelle
  imports Main "HOL-Library.AList" "HOL-Library.Sublist"
begin

section \<open>The reconciliation engine of internal/syncer/syncer.go\<close>

text \<open>
  The development embeds the one visible source file, \<^verbatim>\<open>internal/syncer/syncer.go\<close>:
  the methods \<^verbatim>\<open>hydrate\<close>, \<^verbatim>\<open>syncLists\<close>, \<^verbatim>\<open>syncRatings\<close>, \<^verbatim>\<open>syncHistory\<close> and
  \<^verbatim>\<open>Sync\<close> of \<^verbatim>\<open>Syncer\<close>. The two service clients, the configuration and the package
  \<^verbatim>\<open>entities\<close> are used by that file but are not part of it; they enter the model as
  parameters (records of functions), so every theorem holds for each behaviour they may have.
\<close>

subsection \<open>Configuration (package appconfig)\<close>

datatype SyncMode = SyncModeFull | SyncModeAddOnly | SyncModeDryRun

text \<open>
  \<^verbatim>\<open>appconfig.Sync\<close>, as the source reads it: \<^verbatim>\<open>*s.conf.Mode\<close>, \<^verbatim>\<open>*s.conf.Lists\<close>,
  \<^verbatim>\<open>*s.conf.Watchlist\<close>, \<^verbatim>\<open>*s.conf.Ratings\<close>, \<^verbatim>\<open>*s.conf.History\<close>. The pointers are
  taken as resolved (never nil), as the configuration loader leaves them.
\<close>

record Sync =
  Mode :: SyncMode
  Lists :: bool
  Watchlist :: bool
  Ratings :: bool
  History :: bool

subsection \<open>Entities (package entities)\<close>

text \<open>
  Modelled from the spec: the struct declarations of package \<^verbatim>\<open>entities\<close> are not in the
  visible source. The fields the source names are kept under their names (\<^verbatim>\<open>ID\<close>,
  \<^verbatim>\<open>ListID\<close>, \<^verbatim>\<open>ListName\<close>, \<^verbatim>\<open>IsWatchlist\<close>, \<^verbatim>\<open>IDMeta.IMDb\<close>, \<^verbatim>\<open>Slug\<close>, \<^verbatim>\<open>Type\<close>,
  \<^verbatim>\<open>Add\<close>, \<^verbatim>\<open>Remove\<close>); the others follow the spec's data model: an item is a typed
  external identifier with a media-type tag, a rating item adds a rating value, a list
  holds items.
\<close>

record IMDbItem =
  ID :: string
  Kind :: string
  Rating :: int

record IMDbList =
  ListID :: string
  ListName :: string
  ListItems :: "IMDbItem list"
  IsWatchlist :: bool

text \<open>\<^verbatim>\<open>TraktIDMeta.ListName\<close> is the field \<open>MetaListName\<close> here (the name \<open>ListName\<close> is
  taken by \<^verbatim>\<open>IMDbList\<close>).\<close>

record TraktIDMeta =
  IMDb :: string
  Slug :: string
  MetaListName :: string

record TraktItem =
  Type :: string
  ItemIMDb :: string
  ItemRating :: int

record TraktList =
  IDMeta :: TraktIDMeta
  TraktListItems :: "TraktItem list"

record Diff =
  Add :: "TraktItem list"
  Remove :: "TraktItem list"

datatype HistoryEntry = WatchedAt string

subsection \<open>Errors\<close>

text \<open>
  An error value is an error of a collaborator, the mirror client's typed not-found error
  \<^verbatim>\<open>*client.TraktListNotFoundError\<close> with its \<^verbatim>\<open>Slug\<close>, or a wrapping
  \<^verbatim>\<open>fmt.Errorf("<msg>: %w", err)\<close>. \<^verbatim>\<open>errors.As\<close> walks the chain of wrapped errors.
\<close>

datatype error =
    ClientError string
  | TraktListNotFoundError string
  | Errorf string error

fun asTraktListNotFoundError :: "error \<Rightarrow> string option" where
  "asTraktListNotFoundError (TraktListNotFoundError slug) = Some slug"
| "asTraktListNotFoundError (Errorf msg err) = asTraktListNotFoundError err"
| "asTraktListNotFoundError (ClientError msg) = None"

text \<open>
  A function that returns Go's \<^verbatim>\<open>error\<close> returns \<open>error option\<close> (\<open>None\<close> is nil). The
  one function of the file that can also stop by a runtime panic (\<^verbatim>\<open>syncHistory\<close>
  dereferences the identity \<^verbatim>\<open>GetItemID\<close> returned without a nil check) returns an
  \<open>outcome\<close>.
\<close>

datatype 'a outcome = Ok 'a | Err error | Panic

subsection \<open>The two clients and the trace of a run\<close>

text \<open>
  The clients are interfaces (\<^verbatim>\<open>client.IMDbClientInterface\<close>,
  \<^verbatim>\<open>client.TraktClientInterface\<close>). A method is a function of its arguments and of the
  state \<open>'w\<close> of the world outside (both services), which it may change.
\<close>

record 'w IMDbClientInterface =
  imdb_RatingsExport :: "'w \<Rightarrow> error option \<times> 'w"
  imdb_ListsExport :: "string list \<Rightarrow> 'w \<Rightarrow> error option \<times> 'w"
  imdb_WatchlistExport :: "'w \<Rightarrow> error option \<times> 'w"
  imdb_ListsGet :: "string list \<Rightarrow> 'w \<Rightarrow> (error + IMDbList list) \<times> 'w"
  imdb_WatchlistGet :: "'w \<Rightarrow> (error + IMDbList) \<times> 'w"
  imdb_RatingsGet :: "'w \<Rightarrow> (error + IMDbItem list) \<times> 'w"

record 'w TraktClientInterface =
  trakt_ListsGet :: "TraktIDMeta list \<Rightarrow> 'w \<Rightarrow> (TraktList list \<times> error list) \<times> 'w"
  trakt_ListAdd :: "string \<Rightarrow> string \<Rightarrow> 'w \<Rightarrow> error option \<times> 'w"
  trakt_WatchlistGet :: "'w \<Rightarrow> (error + TraktList) \<times> 'w"
  trakt_RatingsGet :: "'w \<Rightarrow> (error + TraktItem list) \<times> 'w"
  trakt_WatchlistItemsAdd :: "TraktItem list \<Rightarrow> 'w \<Rightarrow> error option \<times> 'w"
  trakt_WatchlistItemsRemove :: "TraktItem list \<Rightarrow> 'w \<Rightarrow> error option \<times> 'w"
  trakt_ListItemsAdd :: "string \<Rightarrow> TraktItem list \<Rightarrow> 'w \<Rightarrow> error option \<times> 'w"
  trakt_ListItemsRemove :: "string \<Rightarrow> TraktItem list \<Rightarrow> 'w \<Rightarrow> error option \<times> 'w"
  trakt_RatingsAdd :: "TraktItem list \<Rightarrow> 'w \<Rightarrow> error option \<times> 'w"
  trakt_RatingsRemove :: "TraktItem list \<Rightarrow> 'w \<Rightarrow> error option \<times> 'w"
  trakt_HistoryGet :: "string \<Rightarrow> string \<Rightarrow> 'w \<Rightarrow> (error + HistoryEntry list) \<times> 'w"
  trakt_HistoryAdd :: "TraktItem list \<Rightarrow> 'w \<Rightarrow> error option \<times> 'w"
  trakt_HistoryRemove :: "TraktItem list \<Rightarrow> 'w \<Rightarrow> error option \<times> 'w"

text \<open>
  What a run does to the outside, in order: the entries it writes through \<^verbatim>\<open>s.logger\<close>
  and the calls it makes on the two clients, each call with its arguments and with what
  it returned. A log message built by \<^verbatim>\<open>fmt.Sprintf\<close> is kept as its format string and
  its arguments; the third field of \<open>LogInfo\<close> is the \<^verbatim>\<open>slog.Any(key, items)\<close> attribute.
\<close>

datatype arg = ArgS string | ArgD nat | ArgMode SyncMode

datatype event =
    LogInfo string "arg list" "(string \<times> TraktItem list) option"
  | LogError string error
  | IMDbRatingsExport "error option"
  | IMDbListsExport "string list" "error option"
  | IMDbWatchlistExport "error option"
  | IMDbListsGet "string list" "error + IMDbList list"
  | IMDbWatchlistGet "error + IMDbList"
  | IMDbRatingsGet "error + IMDbItem list"
  | TraktListsGet "TraktIDMeta list" "TraktList list \<times> error list"
  | TraktListAdd string string "error option"
  | TraktWatchlistGet "error + TraktList"
  | TraktRatingsGet "error + TraktItem list"
  | TraktWatchlistItemsAdd "TraktItem list" "error option"
  | TraktWatchlistItemsRemove "TraktItem list" "error option"
  | TraktListItemsAdd string "TraktItem list" "error option"
  | TraktListItemsRemove string "TraktItem list" "error option"
  | TraktRatingsAdd "TraktItem list" "error option"
  | TraktRatingsRemove "TraktItem list" "error option"
  | TraktHistoryGet string string "error + HistoryEntry list"
  | TraktHistoryAdd "TraktItem list" "error option"
  | TraktHistoryRemove "TraktItem list" "error option"

subsection \<open>The syncer and the state of a run\<close>

text \<open>
  A Go map is an association list read with \<open>map_of\<close> and written with
  \<open>AList.update\<close>; reading a nil map gives no entry, and the source writes a map only
  where \<^verbatim>\<open>NewSyncer\<close> has made it.
\<close>

record user =
  imdbLists :: "(string \<times> IMDbList) list"
  imdbRatings :: "(string \<times> IMDbItem) list"
  traktLists :: "(string \<times> TraktList) list"
  traktRatings :: "(string \<times> TraktItem) list"

text \<open>
  \<^verbatim>\<open>Syncer\<close> holds what a run never changes: the clients, the configuration and the
  flag \<^verbatim>\<open>authless\<close>. What a run changes is threaded through every function as a \<open>run\<close>:
  the aggregate \<^verbatim>\<open>s.user\<close> points to, the world behind the clients, and the trace.
\<close>

record 'w Syncer =
  imdbClient :: "'w IMDbClientInterface"
  traktClient :: "'w TraktClientInterface"
  conf :: Sync
  authless :: bool

record 'w run =
  user :: user
  world :: 'w
  trace :: "event list"

text \<open>
  What the file takes from package \<^verbatim>\<open>entities\<close> (\<^verbatim>\<open>InferTraktListSlug\<close>,
  \<^verbatim>\<open>TraktIDMetas.GetListNameFromSlug\<close>, \<^verbatim>\<open>TraktItem.GetItemID\<close>, \<^verbatim>\<open>ListDiff\<close>,
  \<^verbatim>\<open>ItemsDifference\<close>) and from the Go runtime: the order in which \<^verbatim>\<open>range\<close> visits the
  map \<^verbatim>\<open>s.user.imdbLists\<close>, which the language leaves open, at its two places
  (\<open>rangeLids\<close> in \<^verbatim>\<open>hydrate\<close>, \<open>rangeLists\<close> in \<^verbatim>\<open>syncLists\<close>).
  \<^verbatim>\<open>GetItemID\<close> returns \<^verbatim>\<open>(*string, error)\<close>: an error, a nil identity, or an identity.
\<close>

record env =
  InferTraktListSlug :: "string \<Rightarrow> string"
  GetListNameFromSlug :: "TraktIDMeta list \<Rightarrow> string \<Rightarrow> string"
  GetItemID :: "TraktItem \<Rightarrow> error + string option"
  ListDiff :: "IMDbList \<Rightarrow> TraktList \<Rightarrow> Diff"
  ItemsDifference :: "(string \<times> IMDbItem) list \<Rightarrow> (string \<times> TraktItem) list \<Rightarrow> Diff"
  rangeLids :: "(string \<times> IMDbList) list \<Rightarrow> string list"
  rangeLists :: "(string \<times> IMDbList) list \<Rightarrow> IMDbList list"

definition emit :: "event \<Rightarrow> 'w run \<Rightarrow> 'w run" where
  "emit e st = st\<lparr>trace := trace st @ [e]\<rparr>"

definition invoke :: "('w \<Rightarrow> 'r \<times> 'w) \<Rightarrow> ('r \<Rightarrow> event) \<Rightarrow> 'w run \<Rightarrow> 'r \<times> 'w run" where
  "invoke f ev st =
     (case f (world st) of (r, w) \<Rightarrow> (r, st\<lparr>world := w, trace := trace st @ [ev r]\<rparr>))"

text \<open>The zero values a missing map key reads as.\<close>

definition zeroTraktList :: TraktList where
  "zeroTraktList = \<lparr>IDMeta = \<lparr>IMDb = [], Slug = [], MetaListName = []\<rparr>, TraktListItems = []\<rparr>"

definition traktListAt :: "(string \<times> TraktList) list \<Rightarrow> string \<Rightarrow> TraktList" where
  "traktListAt m k = (case map_of m k of Some l \<Rightarrow> l | None \<Rightarrow> zeroTraktList)"

subsection \<open>NewSyncer\<close>

text \<open>
  The state \<^verbatim>\<open>NewSyncer\<close> builds (lines 42-61), given the two clients it constructs, the
  configuration, whether \<^verbatim>\<open>*conf.IMDb.Auth\<close> is \<^verbatim>\<open>IMDbAuthMethodNone\<close>, and the configured
  list ids \<^verbatim>\<open>*conf.IMDb.Lists\<close>.
\<close>

definition NewSyncer ::
  "'w IMDbClientInterface \<Rightarrow> 'w TraktClientInterface \<Rightarrow> Sync \<Rightarrow> bool \<Rightarrow> string list \<Rightarrow> 'w
     \<Rightarrow> 'w Syncer \<times> 'w run" where
  "NewSyncer ic tc c authNone lids w =
     (\<lparr>imdbClient = ic, traktClient = tc, conf = c, authless = authNone\<rparr>,
      \<lparr>user = \<lparr>imdbLists =
                 (if Lists c \<or> Watchlist c
                  then fold (\<lambda>lid m. AList.update lid
                               \<lparr>ListID = lid, ListName = [], ListItems = [], IsWatchlist = False\<rparr> m)
                         lids []
                  else []),
               imdbRatings = [], traktLists = [], traktRatings = []\<rparr>,
       world = w, trace = []\<rparr>)"

subsection \<open>hydrate\<close>

text \<open>Lines 91-105: the three exports, each under its flag.\<close>

definition hydrateExport :: "'w Syncer \<Rightarrow> string list \<Rightarrow> 'w run \<Rightarrow> error option \<times> 'w run" where
  "hydrateExport S lids st =
     (case (if Ratings (conf S)
            then invoke (imdb_RatingsExport (imdbClient S)) IMDbRatingsExport st
            else (None, st)) of
        (Some err, st1) \<Rightarrow> (Some (Errorf ''failure exporting imdb ratings'' err), st1)
      | (None, st1) \<Rightarrow>
     (case (if Lists (conf S)
            then invoke (imdb_ListsExport (imdbClient S) lids) (IMDbListsExport lids) st1
            else (None, st1)) of
        (Some err, st2) \<Rightarrow> (Some (Errorf ''failure exporting imdb lists'' err), st2)
      | (None, st2) \<Rightarrow>
     (case (if Watchlist (conf S)
            then invoke (imdb_WatchlistExport (imdbClient S)) IMDbWatchlistExport st2
            else (None, st2)) of
        (Some err, st3) \<Rightarrow> (Some (Errorf ''failure exporting imdb watchlist'' err), st3)
      | (None, st3) \<Rightarrow> (None, st3))))"

text \<open>
  Lines 111-119: the source lists are stored under their ids and the correspondence set
  is built. \<^verbatim>\<open>ListName: &imdbList.ListName\<close> is the name of the list of that iteration (the
  loop variable is per iteration, as from Go 1.22).
\<close>

definition storeIMDbLists :: "IMDbList list \<Rightarrow> (string \<times> IMDbList) list \<Rightarrow> (string \<times> IMDbList) list" where
  "storeIMDbLists ls m = fold (\<lambda>imdbList. AList.update (ListID imdbList) imdbList) ls m"

definition traktIDMetasOf :: "env \<Rightarrow> IMDbList list \<Rightarrow> TraktIDMeta list" where
  "traktIDMetasOf E ls =
     map (\<lambda>imdbList. \<lparr>IMDb = ListID imdbList,
                      Slug = InferTraktListSlug E (ListName imdbList),
                      MetaListName = ListName imdbList\<rparr>) ls"

text \<open>Lines 121-136: the loop over the errors the mirror's list fetch delegated.\<close>

fun hydrateDelegated ::
  "env \<Rightarrow> 'w Syncer \<Rightarrow> TraktIDMeta list \<Rightarrow> error list \<Rightarrow> 'w run \<Rightarrow> error option \<times> 'w run" where
  "hydrateDelegated E S traktIDMetas [] st = (None, st)"
| "hydrateDelegated E S traktIDMetas (delegatedErr # rest) st =
     (case asTraktListNotFoundError delegatedErr of
        Some slug \<Rightarrow>
          (if Mode (conf S) = SyncModeDryRun
           then hydrateDelegated E S traktIDMetas rest
                  (emit (LogInfo ''sync mode %s would have created trakt list %s to backfill imdb list %s''
                           [ArgMode (Mode (conf S)), ArgS slug,
                            ArgS (GetListNameFromSlug E traktIDMetas slug)] None) st)
           else (case invoke (trakt_ListAdd (traktClient S) slug (GetListNameFromSlug E traktIDMetas slug))
                        (TraktListAdd slug (GetListNameFromSlug E traktIDMetas slug)) st of
                   (Some err, st1) \<Rightarrow> (Some (Errorf ''failure creating trakt list'' err), st1)
                 | (None, st1) \<Rightarrow> hydrateDelegated E S traktIDMetas rest st1))
      | None \<Rightarrow> (Some (Errorf ''failure hydrating trakt lists'' delegatedErr), st))"

text \<open>Lines 137-139.\<close>

definition storeTraktLists :: "TraktList list \<Rightarrow> (string \<times> TraktList) list \<Rightarrow> (string \<times> TraktList) list" where
  "storeTraktLists ls m = fold (\<lambda>traktList. AList.update (IMDb (IDMeta traktList)) traktList) ls m"

text \<open>Lines 106-140.\<close>

definition hydrateLists :: "env \<Rightarrow> 'w Syncer \<Rightarrow> string list \<Rightarrow> 'w run \<Rightarrow> error option \<times> 'w run" where
  "hydrateLists E S lids st =
     (if \<not> Lists (conf S) then (None, st)
      else
        (case invoke (imdb_ListsGet (imdbClient S) lids) (IMDbListsGet lids) st of
           (Inl err, st1) \<Rightarrow> (Some (Errorf ''failure fetching imdb lists'' err), st1)
         | (Inr imdbLists', st1) \<Rightarrow>
             (case invoke (trakt_ListsGet (traktClient S) (traktIDMetasOf E imdbLists'))
                     (TraktListsGet (traktIDMetasOf E imdbLists'))
                     (st1\<lparr>user := (user st1)\<lparr>imdbLists := storeIMDbLists imdbLists' (imdbLists (user st1))\<rparr>\<rparr>) of
                ((traktLists', delegatedErrors), st2) \<Rightarrow>
                  (case hydrateDelegated E S (traktIDMetasOf E imdbLists') delegatedErrors st2 of
                     (Some err, st3) \<Rightarrow> (Some err, st3)
                   | (None, st3) \<Rightarrow>
                       (None, st3\<lparr>user := (user st3)\<lparr>traktLists :=
                                 storeTraktLists traktLists' (traktLists (user st3))\<rparr>\<rparr>)))))"

text \<open>
  Lines 144-155. A successful \<^verbatim>\<open>WatchlistGet\<close> of either client is taken to return a
  list (a pointer that is not nil).
\<close>

definition hydrateWatchlist :: "'w Syncer \<Rightarrow> 'w run \<Rightarrow> error option \<times> 'w run" where
  "hydrateWatchlist S st =
     (if \<not> Watchlist (conf S) then (None, st)
      else
        (case invoke (imdb_WatchlistGet (imdbClient S)) IMDbWatchlistGet st of
           (Inl err, st1) \<Rightarrow> (Some (Errorf ''failure fetching imdb watchlist'' err), st1)
         | (Inr imdbWatchlist, st1) \<Rightarrow>
             (case invoke (trakt_WatchlistGet (traktClient S)) TraktWatchlistGet
                     (st1\<lparr>user := (user st1)\<lparr>imdbLists :=
                            AList.update (ListID imdbWatchlist) imdbWatchlist (imdbLists (user st1))\<rparr>\<rparr>) of
                (Inl err, st2) \<Rightarrow> (Some (Errorf ''failure fetching trakt watchlist'' err), st2)
              | (Inr traktWatchlist, st2) \<Rightarrow>
                  (None, st2\<lparr>user := (user st2)\<lparr>traktLists :=
                            AList.update (ListID imdbWatchlist) traktWatchlist (traktLists (user st2))\<rparr>\<rparr>))))"

text \<open>
  Lines 161-169: the loop over the mirror's ratings. An item whose identity is nil
  (with no error) is passed over; the entries written before an error stay written.
\<close>

fun storeTraktRatings ::
  "env \<Rightarrow> TraktItem list \<Rightarrow> (string \<times> TraktItem) list \<Rightarrow> error option \<times> (string \<times> TraktItem) list" where
  "storeTraktRatings E [] m = (None, m)"
| "storeTraktRatings E (traktRating # rest) m =
     (case GetItemID E traktRating of
        Inl err \<Rightarrow> (Some (Errorf ''failure fetching trakt item id'' err), m)
      | Inr None \<Rightarrow> storeTraktRatings E rest m
      | Inr (Some tid) \<Rightarrow> storeTraktRatings E rest (AList.update tid traktRating m))"

text \<open>Lines 174-176.\<close>

definition storeIMDbRatings :: "IMDbItem list \<Rightarrow> (string \<times> IMDbItem) list \<Rightarrow> (string \<times> IMDbItem) list" where
  "storeIMDbRatings rs m = fold (\<lambda>imdbRating. AList.update (ID imdbRating) imdbRating) rs m"

text \<open>Lines 156-177.\<close>

definition hydrateRatings :: "env \<Rightarrow> 'w Syncer \<Rightarrow> 'w run \<Rightarrow> error option \<times> 'w run" where
  "hydrateRatings E S st =
     (if \<not> Ratings (conf S) then (None, st)
      else
        (case invoke (trakt_RatingsGet (traktClient S)) TraktRatingsGet st of
           (Inl err, st1) \<Rightarrow> (Some (Errorf ''failure fetching trakt ratings'' err), st1)
         | (Inr traktRatings', st1) \<Rightarrow>
             (case storeTraktRatings E traktRatings' (traktRatings (user st1)) of
                (Some err, m) \<Rightarrow> (Some err, st1\<lparr>user := (user st1)\<lparr>traktRatings := m\<rparr>\<rparr>)
              | (None, m) \<Rightarrow>
                  (case invoke (imdb_RatingsGet (imdbClient S)) IMDbRatingsGet
                          (st1\<lparr>user := (user st1)\<lparr>traktRatings := m\<rparr>\<rparr>) of
                     (Inl err, st2) \<Rightarrow> (Some (Errorf ''failure fetching imdb ratings'' err), st2)
                   | (Inr imdbRatings', st2) \<Rightarrow>
                       (None, st2\<lparr>user := (user st2)\<lparr>imdbRatings :=
                                 storeIMDbRatings imdbRatings' (imdbRatings (user st2))\<rparr>\<rparr>)))))"

text \<open>Lines 86-179.\<close>

definition hydrate :: "env \<Rightarrow> 'w Syncer \<Rightarrow> 'w run \<Rightarrow> error option \<times> 'w run" where
  "hydrate E S st =
     (case hydrateExport S (rangeLids E (imdbLists (user st))) st of
        (Some err, st1) \<Rightarrow> (Some err, st1)
      | (None, st1) \<Rightarrow>
     (case hydrateLists E S (rangeLids E (imdbLists (user st))) st1 of
        (Some err, st2) \<Rightarrow> (Some err, st2)
      | (None, st2) \<Rightarrow>
          if authless S then (None, st2)
          else
            (case hydrateWatchlist S st2 of
               (Some err, st3) \<Rightarrow> (Some err, st3)
             | (None, st3) \<Rightarrow> hydrateRatings E S st3)))"

subsection \<open>syncLists\<close>

text \<open>
  Lines 192-236: the body of the loop, for one source list. The first component of the
  result is the error the body returns with; \<open>None\<close> is the end of the iteration, by
  \<^verbatim>\<open>continue\<close> or by reaching the end of the body.
\<close>

definition syncList :: "env \<Rightarrow> 'w Syncer \<Rightarrow> IMDbList \<Rightarrow> 'w run \<Rightarrow> error option \<times> 'w run" where
  "syncList E S imdbList st =
     (let diff = ListDiff E imdbList (traktListAt (traktLists (user st)) (ListID imdbList));
          slug = InferTraktListSlug E (ListName imdbList)
      in
      if IsWatchlist imdbList then
        (if Add diff \<noteq> [] \<and> Mode (conf S) = SyncModeDryRun
         then (None, emit (LogInfo ''sync mode %s would have added %d trakt list item(s)''
                             [ArgMode (Mode (conf S)), ArgD (length (Add diff))]
                             (Some (''watchlist'', Add diff))) st)
         else
           (case (if Add diff \<noteq> []
                  then invoke (trakt_WatchlistItemsAdd (traktClient S) (Add diff))
                         (TraktWatchlistItemsAdd (Add diff)) st
                  else (None, st)) of
              (Some err, st1) \<Rightarrow> (Some (Errorf ''failure adding items to trakt watchlist'' err), st1)
            | (None, st1) \<Rightarrow>
                if Remove diff \<noteq> [] then
                  (if Mode (conf S) = SyncModeDryRun \<or> Mode (conf S) = SyncModeAddOnly
                   then (None, emit (LogInfo ''sync mode %s would have deleted %d trakt list item(s)''
                                       [ArgMode (Mode (conf S)), ArgD (length (Remove diff))]
                                       (Some (''watchlist'', Remove diff))) st1)
                   else
                     (case invoke (trakt_WatchlistItemsRemove (traktClient S) (Remove diff))
                             (TraktWatchlistItemsRemove (Remove diff)) st1 of
                        (Some err, st2) \<Rightarrow>
                          (Some (Errorf ''failure removing items from trakt watchlist'' err), st2)
                      | (None, st2) \<Rightarrow> (None, st2)))
                else (None, st1)))
      else
        (if Add diff \<noteq> [] \<and> Mode (conf S) = SyncModeDryRun
         then (None, emit (LogInfo ''sync mode %s would have added %d trakt list item(s)''
                             [ArgMode (Mode (conf S)), ArgD (length (Add diff))]
                             (Some (slug, Add diff))) st)
         else
           (case (if Add diff \<noteq> []
                  then invoke (trakt_ListItemsAdd (traktClient S) slug (Add diff))
                         (TraktListItemsAdd slug (Add diff)) st
                  else (None, st)) of
              (Some err, st1) \<Rightarrow>
                (Some (Errorf (''failure adding items to trakt list '' @ slug) err), st1)
            | (None, st1) \<Rightarrow>
                if Remove diff \<noteq> [] then
                  (if Mode (conf S) = SyncModeDryRun \<or> Mode (conf S) = SyncModeAddOnly
                   then (None, emit (LogInfo ''sync mode %s would have deleted %d trakt list item(s)''
                                       [ArgMode (Mode (conf S)), ArgD (length (Remove diff))]
                                       (Some (slug, Remove diff))) st1)
                   else
                     (case invoke (trakt_ListItemsRemove (traktClient S) slug (Remove diff))
                             (TraktListItemsRemove slug (Remove diff)) st1 of
                        (Some err, st2) \<Rightarrow>
                          (Some (Errorf (''failure removing items from trakt list '' @ slug) err), st2)
                      | (None, st2) \<Rightarrow> (None, st2)))
                else (None, st1))))"

text \<open>Line 191: the loop, over the lists in the order \<^verbatim>\<open>range\<close> gives them.\<close>

fun syncListsLoop :: "env \<Rightarrow> 'w Syncer \<Rightarrow> IMDbList list \<Rightarrow> 'w run \<Rightarrow> error option \<times> 'w run" where
  "syncListsLoop E S [] st = (None, st)"
| "syncListsLoop E S (imdbList # rest) st =
     (case syncList E S imdbList st of
        (Some err, st1) \<Rightarrow> (Some err, st1)
      | (None, st1) \<Rightarrow> syncListsLoop E S rest st1)"

text \<open>Lines 182-190: the two skip messages.\<close>

definition syncListsSkips :: "'w Syncer \<Rightarrow> 'w run \<Rightarrow> 'w run" where
  "syncListsSkips S st =
     (let st1 = (if \<not> Watchlist (conf S) then emit (LogInfo ''skipping watchlist sync'' [] None) st else st)
      in if \<not> Lists (conf S) then emit (LogInfo ''skipping lists sync'' [] None) st1 else st1)"

text \<open>Lines 181-239.\<close>

definition syncLists :: "env \<Rightarrow> 'w Syncer \<Rightarrow> 'w run \<Rightarrow> error option \<times> 'w run" where
  "syncLists E S st =
     (if \<not> Watchlist (conf S) \<and> \<not> Lists (conf S) then (None, syncListsSkips S st)
      else syncListsLoop E S (rangeLists E (imdbLists (user st))) (syncListsSkips S st))"

subsection \<open>syncRatings\<close>

text \<open>Lines 251-260 and 261-270: the two gated actions on a diff of the ratings.\<close>

definition ratingsAdd :: "'w Syncer \<Rightarrow> Diff \<Rightarrow> 'w run \<Rightarrow> error option \<times> 'w run" where
  "ratingsAdd S diff st =
     (if Add diff \<noteq> [] then
        (if Mode (conf S) = SyncModeDryRun
         then (None, emit (LogInfo ''sync mode %s would have added %d trakt rating item(s)''
                             [ArgMode (Mode (conf S)), ArgD (length (Add diff))]
                             (Some (''ratings'', Add diff))) st)
         else
           (case invoke (trakt_RatingsAdd (traktClient S) (Add diff)) (TraktRatingsAdd (Add diff)) st of
              (Some err, st1) \<Rightarrow> (Some (Errorf ''failure adding trakt ratings'' err), st1)
            | (None, st1) \<Rightarrow> (None, st1)))
      else (None, st))"

definition ratingsRemove :: "'w Syncer \<Rightarrow> Diff \<Rightarrow> 'w run \<Rightarrow> error option \<times> 'w run" where
  "ratingsRemove S diff st =
     (if Remove diff \<noteq> [] then
        (if Mode (conf S) = SyncModeDryRun \<or> Mode (conf S) = SyncModeAddOnly
         then (None, emit (LogInfo ''sync mode %s would have deleted %d trakt rating item(s)''
                             [ArgMode (Mode (conf S)), ArgD (length (Remove diff))]
                             (Some (''ratings'', Remove diff))) st)
         else
           (case invoke (trakt_RatingsRemove (traktClient S) (Remove diff))
                   (TraktRatingsRemove (Remove diff)) st of
              (Some err, st1) \<Rightarrow> (Some (Errorf ''failure removing trakt ratings'' err), st1)
            | (None, st1) \<Rightarrow> (None, st1)))
      else (None, st))"

text \<open>Lines 241-272.\<close>

definition syncRatings :: "env \<Rightarrow> 'w Syncer \<Rightarrow> 'w run \<Rightarrow> error option \<times> 'w run" where
  "syncRatings E S st =
     (if authless S
      then (None, emit (LogInfo ''skipping ratings sync since no imdb auth was provided'' [] None) st)
      else if \<not> Ratings (conf S)
      then (None, emit (LogInfo ''skipping ratings sync'' [] None) st)
      else
        (case ratingsAdd S (ItemsDifference E (imdbRatings (user st)) (traktRatings (user st))) st of
           (Some err, st1) \<Rightarrow> (Some err, st1)
         | (None, st1) \<Rightarrow>
             ratingsRemove S (ItemsDifference E (imdbRatings (user st)) (traktRatings (user st))) st1))"

subsection \<open>syncHistory\<close>

text \<open>
  Lines 289-302 and 316-329: the two loops over the items of the ratings diff, each with
  one history read per item. \<open>keep\<close> says which items the batch takes: those with no
  history entry (\<open>historyToAdd\<close>, lines 298-301), or those with one (\<open>historyToRemove\<close>,
  lines 325-328). \<^verbatim>\<open>*traktItemID\<close> on a nil identity is a runtime panic.
\<close>

fun historyBatch ::
  "(HistoryEntry list \<Rightarrow> bool) \<Rightarrow> env \<Rightarrow> 'w Syncer \<Rightarrow> TraktItem list \<Rightarrow> TraktItem list \<Rightarrow> 'w run
     \<Rightarrow> TraktItem list outcome \<times> 'w run" where
  "historyBatch keep E S [] batch st = (Ok batch, st)"
| "historyBatch keep E S (item # rest) batch st =
     (case GetItemID E item of
        Inl err \<Rightarrow> (Err (Errorf ''failure fetching trakt item id'' err), st)
      | Inr None \<Rightarrow> (Panic, st)
      | Inr (Some traktItemID) \<Rightarrow>
          (case invoke (trakt_HistoryGet (traktClient S) (Type item) traktItemID)
                  (TraktHistoryGet (Type item) traktItemID) st of
             (Inl err, st1) \<Rightarrow>
               (Err (Errorf (''failure fetching trakt history for '' @ Type item @ '' '' @ traktItemID) err),
                st1)
           | (Inr history, st1) \<Rightarrow>
               historyBatch keep E S rest (if keep history then batch @ [item] else batch) st1))"

definition historyToAdd ::
  "env \<Rightarrow> 'w Syncer \<Rightarrow> TraktItem list \<Rightarrow> 'w run \<Rightarrow> TraktItem list outcome \<times> 'w run" where
  "historyToAdd E S items st = historyBatch (\<lambda>history. history = []) E S items [] st"

definition historyToRemove ::
  "env \<Rightarrow> 'w Syncer \<Rightarrow> TraktItem list \<Rightarrow> 'w run \<Rightarrow> TraktItem list outcome \<times> 'w run" where
  "historyToRemove E S items st = historyBatch (\<lambda>history. history \<noteq> []) E S items [] st"

text \<open>Lines 303-312 and 330-339: the gated actions on the two batches.\<close>

definition historyAdd :: "'w Syncer \<Rightarrow> TraktItem list \<Rightarrow> 'w run \<Rightarrow> error option \<times> 'w run" where
  "historyAdd S batch st =
     (if batch \<noteq> [] then
        (if Mode (conf S) = SyncModeDryRun
         then (None, emit (LogInfo ''sync mode %s would have added %d trakt history item(s)''
                             [ArgMode (Mode (conf S)), ArgD (length batch)]
                             (Some (''history'', batch))) st)
         else
           (case invoke (trakt_HistoryAdd (traktClient S) batch) (TraktHistoryAdd batch) st of
              (Some err, st1) \<Rightarrow> (Some (Errorf ''failure adding trakt history'' err), st1)
            | (None, st1) \<Rightarrow> (None, st1)))
      else (None, st))"

definition historyRemove :: "'w Syncer \<Rightarrow> TraktItem list \<Rightarrow> 'w run \<Rightarrow> error option \<times> 'w run" where
  "historyRemove S batch st =
     (if batch \<noteq> [] then
        (if Mode (conf S) = SyncModeDryRun \<or> Mode (conf S) = SyncModeAddOnly
         then (None, emit (LogInfo ''sync mode %s would have deleted %d trakt history item(s)''
                             [ArgMode (Mode (conf S)), ArgD (length batch)]
                             (Some (''history'', batch))) st)
         else
           (case invoke (trakt_HistoryRemove (traktClient S) batch) (TraktHistoryRemove batch) st of
              (Some err, st1) \<Rightarrow> (Some (Errorf ''failure removing trakt history'' err), st1)
            | (None, st1) \<Rightarrow> (None, st1)))
      else (None, st))"

text \<open>Lines 287-313 and 314-340: each half of the stage, on its side of the diff.\<close>

definition syncHistoryAdd :: "env \<Rightarrow> 'w Syncer \<Rightarrow> Diff \<Rightarrow> 'w run \<Rightarrow> unit outcome \<times> 'w run" where
  "syncHistoryAdd E S diff st =
     (if Add diff \<noteq> [] then
        (case historyToAdd E S (Add diff) st of
           (Err err, st1) \<Rightarrow> (Err err, st1)
         | (Panic, st1) \<Rightarrow> (Panic, st1)
         | (Ok batch, st1) \<Rightarrow>
             (case historyAdd S batch st1 of
                (Some err, st2) \<Rightarrow> (Err err, st2)
              | (None, st2) \<Rightarrow> (Ok (), st2)))
      else (Ok (), st))"

definition syncHistoryRemove :: "env \<Rightarrow> 'w Syncer \<Rightarrow> Diff \<Rightarrow> 'w run \<Rightarrow> unit outcome \<times> 'w run" where
  "syncHistoryRemove E S diff st =
     (if Remove diff \<noteq> [] then
        (case historyToRemove E S (Remove diff) st of
           (Err err, st1) \<Rightarrow> (Err err, st1)
         | (Panic, st1) \<Rightarrow> (Panic, st1)
         | (Ok batch, st1) \<Rightarrow>
             (case historyRemove S batch st1 of
                (Some err, st2) \<Rightarrow> (Err err, st2)
              | (None, st2) \<Rightarrow> (Ok (), st2)))
      else (Ok (), st))"

text \<open>Lines 274-342.\<close>

definition syncHistory :: "env \<Rightarrow> 'w Syncer \<Rightarrow> 'w run \<Rightarrow> unit outcome \<times> 'w run" where
  "syncHistory E S st =
     (if authless S
      then (Ok (), emit (LogInfo ''skipping history sync since no imdb auth was provided'' [] None) st)
      else if \<not> History (conf S)
      then (Ok (), emit (LogInfo ''skipping history sync'' [] None) st)
      else
        (case syncHistoryAdd E S (ItemsDifference E (imdbRatings (user st)) (traktRatings (user st))) st of
           (Err err, st1) \<Rightarrow> (Err err, st1)
         | (Panic, st1) \<Rightarrow> (Panic, st1)
         | (Ok u, st1) \<Rightarrow>
             syncHistoryRemove E S
               (ItemsDifference E (imdbRatings (user st)) (traktRatings (user st))) st1))"

subsection \<open>Sync\<close>

text \<open>Lines 64-84.\<close>

definition Sync :: "env \<Rightarrow> 'w Syncer \<Rightarrow> 'w run \<Rightarrow> unit outcome \<times> 'w run" where
  "Sync E S st =
     (case hydrate E S (emit (LogInfo ''sync started'' [] None) st) of
        (Some err, st1) \<Rightarrow> (Err err, emit (LogError ''failure hydrating imdb client'' err) st1)
      | (None, st1) \<Rightarrow>
     (case syncLists E S st1 of
        (Some err, st2) \<Rightarrow> (Err err, emit (LogError ''failure syncing lists'' err) st2)
      | (None, st2) \<Rightarrow>
     (case syncRatings E S st2 of
        (Some err, st3) \<Rightarrow> (Err err, emit (LogError ''failure syncing ratings'' err) st3)
      | (None, st3) \<Rightarrow>
     (case syncHistory E S st3 of
        (Err err, st4) \<Rightarrow> (Err err, emit (LogError ''failure syncing history'' err) st4)
      | (Panic, st4) \<Rightarrow> (Panic, st4)
      | (Ok u, st4) \<Rightarrow> (Ok (), emit (LogInfo ''sync completed'' [] None) st4)))))"

section \<open>Auxiliary definitions\<close>

text \<open>
  What a function adds to the trace: the events of \<open>st'\<close> after those of \<open>st\<close>. \<open>only P st st'\<close>
  says that \<open>st'\<close> continues the trace of \<open>st\<close> with events that all satisfy \<open>P\<close>.
\<close>

definition emitted :: "'w run \<Rightarrow> 'w run \<Rightarrow> event list" where
  "emitted st st' = drop (length (trace st)) (trace st')"

definition only :: "(event \<Rightarrow> bool) \<Rightarrow> 'w run \<Rightarrow> 'w run \<Rightarrow> bool" where
  "only P st st' = (\<exists>T. trace st' = trace st @ T \<and> list_all P T)"

text \<open>
  The stage a call on a client belongs to: 0 for the calls of \<^verbatim>\<open>hydrate\<close>, 1 for those of
  \<^verbatim>\<open>syncLists\<close>, 2 for \<^verbatim>\<open>syncRatings\<close>, 3 for \<^verbatim>\<open>syncHistory\<close>; a log entry belongs to none.
\<close>

fun callStage :: "event \<Rightarrow> nat option" where
  "callStage (LogInfo fmt args attr) = None"
| "callStage (LogError msg err) = None"
| "callStage (IMDbRatingsExport r) = Some 0"
| "callStage (IMDbListsExport lids r) = Some 0"
| "callStage (IMDbWatchlistExport r) = Some 0"
| "callStage (IMDbListsGet lids r) = Some 0"
| "callStage (IMDbWatchlistGet r) = Some 0"
| "callStage (IMDbRatingsGet r) = Some 0"
| "callStage (TraktListsGet metas r) = Some 0"
| "callStage (TraktListAdd slug name r) = Some 0"
| "callStage (TraktWatchlistGet r) = Some 0"
| "callStage (TraktRatingsGet r) = Some 0"
| "callStage (TraktWatchlistItemsAdd items r) = Some 1"
| "callStage (TraktWatchlistItemsRemove items r) = Some 1"
| "callStage (TraktListItemsAdd slug items r) = Some 1"
| "callStage (TraktListItemsRemove slug items r) = Some 1"
| "callStage (TraktRatingsAdd items r) = Some 2"
| "callStage (TraktRatingsRemove items r) = Some 2"
| "callStage (TraktHistoryGet ty tid r) = Some 3"
| "callStage (TraktHistoryAdd items r) = Some 3"
| "callStage (TraktHistoryRemove items r) = Some 3"

definition inStage :: "nat \<Rightarrow> event \<Rightarrow> bool" where
  "inStage k e = (case callStage e of None \<Rightarrow> True | Some j \<Rightarrow> j = k)"

subsection \<open>The diff engine and the name lookup, from the spec\<close>

text \<open>
  Modelled from the spec: \<^verbatim>\<open>entities.ItemsDifference\<close>, \<^verbatim>\<open>entities.ListDiff\<close> and the
  conversion of a source item to a mirror item are not in the visible source. The spec (4.2):
  Add holds the elements whose identity key exists in the source but not in the mirror,
  Remove those whose key exists in the mirror but not in the source; the comparison is by
  identity key only. A mirror list item is keyed by its derived identity; one with no
  identity has no key.
\<close>

definition toTraktItem :: "IMDbItem \<Rightarrow> TraktItem" where
  "toTraktItem i = \<lparr>Type = Kind i, ItemIMDb = ID i, ItemRating = Rating i\<rparr>"

definition ItemsDifference_spec :: "(string \<times> IMDbItem) list \<Rightarrow> (string \<times> TraktItem) list \<Rightarrow> Diff" where
  "ItemsDifference_spec source mirror =
     \<lparr>Add = map (\<lambda>kv. toTraktItem (snd kv)) (filter (\<lambda>kv. map_of mirror (fst kv) = None) source),
      Remove = map snd (filter (\<lambda>kv. map_of source (fst kv) = None) mirror)\<rparr>"

definition keyed :: "(TraktItem \<Rightarrow> error + string option) \<Rightarrow> TraktItem list \<Rightarrow> (string \<times> TraktItem) list" where
  "keyed gid items =
     concat (map (\<lambda>x. case gid x of Inr (Some k) \<Rightarrow> [(k, x)] | Inr None \<Rightarrow> [] | Inl e \<Rightarrow> []) items)"

definition ListDiff_spec :: "(TraktItem \<Rightarrow> error + string option) \<Rightarrow> IMDbList \<Rightarrow> TraktList \<Rightarrow> Diff" where
  "ListDiff_spec gid source mirror =
     ItemsDifference_spec (map (\<lambda>i. (ID i, i)) (ListItems source)) (keyed gid (TraktListItems mirror))"

text \<open>
  Modelled from the spec: \<^verbatim>\<open>TraktIDMetas.GetListNameFromSlug\<close> is not in the visible source.
  The spec (3, 4.1): the correspondence maps a source list to its derived slug plus the
  original name, and the create-list request uses the slug and the original name. The
  name is that of the first correspondence with the slug; a slug of no correspondence
  gives the empty name.
\<close>

fun GetListNameFromSlug_spec :: "TraktIDMeta list \<Rightarrow> string \<Rightarrow> string" where
  "GetListNameFromSlug_spec [] slug = []"
| "GetListNameFromSlug_spec (meta # metas) slug =
     (if Slug meta = slug then MetaListName meta else GetListNameFromSlug_spec metas slug)"

subsection \<open>Instances of the parameters, for runs on concrete inputs\<close>

text \<open>
  An identity function of the shape \<^verbatim>\<open>hydrate\<close> provides for (lines 162-168): an identity
  for a movie, a show or an episode, no identity and no error for a season, an error for
  any other type. A slug function that writes a dash for a space. Clients that answer
  from fixed data and whose writes succeed; \<open>unavailable\<close> is a write that fails.
\<close>

definition typedItemID :: "TraktItem \<Rightarrow> error + string option" where
  "typedItemID i =
     (if Type i = ''movie'' \<or> Type i = ''show'' \<or> Type i = ''episode'' then Inr (Some (ItemIMDb i))
      else if Type i = ''season'' then Inr None
      else Inl (ClientError ''unknown trakt item type''))"

definition dashed :: "string \<Rightarrow> string" where
  "dashed name = map (\<lambda>c. if c = CHR '' '' then CHR ''-'' else c) name"

definition specEnv :: env where
  "specEnv = \<lparr>InferTraktListSlug = dashed,
              GetListNameFromSlug = GetListNameFromSlug_spec,
              GetItemID = typedItemID,
              ListDiff = ListDiff_spec typedItemID,
              ItemsDifference = ItemsDifference_spec,
              rangeLids = map fst,
              rangeLists = map snd\<rparr>"

definition imdbStub :: "IMDbList list \<Rightarrow> IMDbList \<Rightarrow> IMDbItem list \<Rightarrow> unit IMDbClientInterface" where
  "imdbStub srcLists watchlist ratings =
     \<lparr>imdb_RatingsExport = (\<lambda>w. (None, w)),
      imdb_ListsExport = (\<lambda>lids w. (None, w)),
      imdb_WatchlistExport = (\<lambda>w. (None, w)),
      imdb_ListsGet = (\<lambda>lids w. (Inr (filter (\<lambda>l. ListID l \<in> set lids) srcLists), w)),
      imdb_WatchlistGet = (\<lambda>w. (Inr watchlist, w)),
      imdb_RatingsGet = (\<lambda>w. (Inr ratings, w))\<rparr>"

definition traktStub ::
  "(string \<times> TraktItem list) list \<Rightarrow> TraktItem list \<Rightarrow> TraktItem list \<Rightarrow> (string \<times> HistoryEntry list) list
     \<Rightarrow> unit TraktClientInterface" where
  "traktStub mirLists watchlist ratings history =
     \<lparr>trakt_ListsGet = (\<lambda>metas w.
        ((concat (map (\<lambda>m. case map_of mirLists (Slug m) of
                              Some items \<Rightarrow> [\<lparr>IDMeta = m, TraktListItems = items\<rparr>] | None \<Rightarrow> []) metas),
          concat (map (\<lambda>m. case map_of mirLists (Slug m) of
                              Some items \<Rightarrow> [] | None \<Rightarrow> [TraktListNotFoundError (Slug m)]) metas)), w)),
      trakt_ListAdd = (\<lambda>slug name w. (None, w)),
      trakt_WatchlistGet =
        (\<lambda>w. (Inr \<lparr>IDMeta = \<lparr>IMDb = [], Slug = [], MetaListName = []\<rparr>, TraktListItems = watchlist\<rparr>, w)),
      trakt_RatingsGet = (\<lambda>w. (Inr ratings, w)),
      trakt_WatchlistItemsAdd = (\<lambda>items w. (None, w)),
      trakt_WatchlistItemsRemove = (\<lambda>items w. (None, w)),
      trakt_ListItemsAdd = (\<lambda>slug items w. (None, w)),
      trakt_ListItemsRemove = (\<lambda>slug items w. (None, w)),
      trakt_RatingsAdd = (\<lambda>items w. (None, w)),
      trakt_RatingsRemove = (\<lambda>items w. (None, w)),
      trakt_HistoryGet = (\<lambda>ty tid w. (Inr (case map_of history tid of Some h \<Rightarrow> h | None \<Rightarrow> []), w)),
      trakt_HistoryAdd = (\<lambda>items w. (None, w)),
      trakt_HistoryRemove = (\<lambda>items w. (None, w))\<rparr>"

definition movie :: "string \<Rightarrow> int \<Rightarrow> IMDbItem" where
  "movie i r = \<lparr>ID = i, Kind = ''movie'', Rating = r\<rparr>"

definition traktMovie :: "string \<Rightarrow> int \<Rightarrow> TraktItem" where
  "traktMovie i r = \<lparr>Type = ''movie'', ItemIMDb = i, ItemRating = r\<rparr>"

definition allOn :: "SyncMode \<Rightarrow> Sync" where
  "allOn m = \<lparr>Mode = m, Lists = True, Watchlist = True, Ratings = True, History = True\<rparr>"

definition demoIMDb :: "unit IMDbClientInterface" where
  "demoIMDb =
     imdbStub
       [\<lparr>ListID = ''ls1'', ListName = ''Watched 2024'',
         ListItems = [movie ''tt1'' 0, movie ''tt2'' 0], IsWatchlist = False\<rparr>]
       \<lparr>ListID = ''watchlist'', ListName = ''WATCHLIST'', ListItems = [movie ''tt3'' 0], IsWatchlist = True\<rparr>
       [movie ''tt1'' 8]"

definition demoTrakt :: "unit TraktClientInterface" where
  "demoTrakt =
     traktStub [] [traktMovie ''tt9'' 0] [traktMovie ''tt7'' 5] [(''tt7'', [WatchedAt ''2024-01-01''])]"

definition unavailable :: "unit \<Rightarrow> error option \<times> unit" where
  "unavailable w = (Some (ClientError ''503''), w)"

definition demoTraktNoListItemsAdd :: "unit TraktClientInterface" where
  "demoTraktNoListItemsAdd = demoTrakt\<lparr>trakt_ListItemsAdd := (\<lambda>slug items. unavailable)\<rparr>"

definition demoTraktNoRatingsAdd :: "unit TraktClientInterface" where
  "demoTraktNoRatingsAdd = demoTrakt\<lparr>trakt_RatingsAdd := (\<lambda>items. unavailable)\<rparr>"

definition listsOnly :: "SyncMode \<Rightarrow> Sync" where
  "listsOnly m = \<lparr>Mode = m, Lists = True, Watchlist = False, Ratings = False, History = False\<rparr>"

definition twoIMDb :: "unit IMDbClientInterface" where
  "twoIMDb =
     imdbStub
       [\<lparr>ListID = ''ls1'', ListName = ''Favourites'', ListItems = [movie ''tt1'' 0], IsWatchlist = False\<rparr>,
        \<lparr>ListID = ''ls2'', ListName = ''Classics'', ListItems = [movie ''tt2'' 0], IsWatchlist = False\<rparr>]
       \<lparr>ListID = ''watchlist'', ListName = ''WATCHLIST'', ListItems = [], IsWatchlist = True\<rparr>
       []"

definition twoTrakt :: "unit TraktClientInterface" where
  "twoTrakt =
     traktStub [(''Favourites'', [traktMovie ''tt8'' 0]), (''Classics'', [traktMovie ''tt9'' 0])] [] [] []"

definition twoSyncer :: "SyncMode \<Rightarrow> unit Syncer" where
  "twoSyncer m = fst (NewSyncer twoIMDb twoTrakt (listsOnly m) False [''ls1'', ''ls2''] ())"

definition twoHydrated :: "unit run" where
  "twoHydrated =
     snd (hydrate specEnv (twoSyncer SyncModeFull)
            (snd (NewSyncer twoIMDb twoTrakt (listsOnly SyncModeFull) False [''ls1'', ''ls2''] ())))"

definition demoSyncer :: "unit TraktClientInterface \<Rightarrow> SyncMode \<Rightarrow> unit Syncer" where
  "demoSyncer tc m = fst (NewSyncer demoIMDb tc (allOn m) False [''ls1''] ())"

definition demoStart :: "unit run" where
  "demoStart = snd (NewSyncer demoIMDb demoTrakt (allOn SyncModeFull) False [''ls1''] ())"

definition demoHydrated :: "unit run" where
  "demoHydrated = snd (hydrate specEnv (demoSyncer demoTrakt SyncModeDryRun) demoStart)"

text \<open>The calls up to \<open>st\<close> belong to stages up to \<open>k\<close> and stand in the order of their stages.\<close>

definition stagesUpTo :: "nat \<Rightarrow> 'w run \<Rightarrow> 'w run \<Rightarrow> bool" where
  "stagesUpTo k st0 st =
     (only (\<lambda>e. case callStage e of None \<Rightarrow> True | Some j \<Rightarrow> j \<le> k) st0 st
      \<and> sorted (List.map_filter callStage (emitted st0 st)))"

text \<open>
  The history read made for an item, with the identity and the entries it returned, and
  the events the two gated actions on a batch leave when they succeed (lines 303-312,
  330-339).
\<close>

definition historyGetOf :: "TraktItem \<times> string \<times> HistoryEntry list \<Rightarrow> event" where
  "historyGetOf xr = TraktHistoryGet (Type (fst xr)) (fst (snd xr)) (Inr (snd (snd xr)))"

definition gateHistoryAdd :: "'w Syncer \<Rightarrow> TraktItem list \<Rightarrow> event list" where
  "gateHistoryAdd S batch =
     (if batch = [] then []
      else if Mode (conf S) = SyncModeDryRun
      then [LogInfo ''sync mode %s would have added %d trakt history item(s)''
              [ArgMode (Mode (conf S)), ArgD (length batch)] (Some (''history'', batch))]
      else [TraktHistoryAdd batch None])"

definition gateHistoryRemove :: "'w Syncer \<Rightarrow> TraktItem list \<Rightarrow> event list" where
  "gateHistoryRemove S batch =
     (if batch = [] then []
      else if Mode (conf S) = SyncModeDryRun \<or> Mode (conf S) = SyncModeAddOnly
      then [LogInfo ''sync mode %s would have deleted %d trakt history item(s)''
              [ArgMode (Mode (conf S)), ArgD (length batch)] (Some (''history'', batch))]
      else [TraktHistoryRemove batch None])"

text \<open>
  The fetches of the watchlist and of the ratings, on either side; the writes to the
  mirror's history; the history read a trace event stands for.
\<close>

fun isLogInfo :: "event \<Rightarrow> bool" where
  "isLogInfo (LogInfo fmt args attr) = True"
| "isLogInfo e = False"

fun isSecuredFetch :: "event \<Rightarrow> bool" where
  "isSecuredFetch (IMDbWatchlistGet r) = True"
| "isSecuredFetch (TraktWatchlistGet r) = True"
| "isSecuredFetch (IMDbRatingsGet r) = True"
| "isSecuredFetch (TraktRatingsGet r) = True"
| "isSecuredFetch e = False"

fun isHistoryWrite :: "event \<Rightarrow> bool" where
  "isHistoryWrite (TraktHistoryAdd items r) = True"
| "isHistoryWrite (TraktHistoryRemove items r) = True"
| "isHistoryWrite e = False"

fun historyRead :: "event \<Rightarrow> (string \<times> string) option" where
  "historyRead (TraktHistoryGet ty tid r) = Some (ty, tid)"
| "historyRead e = None"

text \<open>
  The remove operations of the mirror client; the diff list sync computes for a source
  list in a state, and the remove call list sync makes for it when the call succeeds.
\<close>

fun isRemoveCall :: "event \<Rightarrow> bool" where
  "isRemoveCall (TraktWatchlistItemsRemove items r) = True"
| "isRemoveCall (TraktListItemsRemove slug items r) = True"
| "isRemoveCall (TraktRatingsRemove items r) = True"
| "isRemoveCall (TraktHistoryRemove items r) = True"
| "isRemoveCall e = False"

definition listDiffAt :: "env \<Rightarrow> 'w run \<Rightarrow> IMDbList \<Rightarrow> Diff" where
  "listDiffAt E st l = ListDiff E l (traktListAt (traktLists (user st)) (ListID l))"

definition listRemoveCall :: "env \<Rightarrow> 'w run \<Rightarrow> IMDbList \<Rightarrow> event" where
  "listRemoveCall E st l =
     (if IsWatchlist l then TraktWatchlistItemsRemove (Remove (listDiffAt E st l)) None
      else TraktListItemsRemove (InferTraktListSlug E (ListName l)) (Remove (listDiffAt E st l)) None)"

text \<open>The create-list calls, the informational log entries and the mirror's list fetch.\<close>

fun isListAdd :: "event \<Rightarrow> bool" where
  "isListAdd (TraktListAdd slug name r) = True"
| "isListAdd e = False"

fun isTraktListsGet :: "event \<Rightarrow> bool" where
  "isTraktListsGet (TraktListsGet metas r) = True"
| "isTraktListsGet e = False"

text \<open>
  The operations of hydration on the two clients, and the order in which the code makes
  them under a configuration: the exports, the lists (source, then mirror), and unless
  \<^verbatim>\<open>authless\<close> the watchlist (source, then mirror) and the ratings (mirror, then source).
\<close>

datatype hydrationOp =
    ExportRatings | ExportLists | ExportWatchlist
  | FetchSourceLists | FetchMirrorLists
  | FetchSourceWatchlist | FetchMirrorWatchlist
  | FetchSourceRatings | FetchMirrorRatings

fun hydrationOpOf :: "event \<Rightarrow> hydrationOp option" where
  "hydrationOpOf (IMDbRatingsExport r) = Some ExportRatings"
| "hydrationOpOf (IMDbListsExport lids r) = Some ExportLists"
| "hydrationOpOf (IMDbWatchlistExport r) = Some ExportWatchlist"
| "hydrationOpOf (IMDbListsGet lids r) = Some FetchSourceLists"
| "hydrationOpOf (TraktListsGet metas r) = Some FetchMirrorLists"
| "hydrationOpOf (IMDbWatchlistGet r) = Some FetchSourceWatchlist"
| "hydrationOpOf (TraktWatchlistGet r) = Some FetchMirrorWatchlist"
| "hydrationOpOf (IMDbRatingsGet r) = Some FetchSourceRatings"
| "hydrationOpOf (TraktRatingsGet r) = Some FetchMirrorRatings"
| "hydrationOpOf e = None"

definition exportOrder :: "'w Syncer \<Rightarrow> hydrationOp list" where
  "exportOrder S =
     (if Ratings (conf S) then [ExportRatings] else [])
     @ (if Lists (conf S) then [ExportLists] else [])
     @ (if Watchlist (conf S) then [ExportWatchlist] else [])"

definition listsOrder :: "'w Syncer \<Rightarrow> hydrationOp list" where
  "listsOrder S = (if Lists (conf S) then [FetchSourceLists, FetchMirrorLists] else [])"




text \<open>
  Further clients: a mirror whose list fetch reports an error that is not the not-found
  signal; a mirror whose ratings hold a season, for which the identity function gives no
  identity and no error; a mirror whose ratings hold an item of a type the identity
  function does not know. \<open>demoMeta\<close> is the correspondence of the source list of
  \<open>demoIMDb\<close>. \<open>precedes a b xs\<close>: some \<open>b\<close> stands after the first \<open>a\<close> of \<open>xs\<close>.
\<close>

definition listsDown ::
  "TraktIDMeta list \<Rightarrow> unit \<Rightarrow> (TraktList list \<times> error list) \<times> unit" where
  "listsDown metas w = (([], [ClientError ''500'']), w)"

definition demoTraktListsDown :: "unit TraktClientInterface" where
  "demoTraktListsDown = demoTrakt\<lparr>trakt_ListsGet := listsDown\<rparr>"

definition season :: TraktItem where
  "season = \<lparr>Type = ''season'', ItemIMDb = [], ItemRating = 9\<rparr>"

definition seasonTrakt :: "unit TraktClientInterface" where
  "seasonTrakt = traktStub [] [] [season, traktMovie ''tt7'' 5] []"

definition person :: TraktItem where
  "person = \<lparr>Type = ''person'', ItemIMDb = ''nm1'', ItemRating = 7\<rparr>"

definition personTrakt :: "unit TraktClientInterface" where
  "personTrakt = traktStub [] [] [traktMovie ''tt7'' 5, person] []"

definition demoList :: IMDbList where
  "demoList = \<lparr>ListID = ''ls1'', ListName = ''Watched 2024'',
                ListItems = [movie ''tt1'' 0, movie ''tt2'' 0], IsWatchlist = False\<rparr>"

definition demoMeta :: TraktIDMeta where
  "demoMeta = \<lparr>IMDb = ''ls1'', Slug = ''Watched-2024'', MetaListName = ''Watched 2024''\<rparr>"


fun isListCall :: "event \<Rightarrow> bool" where
  "isListCall (TraktListsGet metas r) = True"
| "isListCall (TraktListAdd slug name r) = True"
| "isListCall e = False"

text \<open>
  The add operations of list sync on the mirror, and the add call list sync makes for a
  source list when the call succeeds. A map of source ratings is keyed by identity when
  no key stands twice in it and every item stands under its own identity: the map
  \<^verbatim>\<open>hydrate\<close> builds (lines 174-176) from the empty map of \<^verbatim>\<open>NewSyncer\<close>.
\<close>

fun isItemsAddCall :: "event \<Rightarrow> bool" where
  "isItemsAddCall (TraktWatchlistItemsAdd items r) = True"
| "isItemsAddCall (TraktListItemsAdd slug items r) = True"
| "isItemsAddCall e = False"

definition listAddCall :: "env \<Rightarrow> 'w run \<Rightarrow> IMDbList \<Rightarrow> event" where
  "listAddCall E st l =
     (if IsWatchlist l then TraktWatchlistItemsAdd (Add (listDiffAt E st l)) None
      else TraktListItemsAdd (InferTraktListSlug E (ListName l)) (Add (listDiffAt E st l)) None)"

definition keyedByID :: "(string \<times> IMDbItem) list \<Rightarrow> bool" where
  "keyedByID m = (distinct (map fst m) \<and> list_all (\<lambda>kv. ID (snd kv) = fst kv) m)"

text \<open>
  A further run: the source has rated two films, of which the mirror has a history
  entry for the second only, and the mirror has rated a third film, which it has in its
  history; only the ratings and the history are on.
\<close>

definition ratingsOnly :: "SyncMode \<Rightarrow> Sync" where
  "ratingsOnly m = \<lparr>Mode = m, Lists = False, Watchlist = False, Ratings = True, History = True\<rparr>"

definition pairIMDb :: "unit IMDbClientInterface" where
  "pairIMDb =
     imdbStub []
       \<lparr>ListID = ''watchlist'', ListName = ''WATCHLIST'', ListItems = [], IsWatchlist = True\<rparr>
       [movie ''tt1'' 8, movie ''tt2'' 6]"

definition pairTrakt :: "unit TraktClientInterface" where
  "pairTrakt =
     traktStub [] [] [traktMovie ''tt7'' 5]
       [(''tt2'', [WatchedAt ''2023-05-05'']), (''tt7'', [WatchedAt ''2024-01-01''])]"

definition pairSyncer :: "SyncMode \<Rightarrow> unit Syncer" where
  "pairSyncer m = fst (NewSyncer pairIMDb pairTrakt (ratingsOnly m) False [] ())"

definition pairStart :: "unit run" where
  "pairStart = snd (NewSyncer pairIMDb pairTrakt (ratingsOnly SyncModeFull) False [] ())"

definition pairHydrated :: "unit run" where
  "pairHydrated = snd (hydrate specEnv (pairSyncer SyncModeFull) pairStart)"

text \<open>
  The state the demonstration run is in after a hydration in full mode, with credentials
  and without.
\<close>

definition demoFullHydrated :: "unit run" where
  "demoFullHydrated = snd (hydrate specEnv (demoSyncer demoTrakt SyncModeFull) demoStart)"

definition demoAuthlessHydrated :: "unit run" where
  "demoAuthlessHydrated =
     snd (hydrate specEnv ((demoSyncer demoTrakt SyncModeFull)\<lparr>authless := True\<rparr>) demoStart)"

section \<open>Properties\<close>

lemma emittedI: "trace st' = trace st @ T \<Longrightarrow> emitted st st' = T"
  by (simp add: emitted_def)

lemma only_refl [simp]: "only P st st"
  by (simp add: only_def)

lemma only_trace: "only P st st' \<Longrightarrow> trace st' = trace st @ emitted st st'"
  by (auto simp: only_def emitted_def)

lemma only_list_all: "only P st st' \<Longrightarrow> list_all P (emitted st st')"
  by (auto simp: only_def emitted_def)

lemma onlyI: "trace st' = trace st @ T \<Longrightarrow> list_all P T \<Longrightarrow> only P st st'"
  by (auto simp: only_def)

lemma only_trans: "only P st st1 \<Longrightarrow> only P st1 st2 \<Longrightarrow> only P st st2"
  by (auto simp: only_def)

lemma emitted_trans:
  assumes "only P st st1" and "only Q st1 st2"
  shows "emitted st st2 = emitted st st1 @ emitted st1 st2"
proof -
  obtain T1 where t1: "trace st1 = trace st @ T1" using assms(1) by (auto simp: only_def)
  obtain T2 where t2: "trace st2 = trace st1 @ T2" using assms(2) by (auto simp: only_def)
  show ?thesis using t1 t2 by (simp add: emitted_def)
qed

lemma only_mono: "only P st st' \<Longrightarrow> (\<And>e. P e \<Longrightarrow> Q e) \<Longrightarrow> only Q st st'"
  by (auto simp: only_def list_all_iff)

lemma only_True: "only P st st' \<Longrightarrow> only (\<lambda>e. True) st st'"
  by (erule only_mono) simp

lemma only_filter_Nil: "only P st st' \<Longrightarrow> (\<And>e. P e \<Longrightarrow> \<not> Q e) \<Longrightarrow> filter Q (emitted st st') = []"
  by (auto simp: only_def emitted_def list_all_iff filter_empty_conv)

lemma emitted_self [simp]: "emitted st st = []"
  by (simp add: emitted_def)

lemma emitted_emit [simp]: "emitted st (emit e st) = [e]"
  by (simp add: emitted_def emit_def)

lemma invoke_conv:
  "invoke f ev st = (fst (f (world st)), emit (ev (fst (f (world st)))) (st\<lparr>world := snd (f (world st))\<rparr>))"
  by (simp add: invoke_def emit_def split: prod.splits)

lemma emit_fields [simp]:
  "user (emit e st) = user st" "world (emit e st) = world st" "trace (emit e st) = trace st @ [e]"
  by (simp_all add: emit_def)

lemma only_emit_conv: "only P st0 st \<Longrightarrow> only P st0 (emit e st) = P e"
  by (auto simp: only_def emit_def)

lemma emitted_emit_conv: "only P st0 st \<Longrightarrow> emitted st0 (emit e st) = emitted st0 st @ [e]"
  by (auto simp: only_def emit_def emitted_def)

lemma only_user_upd [simp]: "only P st0 (st\<lparr>user := u\<rparr>) = only P st0 st"
  by (simp add: only_def)

lemma only_world_upd [simp]: "only P st0 (st\<lparr>world := w\<rparr>) = only P st0 st"
  by (simp add: only_def)

lemma emitted_upd [simp]:
  "emitted st0 (st\<lparr>user := u\<rparr>) = emitted st0 st" "emitted st0 (st\<lparr>world := w\<rparr>) = emitted st0 st"
  by (simp_all add: emitted_def)

lemma mode_full_conv: "(m \<noteq> SyncModeDryRun \<and> m \<noteq> SyncModeAddOnly) = (m = SyncModeFull)"
  by (cases m) simp_all

lemmas run_simps = invoke_conv only_emit_conv case_prod_beta mode_full_conv

lemma hydrateExport_only:
  assumes "\<And>r. P (IMDbRatingsExport r)" "\<And>r. P (IMDbListsExport lids r)" "\<And>r. P (IMDbWatchlistExport r)"
    and "only P st0 st"
  shows "only P st0 (snd (hydrateExport S lids st))"
  unfolding hydrateExport_def using assms(4)
  by (simp add: assms(1-3) run_simps split: option.splits)

lemma hydrateExport_user: "user (snd (hydrateExport S lids st)) = user st"
  unfolding hydrateExport_def
  by (simp add: run_simps split: option.splits)

lemma hydrateDelegated_only:
  assumes "\<And>a b c. P (LogInfo a b c)"
    "\<And>a b r. Mode (conf S) \<noteq> SyncModeDryRun \<Longrightarrow> P (TraktListAdd a b r)"
  shows "only P st0 st \<Longrightarrow> only P st0 (snd (hydrateDelegated E S metas errs st))"
proof (induction errs arbitrary: st)
  case Nil
  then show ?case by simp
next
  case (Cons e errs)
  then show ?case
    by (simp add: assms run_simps split: option.splits)
qed

lemma hydrateDelegated_user: "user (snd (hydrateDelegated E S metas errs st)) = user st"
  by (induction errs arbitrary: st) (simp_all add: run_simps split: option.splits)

lemma hydrateLists_only:
  assumes "\<And>a b c. P (LogInfo a b c)"
    "\<And>a b r. Mode (conf S) \<noteq> SyncModeDryRun \<Longrightarrow> P (TraktListAdd a b r)"
    "\<And>r. P (IMDbListsGet lids r)" "\<And>m r. P (TraktListsGet m r)"
    and "only P st0 st"
  shows "only P st0 (snd (hydrateLists E S lids st))"
  unfolding hydrateLists_def using assms(5)
  by (simp add: assms(1-4) run_simps hydrateDelegated_only split: option.splits sum.splits)

lemma hydrateWatchlist_only:
  assumes "\<And>r. P (IMDbWatchlistGet r)" "\<And>r. P (TraktWatchlistGet r)"
    and "only P st0 st"
  shows "only P st0 (snd (hydrateWatchlist S st))"
  unfolding hydrateWatchlist_def using assms(3)
  by (simp add: assms(1-2) run_simps split: option.splits sum.splits)

lemma hydrateRatings_only:
  assumes "\<And>r. P (IMDbRatingsGet r)" "\<And>r. P (TraktRatingsGet r)"
    and "only P st0 st"
  shows "only P st0 (snd (hydrateRatings E S st))"
  unfolding hydrateRatings_def using assms(3)
  by (simp add: assms(1-2) run_simps split: option.splits sum.splits)

lemma hydrate_only:
  assumes "\<And>a b c. P (LogInfo a b c)"
    "\<And>a b r. Mode (conf S) \<noteq> SyncModeDryRun \<Longrightarrow> P (TraktListAdd a b r)"
    "\<And>l r. P (IMDbListsGet l r)" "\<And>m r. P (TraktListsGet m r)"
    "\<And>r. P (IMDbRatingsExport r)" "\<And>l r. P (IMDbListsExport l r)" "\<And>r. P (IMDbWatchlistExport r)"
    "\<And>r. P (IMDbWatchlistGet r)" "\<And>r. P (TraktWatchlistGet r)"
    "\<And>r. P (IMDbRatingsGet r)" "\<And>r. P (TraktRatingsGet r)"
    and "only P st0 st"
  shows "only P st0 (snd (hydrate E S st))"
  unfolding hydrate_def using assms(12)
  by (simp add: assms(1-11) case_prod_beta hydrateExport_only hydrateLists_only hydrateWatchlist_only
        hydrateRatings_only split: option.splits)

lemma syncList_only:
  assumes "\<And>a b c. P (LogInfo a b c)"
    "\<And>a r. Mode (conf S) \<noteq> SyncModeDryRun \<Longrightarrow> P (TraktWatchlistItemsAdd a r)"
    "\<And>a r. Mode (conf S) = SyncModeFull \<Longrightarrow> P (TraktWatchlistItemsRemove a r)"
    "\<And>s a r. Mode (conf S) \<noteq> SyncModeDryRun \<Longrightarrow> P (TraktListItemsAdd s a r)"
    "\<And>s a r. Mode (conf S) = SyncModeFull \<Longrightarrow> P (TraktListItemsRemove s a r)"
    and "only P st0 st"
  shows "only P st0 (snd (syncList E S l st))"
  unfolding syncList_def Let_def using assms(6)
  by (simp add: assms(1-5) run_simps split: option.splits)

lemma syncList_user: "user (snd (syncList E S l st)) = user st"
  unfolding syncList_def Let_def
  by (simp add: run_simps split: option.splits)

lemma syncListsLoop_only:
  assumes "\<And>a b c. P (LogInfo a b c)"
    "\<And>a r. Mode (conf S) \<noteq> SyncModeDryRun \<Longrightarrow> P (TraktWatchlistItemsAdd a r)"
    "\<And>a r. Mode (conf S) = SyncModeFull \<Longrightarrow> P (TraktWatchlistItemsRemove a r)"
    "\<And>s a r. Mode (conf S) \<noteq> SyncModeDryRun \<Longrightarrow> P (TraktListItemsAdd s a r)"
    "\<And>s a r. Mode (conf S) = SyncModeFull \<Longrightarrow> P (TraktListItemsRemove s a r)"
  shows "only P st0 st \<Longrightarrow> only P st0 (snd (syncListsLoop E S ls st))"
proof (induction ls arbitrary: st)
  case Nil
  then show ?case by simp
next
  case (Cons l ls)
  have "only P st0 (snd (syncList E S l st))"
    using Cons.prems assms by (intro syncList_only) 
  then show ?case
    by (simp add: case_prod_beta Cons.IH split: option.splits)
qed

lemma syncListsLoop_user: "user (snd (syncListsLoop E S ls st)) = user st"
  by (induction ls arbitrary: st) (simp_all add: case_prod_beta syncList_user split: option.splits)

lemma syncListsSkips_only:
  assumes "\<And>a b c. P (LogInfo a b c)" and "only P st0 st"
  shows "only P st0 (syncListsSkips S st)"
  unfolding syncListsSkips_def Let_def using assms(2)
  by (simp add: assms(1) run_simps)

lemma syncListsSkips_user [simp]: "user (syncListsSkips S st) = user st"
  unfolding syncListsSkips_def Let_def by simp

lemma syncLists_only:
  assumes "\<And>a b c. P (LogInfo a b c)"
    "\<And>a r. Mode (conf S) \<noteq> SyncModeDryRun \<Longrightarrow> P (TraktWatchlistItemsAdd a r)"
    "\<And>a r. Mode (conf S) = SyncModeFull \<Longrightarrow> P (TraktWatchlistItemsRemove a r)"
    "\<And>s a r. Mode (conf S) \<noteq> SyncModeDryRun \<Longrightarrow> P (TraktListItemsAdd s a r)"
    "\<And>s a r. Mode (conf S) = SyncModeFull \<Longrightarrow> P (TraktListItemsRemove s a r)"
    and "only P st0 st"
  shows "only P st0 (snd (syncLists E S st))"
  unfolding syncLists_def using assms(6)
  by (simp add: assms(1-5) syncListsSkips_only syncListsLoop_only)

lemma syncLists_user: "user (snd (syncLists E S st)) = user st"
  unfolding syncLists_def by (simp add: syncListsLoop_user)

lemma ratingsAdd_only:
  assumes "\<And>a b c. P (LogInfo a b c)" "\<And>a r. Mode (conf S) \<noteq> SyncModeDryRun \<Longrightarrow> P (TraktRatingsAdd a r)" and "only P st0 st"
  shows "only P st0 (snd (ratingsAdd S d st))"
  unfolding ratingsAdd_def using assms(3)
  by (simp add: assms(1-2) run_simps split: option.splits)

lemma ratingsRemove_only:
  assumes "\<And>a b c. P (LogInfo a b c)" "\<And>a r. Mode (conf S) = SyncModeFull \<Longrightarrow> P (TraktRatingsRemove a r)" and "only P st0 st"
  shows "only P st0 (snd (ratingsRemove S d st))"
  unfolding ratingsRemove_def using assms(3)
  by (simp add: assms(1-2) run_simps split: option.splits)

lemma syncRatings_only:
  assumes "\<And>a b c. P (LogInfo a b c)" "\<And>a r. Mode (conf S) \<noteq> SyncModeDryRun \<Longrightarrow> P (TraktRatingsAdd a r)" "\<And>a r. Mode (conf S) = SyncModeFull \<Longrightarrow> P (TraktRatingsRemove a r)"
    and "only P st0 st"
  shows "only P st0 (snd (syncRatings E S st))"
  unfolding syncRatings_def using assms(4)
  by (simp add: assms(1-3) run_simps ratingsAdd_only ratingsRemove_only split: option.splits)

lemma syncRatings_user: "user (snd (syncRatings E S st)) = user st"
  unfolding syncRatings_def ratingsAdd_def ratingsRemove_def
  by (simp add: run_simps split: option.splits)

lemma historyBatch_only:
  assumes "\<And>a b r. P (TraktHistoryGet a b r)"
  shows "only P st0 st \<Longrightarrow> only P st0 (snd (historyBatch keep E S items batch st))"
proof (induction items arbitrary: st batch)
  case Nil
  then show ?case by simp
next
  case (Cons x xs)
  then show ?case
    by (simp add: assms run_simps split: option.splits sum.splits)
qed

lemma historyAdd_only:
  assumes "\<And>a b c. P (LogInfo a b c)" "\<And>a r. Mode (conf S) \<noteq> SyncModeDryRun \<Longrightarrow> P (TraktHistoryAdd a r)" and "only P st0 st"
  shows "only P st0 (snd (historyAdd S b st))"
  unfolding historyAdd_def using assms(3)
  by (simp add: assms(1-2) run_simps split: option.splits)

lemma historyRemove_only:
  assumes "\<And>a b c. P (LogInfo a b c)" "\<And>a r. Mode (conf S) = SyncModeFull \<Longrightarrow> P (TraktHistoryRemove a r)" and "only P st0 st"
  shows "only P st0 (snd (historyRemove S b st))"
  unfolding historyRemove_def using assms(3)
  by (simp add: assms(1-2) run_simps split: option.splits)

lemma syncHistoryAdd_only:
  assumes "\<And>a b c. P (LogInfo a b c)" "\<And>a r. Mode (conf S) \<noteq> SyncModeDryRun \<Longrightarrow> P (TraktHistoryAdd a r)" "\<And>a b r. P (TraktHistoryGet a b r)"
    and "only P st0 st"
  shows "only P st0 (snd (syncHistoryAdd E S d st))"
  unfolding syncHistoryAdd_def historyToAdd_def using assms(4)
  by (simp add: assms(1-3) case_prod_beta historyBatch_only historyAdd_only split: option.splits outcome.splits)

lemma syncHistoryRemove_only:
  assumes "\<And>a b c. P (LogInfo a b c)" "\<And>a r. Mode (conf S) = SyncModeFull \<Longrightarrow> P (TraktHistoryRemove a r)" "\<And>a b r. P (TraktHistoryGet a b r)"
    and "only P st0 st"
  shows "only P st0 (snd (syncHistoryRemove E S d st))"
  unfolding syncHistoryRemove_def historyToRemove_def using assms(4)
  by (simp add: assms(1-3) case_prod_beta historyBatch_only historyRemove_only split: option.splits outcome.splits)

lemma syncHistory_only:
  assumes "\<And>a b c. P (LogInfo a b c)" "\<And>a r. Mode (conf S) \<noteq> SyncModeDryRun \<Longrightarrow> P (TraktHistoryAdd a r)" "\<And>a r. Mode (conf S) = SyncModeFull \<Longrightarrow> P (TraktHistoryRemove a r)"
    "\<And>a b r. P (TraktHistoryGet a b r)"
    and "only P st0 st"
  shows "only P st0 (snd (syncHistory E S st))"
  unfolding syncHistory_def using assms(5)
  by (simp add: assms(1-4) run_simps syncHistoryAdd_only syncHistoryRemove_only split: outcome.splits)

lemmas model_defs = NewSyncer_def Sync_def hydrate_def hydrateExport_def hydrateLists_def
      hydrateWatchlist_def hydrateRatings_def syncLists_def syncListsSkips_def syncList_def syncRatings_def
      ratingsAdd_def ratingsRemove_def syncHistory_def syncHistoryAdd_def syncHistoryRemove_def
      historyToAdd_def historyToRemove_def historyAdd_def historyRemove_def invoke_def emit_def
      storeIMDbLists_def storeTraktLists_def storeIMDbRatings_def traktIDMetasOf_def traktListAt_def
      zeroTraktList_def Let_def emitted_def

lemmas fixture_defs = specEnv_def imdbStub_def traktStub_def allOn_def movie_def traktMovie_def
      ItemsDifference_spec_def ListDiff_spec_def keyed_def typedItemID_def dashed_def toTraktItem_def
      demoIMDb_def demoTrakt_def demoSyncer_def demoStart_def demoHydrated_def unavailable_def
      demoTraktNoListItemsAdd_def demoTraktNoRatingsAdd_def
      listsOnly_def twoIMDb_def twoTrakt_def twoSyncer_def twoHydrated_def

lemma map_filter_app: "List.map_filter f (xs @ ys) = List.map_filter f xs @ List.map_filter f ys"
  by (simp add: map_filter_def)

lemma sorted_const: "\<forall>x \<in> set xs. x = (k::nat) \<Longrightarrow> sorted xs"
  by (induction xs) auto

lemma stagesUpTo_step:
  assumes "stagesUpTo k st0 st" and "k \<le> k'" and "only (inStage k') st st'"
  shows "stagesUpTo k' st0 st'"
proof -
  let ?B = "\<lambda>n e. case callStage e of None \<Rightarrow> True | Some j \<Rightarrow> j \<le> n"
  have o1: "only (?B k) st0 st" and s1: "sorted (List.map_filter callStage (emitted st0 st))"
    using assms(1) by (simp_all add: stagesUpTo_def)
  have e: "emitted st0 st' = emitted st0 st @ emitted st st'"
    by (rule emitted_trans[OF o1 assms(3)])
  have a1: "\<forall>x \<in> set (List.map_filter callStage (emitted st0 st)). x \<le> k"
    using only_list_all[OF o1] by (auto simp: map_filter_def list_all_iff split: option.splits)
  have a2: "\<forall>x \<in> set (List.map_filter callStage (emitted st st')). x = k'"
    using only_list_all[OF assms(3)]
    by (auto simp: map_filter_def list_all_iff inStage_def split: option.splits)
  have s2: "sorted (List.map_filter callStage (emitted st st'))"
    using a2 by (rule sorted_const)
  have "only (?B k') st0 st'"
  proof (rule only_trans)
    show "only (?B k') st0 st"
      by (rule only_mono[OF o1]) (use assms(2) in \<open>auto split: option.splits\<close>)
    show "only (?B k') st st'"
      by (rule only_mono[OF assms(3)]) (auto simp: inStage_def split: option.splits)
  qed
  moreover have "sorted (List.map_filter callStage (emitted st0 st'))"
    using s1 s2 a1 a2 assms(2) by (auto simp: e map_filter_app sorted_append)
  ultimately show ?thesis by (simp add: stagesUpTo_def)
qed

lemma stagesUpTo_log:
  assumes "stagesUpTo k st0 st" and "callStage e = None"
  shows "stagesUpTo k st0 (emit e st)"
  by (rule stagesUpTo_step[OF assms(1) order_refl]) (simp add: only_emit_conv inStage_def assms(2))

lemma stagesUpTo_refl: "stagesUpTo k st st"
  by (simp add: stagesUpTo_def)

lemma hydrate_stage: "only (inStage 0) st (snd (hydrate E S st))"
  by (rule hydrate_only) (simp_all add: inStage_def)

lemma syncLists_stage: "only (inStage 1) st (snd (syncLists E S st))"
  by (rule syncLists_only) (simp_all add: inStage_def)

lemma syncRatings_stage: "only (inStage 2) st (snd (syncRatings E S st))"
  by (rule syncRatings_only) (simp_all add: inStage_def)

lemma syncHistory_stage: "only (inStage 3) st (snd (syncHistory E S st))"
  by (rule syncHistory_only) (simp_all add: inStage_def)

lemma Sync_stagesUpTo: "stagesUpTo 3 st (snd (Sync E S st))"
proof -
  let ?st0 = "emit (LogInfo ''sync started'' [] None) st"
  let ?st1 = "snd (hydrate E S ?st0)"
  let ?st2 = "snd (syncLists E S ?st1)"
  let ?st3 = "snd (syncRatings E S ?st2)"
  let ?st4 = "snd (syncHistory E S ?st3)"
  have u0: "stagesUpTo 0 st ?st0" by (rule stagesUpTo_log[OF stagesUpTo_refl]) simp
  have u1: "stagesUpTo 0 st ?st1" by (rule stagesUpTo_step[OF u0 order_refl hydrate_stage])
  have u2: "stagesUpTo 1 st ?st2" by (rule stagesUpTo_step[OF u1 _ syncLists_stage]) simp
  have u3: "stagesUpTo 2 st ?st3" by (rule stagesUpTo_step[OF u2 _ syncRatings_stage]) simp
  have u4: "stagesUpTo 3 st ?st4" by (rule stagesUpTo_step[OF u3 _ syncHistory_stage]) simp
  have w: "\<And>k st'. k \<le> 3 \<Longrightarrow> stagesUpTo k st st' \<Longrightarrow> stagesUpTo 3 st st'"
    using stagesUpTo_step[OF _ _ only_refl] by blast
  have l: "\<And>k st' m err. k \<le> 3 \<Longrightarrow> stagesUpTo k st st' \<Longrightarrow> stagesUpTo 3 st (emit (LogError m err) st')"
    by (rule stagesUpTo_log[OF w]) simp_all
  have l': "stagesUpTo 3 st (emit (LogInfo ''sync completed'' [] None) ?st4)"
    by (rule stagesUpTo_log[OF u4]) simp
  show ?thesis
    unfolding Sync_def
    by (simp add: case_prod_beta l[OF _ u1] l[OF _ u2] l[OF _ u3] l[OF _ u4] l' u4
          split: option.splits outcome.splits)
qed

text \<open>
  C9: a run executes hydrate, then list sync, then ratings sync, then history sync, each
  on the state the stage before left. The first stage that returns an error ends the run:
  the run's result is that error, and its final state is the state of the failing stage
  with the error logged, so no later stage has run. The calls on the clients stand in
  the trace in the order of their stages.
\<close>

theorem Sync_stage_order:
  "(hydrate E S (emit (LogInfo ''sync started'' [] None) st) = (Some e, st1) \<longrightarrow>
      Sync E S st = (Err e, emit (LogError ''failure hydrating imdb client'' e) st1))
   \<and> (hydrate E S (emit (LogInfo ''sync started'' [] None) st) = (None, st1) \<and>
      syncLists E S st1 = (Some e, st2) \<longrightarrow>
      Sync E S st = (Err e, emit (LogError ''failure syncing lists'' e) st2))
   \<and> (hydrate E S (emit (LogInfo ''sync started'' [] None) st) = (None, st1) \<and>
      syncLists E S st1 = (None, st2) \<and> syncRatings E S st2 = (Some e, st3) \<longrightarrow>
      Sync E S st = (Err e, emit (LogError ''failure syncing ratings'' e) st3))
   \<and> (hydrate E S (emit (LogInfo ''sync started'' [] None) st) = (None, st1) \<and>
      syncLists E S st1 = (None, st2) \<and> syncRatings E S st2 = (None, st3) \<and>
      syncHistory E S st3 = (Err e, st4) \<longrightarrow>
      Sync E S st = (Err e, emit (LogError ''failure syncing history'' e) st4))
   \<and> (hydrate E S (emit (LogInfo ''sync started'' [] None) st) = (None, st1) \<and>
      syncLists E S st1 = (None, st2) \<and> syncRatings E S st2 = (None, st3) \<and>
      syncHistory E S st3 = (Ok (), st4) \<longrightarrow>
      Sync E S st = (Ok (), emit (LogInfo ''sync completed'' [] None) st4))
   \<and> sorted (List.map_filter callStage (emitted st (snd (Sync E S st))))"
  using Sync_stagesUpTo[of st E S] by (simp add: Sync_def stagesUpTo_def)

lemma historyBatch_Ok:
  "historyBatch keep E S items batch st = (Ok b, st') \<Longrightarrow>
     \<exists>rs. length rs = length items
        \<and> emitted st st' = map historyGetOf (zip items rs)
        \<and> list_all (\<lambda>xr. GetItemID E (fst xr) = Inr (Some (fst (snd xr)))) (zip items rs)
        \<and> b = batch @ map fst (filter (\<lambda>xr. keep (snd (snd xr))) (zip items rs))"
proof (induction items arbitrary: batch st)
  case Nil
  then show ?case by simp
next
  case (Cons x xs)
  from Cons.prems obtain tid where tid: "GetItemID E x = Inr (Some tid)"
    by (auto split: sum.splits option.splits)
  let ?f = "trakt_HistoryGet (traktClient S) (Type x) tid"
  let ?st1 = "emit (TraktHistoryGet (Type x) tid (fst (?f (world st)))) (st\<lparr>world := snd (?f (world st))\<rparr>)"
  from Cons.prems tid obtain h where h: "fst (?f (world st)) = Inr h"
    by (auto simp: run_simps split: sum.splits)
  have rec: "historyBatch keep E S xs (if keep h then batch @ [x] else batch) ?st1 = (Ok b, st')"
    using Cons.prems tid h by (simp add: run_simps)
  from Cons.IH[OF rec] obtain rs where rs: "length rs = length xs"
      "emitted ?st1 st' = map historyGetOf (zip xs rs)"
      "list_all (\<lambda>xr. GetItemID E (fst xr) = Inr (Some (fst (snd xr)))) (zip xs rs)"
      "b = (if keep h then batch @ [x] else batch) @ map fst (filter (\<lambda>xr. keep (snd (snd xr))) (zip xs rs))"
    by blast
  have o1: "only (\<lambda>e. True) st ?st1" by (simp add: only_emit_conv)
  have o2: "only (\<lambda>e. True) ?st1 st'"
    using historyBatch_only[of "\<lambda>e. True" ?st1 ?st1 keep E S xs "if keep h then batch @ [x] else batch"] rec
    by simp
  have em: "emitted st st' = TraktHistoryGet (Type x) tid (Inr h) # map historyGetOf (zip xs rs)"
    using emitted_trans[OF o1 o2] rs(2) h by (simp add: emitted_emit_conv)
  show ?case
    by (rule exI[of _ "(tid, h) # rs"]) (simp add: rs em tid historyGetOf_def)
qed

lemma syncHistoryAdd_Ok:
  assumes "syncHistoryAdd E S diff st = (Ok (), st')"
  shows "\<exists>rs. length rs = length (Add diff)
        \<and> list_all (\<lambda>xr. GetItemID E (fst xr) = Inr (Some (fst (snd xr)))) (zip (Add diff) rs)
        \<and> emitted st st' = map historyGetOf (zip (Add diff) rs)
             @ gateHistoryAdd S (map fst (filter (\<lambda>xr. snd (snd xr) = []) (zip (Add diff) rs)))"
proof (cases "Add diff = []")
  case True
  then show ?thesis using assms by (simp add: syncHistoryAdd_def gateHistoryAdd_def)
next
  case False
  obtain ob st1 where hb: "historyBatch (\<lambda>h. h = []) E S (Add diff) [] st = (ob, st1)"
    by (cases "historyBatch (\<lambda>h. h = []) E S (Add diff) [] st")
  from assms False hb obtain b where b: "ob = Ok b"
    by (cases ob) (simp_all add: syncHistoryAdd_def historyToAdd_def)
  from historyBatch_Ok[OF hb[unfolded b]] obtain rs where rs: "length rs = length (Add diff)"
      "emitted st st1 = map historyGetOf (zip (Add diff) rs)"
      "list_all (\<lambda>xr. GetItemID E (fst xr) = Inr (Some (fst (snd xr)))) (zip (Add diff) rs)"
      "b = map fst (filter (\<lambda>xr. snd (snd xr) = []) (zip (Add diff) rs))"
    by auto
  have o1: "only (\<lambda>e. True) st st1"
    using historyBatch_only[of "\<lambda>e. True" st st "\<lambda>h. h = []" E S "Add diff" "[]"] hb by simp
  have ha: "historyAdd S b st1 = (None, st')"
    using assms False hb b by (simp add: syncHistoryAdd_def historyToAdd_def split: option.splits prod.splits)
  have o2: "only (\<lambda>e. True) st1 st'"
    using historyAdd_only[where P="\<lambda>e. True" and ?st0.0=st1 and st=st1 and S=S and b=b] ha by simp
  have e2: "emitted st1 st' = gateHistoryAdd S b"
    using ha by (auto simp: historyAdd_def gateHistoryAdd_def run_simps emitted_emit_conv
        split: if_splits option.splits)
  show ?thesis
    by (rule exI[of _ rs]) (simp add: rs(1,3) emitted_trans[OF o1 o2] rs(2) e2 rs(4)[symmetric])
qed

lemma syncHistoryRemove_Ok:
  assumes "syncHistoryRemove E S diff st = (Ok (), st')"
  shows "\<exists>rs. length rs = length (Remove diff)
        \<and> list_all (\<lambda>xr. GetItemID E (fst xr) = Inr (Some (fst (snd xr)))) (zip (Remove diff) rs)
        \<and> emitted st st' = map historyGetOf (zip (Remove diff) rs)
             @ gateHistoryRemove S (map fst (filter (\<lambda>xr. snd (snd xr) \<noteq> []) (zip (Remove diff) rs)))
        \<and> fst (historyToRemove E S (Remove diff) st)
             = Ok (map fst (filter (\<lambda>xr. snd (snd xr) \<noteq> []) (zip (Remove diff) rs)))"
proof (cases "Remove diff = []")
  case True
  then show ?thesis using assms by (simp add: syncHistoryRemove_def gateHistoryRemove_def historyToRemove_def)
next
  case False
  obtain ob st1 where hb: "historyBatch (\<lambda>h. h \<noteq> []) E S (Remove diff) [] st = (ob, st1)"
    by (cases "historyBatch (\<lambda>h. h \<noteq> []) E S (Remove diff) [] st")
  from assms False hb obtain b where b: "ob = Ok b"
    by (cases ob) (simp_all add: syncHistoryRemove_def historyToRemove_def)
  from historyBatch_Ok[OF hb[unfolded b]] obtain rs where rs: "length rs = length (Remove diff)"
      "emitted st st1 = map historyGetOf (zip (Remove diff) rs)"
      "list_all (\<lambda>xr. GetItemID E (fst xr) = Inr (Some (fst (snd xr)))) (zip (Remove diff) rs)"
      "b = map fst (filter (\<lambda>xr. snd (snd xr) \<noteq> []) (zip (Remove diff) rs))"
    by auto
  have o1: "only (\<lambda>e. True) st st1"
    using historyBatch_only[of "\<lambda>e. True" st st "\<lambda>h. h \<noteq> []" E S "Remove diff" "[]"] hb by simp
  have ha: "historyRemove S b st1 = (None, st')"
    using assms False hb b by (simp add: syncHistoryRemove_def historyToRemove_def split: option.splits prod.splits)
  have o2: "only (\<lambda>e. True) st1 st'"
    using historyRemove_only[where P="\<lambda>e. True" and ?st0.0=st1 and st=st1 and S=S and b=b] ha by simp
  have e2: "emitted st1 st' = gateHistoryRemove S b"
    using ha by (auto simp: historyRemove_def gateHistoryRemove_def run_simps emitted_emit_conv
        split: if_splits option.splits)
  show ?thesis
    by (rule exI[of _ rs])
       (simp add: rs(1,3) emitted_trans[OF o1 o2] rs(2) e2 rs(4)[symmetric] historyToRemove_def hb b)
qed

lemma count_list_distinct: "distinct xs \<Longrightarrow> count_list xs x = (if x \<in> set xs then 1 else 0)"
  by (induction xs) auto

lemma zip_filter_count:
  assumes "distinct xs" and "length rs = length xs" and "i < length xs"
  shows "count_list (map fst (filter Q (zip xs rs))) (xs ! i) = (if Q (xs ! i, rs ! i) then 1 else 0)"
proof -
  have d: "distinct (map fst (filter Q (zip xs rs)))"
    using assms(1,2) by (simp add: distinct_map_filter)
  have m: "(xs ! i \<in> set (map fst (filter Q (zip xs rs)))) = Q (xs ! i, rs ! i)"
  proof
    assume "xs ! i \<in> set (map fst (filter Q (zip xs rs)))"
    then obtain r where r: "(xs ! i, r) \<in> set (zip xs rs)" "Q (xs ! i, r)" by auto
    then obtain j where j: "j < length xs" "xs ! j = xs ! i" "rs ! j = r"
      using assms(2) by (auto simp: set_zip)
    then have "j = i" using assms(1,3) by (simp add: nth_eq_iff_index_eq)
    then show "Q (xs ! i, rs ! i)" using r j by simp
  next
    assume q: "Q (xs ! i, rs ! i)"
    have "(xs ! i, rs ! i) \<in> set (zip xs rs)"
      using assms(2,3) by (auto simp: set_zip)
    then show "xs ! i \<in> set (map fst (filter Q (zip xs rs)))" using q by force
  qed
  show ?thesis by (simp only: count_list_distinct[OF d] m)
qed

lemma Syncer_authless_fields:
  "traktClient (S\<lparr>authless := b\<rparr>) = traktClient S"
  "imdbClient (S\<lparr>authless := b\<rparr>) = imdbClient S"
  "conf (S\<lparr>authless := b\<rparr>) = conf S"
  by simp_all

lemma hydrateDelegated_authless:
  "hydrateDelegated E (S\<lparr>authless := b\<rparr>) metas errs st = hydrateDelegated E S metas errs st"
  by (induction errs arbitrary: st) (simp_all add: case_prod_beta split: option.splits)

lemma hydrateLists_authless: "hydrateLists E (S\<lparr>authless := b\<rparr>) lids st = hydrateLists E S lids st"
  unfolding hydrateLists_def hydrateDelegated_authless Syncer_authless_fields ..

lemma hydrateExport_authless: "hydrateExport (S\<lparr>authless := b\<rparr>) lids st = hydrateExport S lids st"
  unfolding hydrateExport_def Syncer_authless_fields ..

lemma hydrate_authless:
  "hydrate E (S\<lparr>authless := True\<rparr>) st =
     (case hydrateExport S (rangeLids E (imdbLists (user st))) st of
        (Some err, st1) \<Rightarrow> (Some err, st1)
      | (None, st1) \<Rightarrow> hydrateLists E S (rangeLids E (imdbLists (user st))) st1)"
  by (simp add: hydrate_def hydrateExport_authless hydrateLists_authless case_prod_beta prod_eq_iff
        split: option.splits)

lemma syncList_authless: "syncList E (S\<lparr>authless := b\<rparr>) l st = syncList E S l st"
  unfolding syncList_def Syncer_authless_fields ..

lemma syncListsLoop_authless: "syncListsLoop E (S\<lparr>authless := b\<rparr>) ls st = syncListsLoop E S ls st"
  by (induction ls arbitrary: st) (simp_all add: syncList_authless case_prod_beta split: option.splits)

lemma syncLists_authless: "syncLists E (S\<lparr>authless := b\<rparr>) st = syncLists E S st"
  by (simp add: syncLists_def syncListsSkips_def syncListsLoop_authless)

lemma hydrate_authless_only:
  assumes "\<And>a b c. P (LogInfo a b c)" "\<And>a b r. P (TraktListAdd a b r)"
    "\<And>l r. P (IMDbListsGet l r)" "\<And>m r. P (TraktListsGet m r)"
    "\<And>r. P (IMDbRatingsExport r)" "\<And>l r. P (IMDbListsExport l r)" "\<And>r. P (IMDbWatchlistExport r)"
  shows "only P st (snd (hydrate E (S\<lparr>authless := True\<rparr>) st))"
  unfolding hydrate_authless
  by (simp add: assms case_prod_beta hydrateExport_only hydrateLists_only split: option.splits)

lemma reads_of_zip:
  "length rs = length xs \<Longrightarrow>
     List.map_filter historyRead (map historyGetOf (zip xs rs)) = zip (map Type xs) (map fst rs)"
  by (induction xs rs rule: list_induct2') (simp_all add: historyGetOf_def)

lemma ids_of_zip:
  "length rs = length xs \<Longrightarrow>
     list_all (\<lambda>xr. g (fst xr) = Inr (Some (fst (snd xr)))) (zip xs rs) \<Longrightarrow>
     map g xs = map (\<lambda>t. Inr (Some t)) (map fst rs)"
  by (induction xs rs rule: list_induct2') simp_all

lemma emitted_emit_nest [simp]:
  "emitted st (emit e (st\<lparr>world := w\<rparr>)) = [e]"
  "emitted st (emit e2 (emit e1 (st\<lparr>world := w1\<rparr>)\<lparr>world := w2\<rparr>)) = [e1, e2]"
  by (simp_all add: emitted_def emit_def)

lemma syncList_full:
  assumes "Mode (conf S) = SyncModeFull" and "fst (syncList E S l st) = None"
  shows "filter isRemoveCall (emitted st (snd (syncList E S l st)))
           = (if Remove (listDiffAt E st l) \<noteq> [] then [listRemoveCall E st l] else [])"
  using assms unfolding syncList_def Let_def listDiffAt_def listRemoveCall_def
  by (simp add: invoke_conv case_prod_beta split: option.splits if_splits)

lemma listDiffAt_user: "user st1 = user st \<Longrightarrow> listDiffAt E st1 = listDiffAt E st"
  by (simp add: listDiffAt_def fun_eq_iff)

lemma listRemoveCall_user: "user st1 = user st \<Longrightarrow> listRemoveCall E st1 = listRemoveCall E st"
  by (simp add: listRemoveCall_def listDiffAt_def fun_eq_iff)

lemma syncList_any: "only (\<lambda>e. True) st (snd (syncList E S l st))"
  by (rule syncList_only) simp_all

lemma syncListsLoop_any: "only (\<lambda>e. True) st (snd (syncListsLoop E S ls st))"
  by (rule syncListsLoop_only) simp_all

lemma syncListsLoop_full:
  assumes "Mode (conf S) = SyncModeFull"
  shows "fst (syncListsLoop E S ls st) = None \<Longrightarrow>
         filter isRemoveCall (emitted st (snd (syncListsLoop E S ls st)))
           = map (listRemoveCall E st) (filter (\<lambda>l. Remove (listDiffAt E st l) \<noteq> []) ls)"
proof (induction ls arbitrary: st)
  case Nil
  then show ?case by simp
next
  case (Cons l ls)
  let ?st1 = "snd (syncList E S l st)"
  have f1: "fst (syncList E S l st) = None"
    using Cons.prems by (simp add: case_prod_beta split: option.splits)
  have rest: "syncListsLoop E S (l # ls) st = syncListsLoop E S ls ?st1"
    using f1 by (simp add: case_prod_beta)
  have f2: "fst (syncListsLoop E S ls ?st1) = None" using Cons.prems by (simp only: rest)
  have u: "user ?st1 = user st" by (rule syncList_user)
  have em: "emitted st (snd (syncListsLoop E S ls ?st1))
              = emitted st ?st1 @ emitted ?st1 (snd (syncListsLoop E S ls ?st1))"
    by (rule emitted_trans[OF syncList_any syncListsLoop_any])
  show ?case
    unfolding rest em
    by (simp add: syncList_full[OF assms f1] Cons.IH[OF f2] listDiffAt_user[OF u] listRemoveCall_user[OF u])
qed

lemma syncLists_full:
  assumes "Mode (conf S) = SyncModeFull" and "Watchlist (conf S) \<or> Lists (conf S)"
    and "fst (syncLists E S st) = None"
  shows "filter isRemoveCall (emitted st (snd (syncLists E S st)))
           = map (listRemoveCall E st)
               (filter (\<lambda>l. Remove (listDiffAt E st l) \<noteq> []) (rangeLists E (imdbLists (user st))))"
proof -
  let ?st0 = "syncListsSkips S st"
  have u: "user ?st0 = user st" by simp
  have o0: "only (\<lambda>e. \<not> isRemoveCall e) st ?st0"
    by (rule syncListsSkips_only) simp_all
  have s: "syncLists E S st = syncListsLoop E S (rangeLists E (imdbLists (user st))) ?st0"
    using assms(2) by (auto simp: syncLists_def)
  have em: "emitted st (snd (syncLists E S st))
              = emitted st ?st0 @ emitted ?st0 (snd (syncListsLoop E S (rangeLists E (imdbLists (user st))) ?st0))"
    unfolding s by (rule emitted_trans[OF o0 syncListsLoop_any])
  have f: "fst (syncListsLoop E S (rangeLists E (imdbLists (user st))) ?st0) = None"
    using assms(3) s by simp
  show ?thesis
    unfolding em
    by (simp add: only_filter_Nil[OF o0] syncListsLoop_full[OF assms(1) f]
          listDiffAt_user[OF u] listRemoveCall_user[OF u])
qed

lemma syncRatings_full:
  assumes "Mode (conf S) = SyncModeFull" and "\<not> authless S" and "Ratings (conf S)"
    and "fst (syncRatings E S st) = None"
  shows "filter isRemoveCall (emitted st (snd (syncRatings E S st)))
           = (if Remove (ItemsDifference E (imdbRatings (user st)) (traktRatings (user st))) \<noteq> []
              then [TraktRatingsRemove
                      (Remove (ItemsDifference E (imdbRatings (user st)) (traktRatings (user st)))) None]
              else [])"
  using assms unfolding syncRatings_def ratingsAdd_def ratingsRemove_def
  by (simp add: invoke_conv case_prod_beta split: option.splits if_splits)

lemma syncHistory_full:
  assumes "Mode (conf S) = SyncModeFull" and "\<not> authless S" and "History (conf S)"
    and "fst (syncHistory E S st) = Ok ()"
  shows "\<exists>batch.
           fst (historyToRemove E S
                  (Remove (ItemsDifference E (imdbRatings (user st)) (traktRatings (user st))))
                  (snd (syncHistoryAdd E S
                          (ItemsDifference E (imdbRatings (user st)) (traktRatings (user st))) st)))
             = Ok batch
         \<and> filter isRemoveCall (emitted st (snd (syncHistory E S st)))
             = (if batch \<noteq> [] then [TraktHistoryRemove batch None] else [])"
proof -
  let ?d = "ItemsDifference E (imdbRatings (user st)) (traktRatings (user st))"
  obtain o1 st1 where a0: "syncHistoryAdd E S ?d st = (o1, st1)"
    by (cases "syncHistoryAdd E S ?d st")
  have "o1 = Ok ()" using assms a0 by (cases o1) (simp_all add: syncHistory_def)
  then have a1: "syncHistoryAdd E S ?d st = (Ok (), st1)" using a0 by simp
  have s2: "syncHistory E S st = syncHistoryRemove E S ?d st1"
    using assms a1 by (simp add: syncHistory_def)
  obtain st2 where a2: "syncHistoryRemove E S ?d st1 = (Ok (), st2)"
    using assms(4) s2 by (cases "syncHistoryRemove E S ?d st1") simp
  from syncHistoryRemove_Ok[OF a2] obtain rs where rs:
      "emitted st1 st2 = map historyGetOf (zip (Remove ?d) rs)
             @ gateHistoryRemove S (map fst (filter (\<lambda>xr. snd (snd xr) \<noteq> []) (zip (Remove ?d) rs)))"
      "fst (historyToRemove E S (Remove ?d) st1)
             = Ok (map fst (filter (\<lambda>xr. snd (snd xr) \<noteq> []) (zip (Remove ?d) rs)))"
    by blast
  let ?b = "map fst (filter (\<lambda>xr. snd (snd xr) \<noteq> []) (zip (Remove ?d) rs))"
  have o1: "only (\<lambda>e. \<not> isRemoveCall e) st st1"
    using syncHistoryAdd_only[where P="\<lambda>e. \<not> isRemoveCall e" and ?st0.0=st and st=st and E=E and S=S and d="?d"] a1
    by simp
  have o2: "only (\<lambda>e. True) st1 st2"
    using syncHistoryRemove_only[where P="\<lambda>e. True" and ?st0.0=st1 and st=st1 and E=E and S=S and d="?d"] a2
    by simp
  have em: "emitted st (snd (syncHistory E S st)) = emitted st st1 @ emitted st1 st2"
    using emitted_trans[OF o1 o2] s2 a2 by simp
  have g: "filter isRemoveCall (map historyGetOf (zip (Remove ?d) rs)) = []"
    by (simp add: filter_empty_conv historyGetOf_def)
  have "filter isRemoveCall (emitted st (snd (syncHistory E S st)))
          = (if ?b \<noteq> [] then [TraktHistoryRemove ?b None] else [])"
    unfolding em rs(1)
    using assms(1) by (simp add: only_filter_Nil[OF o1] g gateHistoryRemove_def)
  then show ?thesis using rs(2) a1 by (intro exI[of _ ?b]) simp
qed

lemma Sync_gate_off:
  assumes "Mode (conf S) \<noteq> SyncModeFull"
  shows "filter isRemoveCall (emitted st (snd (Sync E S st))) = []"
proof -
  let ?P = "\<lambda>e. \<not> isRemoveCall e"
  let ?st0 = "emit (LogInfo ''sync started'' [] None) st"
  let ?st1 = "snd (hydrate E S ?st0)"
  let ?st2 = "snd (syncLists E S ?st1)"
  let ?st3 = "snd (syncRatings E S ?st2)"
  let ?st4 = "snd (syncHistory E S ?st3)"
  have p0: "only ?P st ?st0" by (simp add: only_emit_conv)
  have p1: "only ?P st ?st1" by (rule hydrate_only[OF _ _ _ _ _ _ _ _ _ _ _ p0]) simp_all
  have p2: "only ?P st ?st2" by (rule syncLists_only[OF _ _ _ _ _ p1]) (simp_all add: assms)
  have p3: "only ?P st ?st3" by (rule syncRatings_only[OF _ _ _ p2]) (simp_all add: assms)
  have p4: "only ?P st ?st4" by (rule syncHistory_only[OF _ _ _ _ p3]) (simp_all add: assms)
  have "only ?P st (snd (Sync E S st))"
    unfolding Sync_def
    by (simp add: case_prod_beta only_emit_conv p1 p2 p3 p4 split: option.splits outcome.splits)
  then show ?thesis by (rule only_filter_Nil) simp
qed

text \<open>
  C1, as amended: in dry-run and add-only mode no stage of a run invokes a remove
  operation of the mirror client. In full mode, for a stage that returns without an
  error: list sync invokes the remove operation once for each list it visits whose
  Remove set is not empty (ListItemsRemove for a named list, WatchlistItemsRemove for the
  watchlist) and for no other list; ratings sync invokes RatingsRemove once if the
  Remove set of the ratings diff is not empty; history sync invokes HistoryRemove once if
  the batch of Remove items that have history entries is not empty, and not otherwise.
\<close>

theorem mode_gate_remove:
  "(Mode (conf S) \<noteq> SyncModeFull \<longrightarrow> filter isRemoveCall (emitted st (snd (Sync E S st))) = [])
   \<and> (Mode (conf S) = SyncModeFull \<and> (Watchlist (conf S) \<or> Lists (conf S))
        \<and> fst (syncLists E S st) = None \<longrightarrow>
      filter isRemoveCall (emitted st (snd (syncLists E S st)))
        = map (listRemoveCall E st)
            (filter (\<lambda>l. Remove (listDiffAt E st l) \<noteq> []) (rangeLists E (imdbLists (user st)))))
   \<and> (Mode (conf S) = SyncModeFull \<and> \<not> authless S \<and> Ratings (conf S)
        \<and> fst (syncRatings E S st) = None \<longrightarrow>
      filter isRemoveCall (emitted st (snd (syncRatings E S st)))
        = (if Remove (ItemsDifference E (imdbRatings (user st)) (traktRatings (user st))) \<noteq> []
           then [TraktRatingsRemove
                   (Remove (ItemsDifference E (imdbRatings (user st)) (traktRatings (user st)))) None]
           else []))
   \<and> (Mode (conf S) = SyncModeFull \<and> \<not> authless S \<and> History (conf S)
        \<and> fst (syncHistory E S st) = Ok () \<longrightarrow>
      (\<exists>batch.
         fst (historyToRemove E S
                (Remove (ItemsDifference E (imdbRatings (user st)) (traktRatings (user st))))
                (snd (syncHistoryAdd E S
                        (ItemsDifference E (imdbRatings (user st)) (traktRatings (user st))) st)))
           = Ok batch
       \<and> filter isRemoveCall (emitted st (snd (syncHistory E S st)))
           = (if batch \<noteq> [] then [TraktHistoryRemove batch None] else [])))"
proof (intro conjI impI)
  assume "Mode (conf S) \<noteq> SyncModeFull"
  then show "filter isRemoveCall (emitted st (snd (Sync E S st))) = []"
    by (rule Sync_gate_off)
next
  assume "Mode (conf S) = SyncModeFull \<and> (Watchlist (conf S) \<or> Lists (conf S))
        \<and> fst (syncLists E S st) = None"
  then show "filter isRemoveCall (emitted st (snd (syncLists E S st)))
        = map (listRemoveCall E st)
            (filter (\<lambda>l. Remove (listDiffAt E st l) \<noteq> []) (rangeLists E (imdbLists (user st))))"
    using syncLists_full[of S E st] by simp
next
  assume "Mode (conf S) = SyncModeFull \<and> \<not> authless S \<and> Ratings (conf S)
        \<and> fst (syncRatings E S st) = None"
  then show "filter isRemoveCall (emitted st (snd (syncRatings E S st)))
        = (if Remove (ItemsDifference E (imdbRatings (user st)) (traktRatings (user st))) \<noteq> []
           then [TraktRatingsRemove
                   (Remove (ItemsDifference E (imdbRatings (user st)) (traktRatings (user st)))) None]
           else [])"
    using syncRatings_full[of S E st] by simp
next
  assume "Mode (conf S) = SyncModeFull \<and> \<not> authless S \<and> History (conf S)
        \<and> fst (syncHistory E S st) = Ok ()"
  then show "\<exists>batch.
         fst (historyToRemove E S
                (Remove (ItemsDifference E (imdbRatings (user st)) (traktRatings (user st))))
                (snd (syncHistoryAdd E S
                        (ItemsDifference E (imdbRatings (user st)) (traktRatings (user st))) st)))
           = Ok batch
       \<and> filter isRemoveCall (emitted st (snd (syncHistory E S st)))
           = (if batch \<noteq> [] then [TraktHistoryRemove batch None] else [])"
    using syncHistory_full[of S E st] by simp
qed

theorem Sync_stage_order_witness:
  "hydrate specEnv
       (demoSyncer demoTraktNoListItemsAdd SyncModeFull)
       (emit (LogInfo ''sync started'' [] None) demoStart)
     = (None, snd (hydrate specEnv
       (demoSyncer demoTraktNoListItemsAdd SyncModeFull)
       (emit (LogInfo ''sync started'' [] None) demoStart)))
   \<and> fst (Sync specEnv
       (demoSyncer demoTraktNoListItemsAdd SyncModeFull)
       demoStart)
     = Err (Errorf ''failure adding items to trakt list Watched-2024'' (ClientError ''503''))
   \<and> List.map_filter callStage (trace (snd (Sync specEnv
       (demoSyncer demoTraktNoListItemsAdd SyncModeFull)
       demoStart)))
     = [0, 0, 0, 0, 0, 0, 0, 0, 0, 0, 1]
   \<and> Sync specEnv (demoSyncer demoTrakt SyncModeFull) demoStart
     = (Ok (), emit (LogInfo ''sync completed'' [] None)
         (snd (syncHistory specEnv (demoSyncer demoTrakt SyncModeFull)
           (snd (syncRatings specEnv (demoSyncer demoTrakt SyncModeFull)
             (snd (syncLists specEnv (demoSyncer demoTrakt SyncModeFull)
               (snd (hydrate specEnv (demoSyncer demoTrakt SyncModeFull)
                 (emit (LogInfo ''sync started'' [] None) demoStart))))))))))"
proof -
  let ?S = "demoSyncer demoTraktNoListItemsAdd SyncModeFull"
  let ?e = "Errorf ''failure adding items to trakt list Watched-2024'' (ClientError ''503'')"
  let ?st0 = "emit (LogInfo ''sync started'' [] None) demoStart"
  let ?st1 = "snd (hydrate specEnv ?S ?st0)"
  let ?st2 = "snd (syncLists specEnv ?S ?st1)"
  have h1: "hydrate specEnv ?S ?st0 = (None, ?st1)"
    by (simp add: prod_eq_iff model_defs fixture_defs)
  have h2: "syncLists specEnv ?S ?st1 = (Some ?e, ?st2)"
    by (simp add: prod_eq_iff model_defs fixture_defs)
  have c1: "Sync specEnv ?S demoStart = (Err ?e, emit (LogError ''failure syncing lists'' ?e) ?st2)"
    using Sync_stage_order[of specEnv ?S demoStart ?e ?st1 ?st2] h1 h2 by blast
  have c2: "List.map_filter callStage (trace (snd (Sync specEnv ?S demoStart))) = [0, 0, 0, 0, 0, 0, 0, 0, 0, 0, 1]"
    by (simp add: model_defs fixture_defs)
  let ?T = "demoSyncer demoTrakt SyncModeFull"
  let ?t1 = "snd (hydrate specEnv ?T ?st0)"
  let ?t2 = "snd (syncLists specEnv ?T ?t1)"
  let ?t3 = "snd (syncRatings specEnv ?T ?t2)"
  let ?t4 = "snd (syncHistory specEnv ?T ?t3)"
  have k1: "hydrate specEnv ?T ?st0 = (None, ?t1)"
    by (simp add: prod_eq_iff model_defs fixture_defs)
  have k2: "syncLists specEnv ?T ?t1 = (None, ?t2)"
    by (simp add: prod_eq_iff model_defs fixture_defs)
  have k3: "syncRatings specEnv ?T ?t2 = (None, ?t3)"
    by (simp add: prod_eq_iff model_defs fixture_defs)
  have k4: "syncHistory specEnv ?T ?t3 = (Ok (), ?t4)"
    by (simp add: prod_eq_iff model_defs fixture_defs)
  have c3: "Sync specEnv ?T demoStart = (Ok (), emit (LogInfo ''sync completed'' [] None) ?t4)"
    using Sync_stage_order[of specEnv ?T demoStart _ ?t1 ?t2 ?t3 ?t4] k1 k2 k3 k4 by blast
  show ?thesis using h1 c1 c2 c3 by simp
qed

lemmas trace_simps = invoke_conv case_prod_beta emitted_def emit_def

lemma hydrateExport_any: "only (\<lambda>e. True) st (snd (hydrateExport S lids st))"
  by (rule hydrateExport_only) simp_all

lemma hydrateLists_any: "only (\<lambda>e. True) st (snd (hydrateLists E S lids st))"
  by (rule hydrateLists_only) simp_all

lemma hydrateWatchlist_any: "only (\<lambda>e. True) st (snd (hydrateWatchlist S st))"
  by (rule hydrateWatchlist_only) simp_all

lemma hydrateRatings_any: "only (\<lambda>e. True) st (snd (hydrateRatings E S st))"
  by (rule hydrateRatings_only) simp_all

lemma hydrateDelegated_any: "only (\<lambda>e. True) st (snd (hydrateDelegated E S metas errs st))"
  by (rule hydrateDelegated_only) simp_all

lemma hydrate_cases:
  fixes E S st
  defines "lids \<equiv> rangeLids E (imdbLists (user st))"
  obtains
    (exportFailed) "fst (hydrateExport S lids st) \<noteq> None"
      "hydrate E S st = hydrateExport S lids st"
  | (listsFailed) stA where "hydrateExport S lids st = (None, stA)"
      "fst (hydrateLists E S lids stA) \<noteq> None"
      "hydrate E S st = hydrateLists E S lids stA"
  | (authless) stA stB where "hydrateExport S lids st = (None, stA)"
      "hydrateLists E S lids stA = (None, stB)" "authless S"
      "hydrate E S st = (None, stB)"
  | (watchlistFailed) stA stB where "hydrateExport S lids st = (None, stA)"
      "hydrateLists E S lids stA = (None, stB)" "\<not> authless S"
      "fst (hydrateWatchlist S stB) \<noteq> None"
      "hydrate E S st = hydrateWatchlist S stB"
  | (ratings) stA stB stC where "hydrateExport S lids st = (None, stA)"
      "hydrateLists E S lids stA = (None, stB)" "\<not> authless S"
      "hydrateWatchlist S stB = (None, stC)"
      "hydrate E S st = hydrateRatings E S stC"
proof -
  obtain rA stA where a: "hydrateExport S lids st = (rA, stA)" by (cases "hydrateExport S lids st")
  obtain rB stB where b: "hydrateLists E S lids stA = (rB, stB)" by (cases "hydrateLists E S lids stA")
  obtain rC stC where c: "hydrateWatchlist S stB = (rC, stC)" by (cases "hydrateWatchlist S stB")
  show ?thesis
  proof (cases rA)
    case (Some e)
    then show ?thesis using a exportFailed by (simp add: hydrate_def lids_def)
  next
    case None
    note rA = this
    show ?thesis
    proof (cases rB)
      case (Some e)
      then show ?thesis using a b rA listsFailed[of stA] by (simp add: hydrate_def lids_def)
    next
      case None
      note rB = this
      show ?thesis
      proof (cases "authless S")
        case True
        then show ?thesis using a b rA rB authless[of stA stB] by (simp add: hydrate_def lids_def)
      next
        case False
        show ?thesis
        proof (cases rC)
          case (Some e)
          then show ?thesis using a b c rA rB False watchlistFailed[of stA stB]
            by (simp add: hydrate_def lids_def)
        next
          case None
          then show ?thesis using a b c rA rB False ratings[of stA stB stC]
            by (simp add: hydrate_def lids_def)
        qed
      qed
    qed
  qed
qed

lemma hydrateLists_cases:
  obtains
    (off) "\<not> Lists (conf S)" "hydrateLists E S lids st = (None, st)"
  | (sourceFailed) err st1 where "Lists (conf S)"
      "hydrateLists E S lids st = (Some (Errorf ''failure fetching imdb lists'' err), st1)"
      "emitted st st1 = [IMDbListsGet lids (Inl err)]"
  | (fetched) src tls errs st2 where "Lists (conf S)"
      "emitted st st2 = [IMDbListsGet lids (Inr src), TraktListsGet (traktIDMetasOf E src) (tls, errs)]"
      "only (\<lambda>e. True) st st2"
      "user st2 = (user st)\<lparr>imdbLists := storeIMDbLists src (imdbLists (user st))\<rparr>"
      "hydrateLists E S lids st =
         (case hydrateDelegated E S (traktIDMetasOf E src) errs st2 of
            (Some err, st3) \<Rightarrow> (Some err, st3)
          | (None, st3) \<Rightarrow>
              (None, st3\<lparr>user := (user st3)\<lparr>traktLists := storeTraktLists tls (traktLists (user st3))\<rparr>\<rparr>))"
proof (cases "Lists (conf S)")
  case False
  then show ?thesis using off by (simp add: hydrateLists_def)
next
  case True
  let ?f = "imdb_ListsGet (imdbClient S) lids (world st)"
  show ?thesis
  proof (cases "fst ?f")
    case (Inl err)
    show ?thesis
      by (rule sourceFailed[where err=err and ?st1.0="emit (IMDbListsGet lids (Inl err)) (st\<lparr>world := snd ?f\<rparr>)"])
         (use True Inl in \<open>simp_all add: hydrateLists_def invoke_conv\<close>)
  next
    case (Inr src)
    let ?st1 = "emit (IMDbListsGet lids (Inr src)) (st\<lparr>world := snd ?f\<rparr>)"
    let ?st1' = "?st1\<lparr>user := (user ?st1)\<lparr>imdbLists := storeIMDbLists src (imdbLists (user ?st1))\<rparr>\<rparr>"
    let ?g = "trakt_ListsGet (traktClient S) (traktIDMetasOf E src) (world ?st1')"
    let ?st2 = "emit (TraktListsGet (traktIDMetasOf E src) (fst ?g)) (?st1'\<lparr>world := snd ?g\<rparr>)"
    show ?thesis
    proof (rule fetched[where src=src and tls="fst (fst ?g)" and errs="snd (fst ?g)" and ?st2.0="?st2"])
      show "Lists (conf S)" by (rule True)
      show "emitted st ?st2 = [IMDbListsGet lids (Inr src),
              TraktListsGet (traktIDMetasOf E src) (fst (fst ?g), snd (fst ?g))]"
        by (simp add: emitted_def emit_def)
      show "only (\<lambda>e. True) st ?st2" by (simp add: only_emit_conv)
      show "user ?st2 = (user st)\<lparr>imdbLists := storeIMDbLists src (imdbLists (user st))\<rparr>"
        by simp
      show "hydrateLists E S lids st =
         (case hydrateDelegated E S (traktIDMetasOf E src) (snd (fst ?g)) ?st2 of
            (Some err, st3) \<Rightarrow> (Some err, st3)
          | (None, st3) \<Rightarrow>
              (None, st3\<lparr>user := (user st3)\<lparr>traktLists :=
                         storeTraktLists (fst (fst ?g)) (traktLists (user st3))\<rparr>\<rparr>))"
        using True Inr by (simp add: hydrateLists_def invoke_conv case_prod_beta split: option.splits)
    qed
  qed
qed

lemma hydrate_filter_export_failed:
  assumes q: "\<And>r. \<not> Q (IMDbRatingsExport r)" "\<And>l r. \<not> Q (IMDbListsExport l r)"
      "\<And>r. \<not> Q (IMDbWatchlistExport r)"
    and f: "fst (hydrateExport S (rangeLids E (imdbLists (user st))) st) \<noteq> None"
  shows "filter Q (emitted st (snd (hydrate E S st))) = []"
proof -
  obtain e stA where a: "hydrateExport S (rangeLids E (imdbLists (user st))) st = (Some e, stA)"
    using f by (cases "hydrateExport S (rangeLids E (imdbLists (user st))) st") auto
  have h: "hydrate E S st = hydrateExport S (rangeLids E (imdbLists (user st))) st"
    using a by (simp add: hydrate_def)
  show ?thesis unfolding h
    by (rule only_filter_Nil[OF hydrateExport_only[where P="\<lambda>e. \<not> Q e"]]) (simp_all add: q)
qed

lemma hydrate_filter_lists:
  assumes q: "\<And>r. \<not> Q (IMDbRatingsExport r)" "\<And>l r. \<not> Q (IMDbListsExport l r)"
      "\<And>r. \<not> Q (IMDbWatchlistExport r)"
      "\<And>r. \<not> Q (IMDbWatchlistGet r)" "\<And>r. \<not> Q (TraktWatchlistGet r)"
      "\<And>r. \<not> Q (IMDbRatingsGet r)" "\<And>r. \<not> Q (TraktRatingsGet r)"
    and a: "hydrateExport S (rangeLids E (imdbLists (user st))) st = (None, stA)"
  shows "filter Q (emitted st (snd (hydrate E S st)))
           = filter Q (emitted stA (snd (hydrateLists E S (rangeLids E (imdbLists (user st))) stA)))"
proof -
  let ?lids = "rangeLids E (imdbLists (user st))"
  let ?stB = "snd (hydrateLists E S ?lids stA)"
  let ?stC = "snd (hydrateWatchlist S ?stB)"
  let ?stD = "snd (hydrateRatings E S ?stC)"
  let ?N = "\<lambda>e. \<not> Q e"
  have oA: "only ?N st stA"
    using hydrateExport_only[where P="?N" and ?st0.0=st and st=st and S=S and lids="?lids"] a q by simp
  have oB: "only (\<lambda>e. True) stA ?stB" by (rule hydrateLists_any)
  have oC: "only ?N ?stB ?stC" by (rule hydrateWatchlist_only) (simp_all add: q)
  have oD: "only ?N ?stC ?stD" by (rule hydrateRatings_only) (simp_all add: q)
  have oAB: "only (\<lambda>e. True) st ?stB" by (rule only_trans[OF only_True[OF oA] oB])
  have oABC: "only (\<lambda>e. True) st ?stC" by (rule only_trans[OF oAB only_True[OF oC]])
  have eB: "filter Q (emitted st ?stB) = filter Q (emitted stA ?stB)"
    by (simp add: emitted_trans[OF oA oB] only_filter_Nil[OF oA])
  have eC: "filter Q (emitted st ?stC) = filter Q (emitted stA ?stB)"
    by (simp add: emitted_trans[OF oAB oC] only_filter_Nil[OF oC] eB)
  have eD: "filter Q (emitted st ?stD) = filter Q (emitted stA ?stB)"
    by (simp add: emitted_trans[OF oABC oD] only_filter_Nil[OF oD] eC)
  have "snd (hydrate E S st) = ?stB \<or> snd (hydrate E S st) = ?stC \<or> snd (hydrate E S st) = ?stD"
    using a by (simp add: hydrate_def case_prod_beta split: option.splits)
  then show ?thesis using eB eC eD by auto
qed

lemma hydrate_reaches_lists:
  assumes "TraktListsGet metas resp \<in> set (emitted st (snd (hydrate E S st)))"
  obtains stA where "hydrateExport S (rangeLids E (imdbLists (user st))) st = (None, stA)"
    and "TraktListsGet metas resp
           \<in> set (emitted stA (snd (hydrateLists E S (rangeLids E (imdbLists (user st))) stA)))"
proof -
  let ?lids = "rangeLids E (imdbLists (user st))"
  let ?Q = "\<lambda>e. e = TraktListsGet metas resp"
  have ne: "filter ?Q (emitted st (snd (hydrate E S st))) \<noteq> []"
    using assms by (simp add: filter_empty_conv)
  obtain rA stA where a: "hydrateExport S ?lids st = (rA, stA)" by (cases "hydrateExport S ?lids st")
  have "rA = None"
  proof (rule ccontr)
    assume "rA \<noteq> None"
    then have "fst (hydrateExport S ?lids st) \<noteq> None" using a by simp
    from hydrate_filter_export_failed[where Q="?Q", OF _ _ _ this] ne show False by simp
  qed
  then have a': "hydrateExport S ?lids st = (None, stA)" using a by simp
  have "filter ?Q (emitted stA (snd (hydrateLists E S ?lids stA))) \<noteq> []"
    using hydrate_filter_lists[where Q="?Q", OF _ _ _ _ _ _ _ a'] ne by simp
  then have "TraktListsGet metas resp \<in> set (emitted stA (snd (hydrateLists E S ?lids stA)))"
    by (auto simp: filter_empty_conv)
  then show ?thesis using that a' by blast
qed

lemma hydrateLists_fetched_inv:
  assumes "TraktListsGet metas (tls, errs) \<in> set (emitted st (snd (hydrateLists E S lids st)))"
  obtains src st2 where "Lists (conf S)" "metas = traktIDMetasOf E src"
    "emitted st st2 = [IMDbListsGet lids (Inr src), TraktListsGet metas (tls, errs)]"
    "only (\<lambda>e. True) st st2"
    "user st2 = (user st)\<lparr>imdbLists := storeIMDbLists src (imdbLists (user st))\<rparr>"
    "hydrateLists E S lids st =
       (case hydrateDelegated E S metas errs st2 of
          (Some err, st3) \<Rightarrow> (Some err, st3)
        | (None, st3) \<Rightarrow>
            (None, st3\<lparr>user := (user st3)\<lparr>traktLists := storeTraktLists tls (traktLists (user st3))\<rparr>\<rparr>))"
proof (cases rule: hydrateLists_cases[of S E lids st])
  case off
  then show ?thesis using assms by simp
next
  case (sourceFailed err st1)
  then show ?thesis using assms by simp
next
  case (fetched src tls' errs' st2)
  let ?m = "traktIDMetasOf E src"
  let ?d = "hydrateDelegated E S ?m errs' st2"
  have fin: "emitted st2 (snd (hydrateLists E S lids st)) = emitted st2 (snd ?d)"
    unfolding fetched(5) by (simp add: case_prod_beta split: option.splits)
  have o2: "only (\<lambda>e. \<not> isTraktListsGet e) st2 (snd ?d)"
    by (rule hydrateDelegated_only) simp_all
  have o2': "only (\<lambda>e. True) st2 (snd (hydrateLists E S lids st))"
    unfolding fetched(5) using only_True[OF o2] by (simp add: case_prod_beta split: option.splits)
  have em: "emitted st (snd (hydrateLists E S lids st)) = emitted st st2 @ emitted st2 (snd ?d)"
    using emitted_trans[OF fetched(3) o2'] fin by simp
  have "TraktListsGet metas (tls, errs) \<notin> set (emitted st2 (snd ?d))"
    using only_list_all[OF o2] by (auto simp: list_all_iff)
  then have "TraktListsGet metas (tls, errs) \<in> set (emitted st st2)"
    using assms em by simp
  then have eq: "metas = ?m" "tls' = tls" "errs' = errs"
    using fetched(2) by simp_all
  have h: "hydrateLists E S lids st =
       (case hydrateDelegated E S metas errs st2 of
          (Some err, st3) \<Rightarrow> (Some err, st3)
        | (None, st3) \<Rightarrow>
            (None, st3\<lparr>user := (user st3)\<lparr>traktLists := storeTraktLists tls (traktLists (user st3))\<rparr>\<rparr>))"
    using fetched(5) unfolding eq(1)[symmetric] eq(2) eq(3) .
  have e2: "emitted st st2 = [IMDbListsGet lids (Inr src), TraktListsGet metas (tls, errs)]"
    using fetched(2) unfolding eq(1)[symmetric] eq(2) eq(3) .
  show ?thesis
    by (rule that[of src st2]) (rule fetched(1) eq(1) e2 fetched(3) fetched(4) h)+
qed

lemma hydrateDelegated_abort:
  "\<exists>e \<in> set errs. asTraktListNotFoundError e = None \<Longrightarrow>
     fst (hydrateDelegated E S metas errs st) \<noteq> None"
  by (induction errs arbitrary: st) (auto simp: case_prod_beta split: option.splits)

lemma hydrateDelegated_single:
  assumes "asTraktListNotFoundError err = Some slug"
  shows "emitted st (snd (hydrateDelegated E S metas [err] st))
           = (if Mode (conf S) = SyncModeDryRun
              then [LogInfo ''sync mode %s would have created trakt list %s to backfill imdb list %s''
                      [ArgMode SyncModeDryRun, ArgS slug, ArgS (GetListNameFromSlug E metas slug)] None]
              else [TraktListAdd slug (GetListNameFromSlug E metas slug)
                      (fst (trakt_ListAdd (traktClient S) slug (GetListNameFromSlug E metas slug)
                              (world st)))])"
  using assms by (simp add: trace_simps split: option.splits)

lemma hydrateLists_emitted_fetched:
  assumes "TraktListsGet metas (tls, errs) \<in> set (emitted st (snd (hydrateLists E S lids st)))"
  obtains src st2 where "metas = traktIDMetasOf E src"
    "emitted st st2 = [IMDbListsGet lids (Inr src), TraktListsGet metas (tls, errs)]"
    "emitted st (snd (hydrateLists E S lids st))
       = emitted st st2 @ emitted st2 (snd (hydrateDelegated E S metas errs st2))"
    "fst (hydrateLists E S lids st) = fst (hydrateDelegated E S metas errs st2)"
proof -
  from hydrateLists_fetched_inv[OF assms] obtain src st2 where f: "metas = traktIDMetasOf E src"
    "emitted st st2 = [IMDbListsGet lids (Inr src), TraktListsGet metas (tls, errs)]"
    "only (\<lambda>e. True) st st2"
    "hydrateLists E S lids st =
       (case hydrateDelegated E S metas errs st2 of
          (Some err, st3) \<Rightarrow> (Some err, st3)
        | (None, st3) \<Rightarrow>
            (None, st3\<lparr>user := (user st3)\<lparr>traktLists := storeTraktLists tls (traktLists (user st3))\<rparr>\<rparr>))"
    by blast
  let ?d = "hydrateDelegated E S metas errs st2"
  have e1: "emitted st2 (snd (hydrateLists E S lids st)) = emitted st2 (snd ?d)"
    unfolding f(4) by (simp add: case_prod_beta split: option.splits)
  have o: "only (\<lambda>e. True) st2 (snd (hydrateLists E S lids st))"
    unfolding f(4) using hydrateDelegated_any[of st2 E S metas errs]
    by (simp add: case_prod_beta split: option.splits)
  have e: "emitted st (snd (hydrateLists E S lids st)) = emitted st st2 @ emitted st2 (snd ?d)"
    using emitted_trans[OF f(3) o] e1 by simp
  have r: "fst (hydrateLists E S lids st) = fst ?d"
    unfolding f(4) by (simp add: case_prod_beta split: option.splits)
  show ?thesis by (rule that[OF f(1) f(2) e r])
qed

lemma GetListNameFromSlug_spec_name:
  "l \<in> set src \<Longrightarrow> InferTraktListSlug E (ListName l) = slug \<Longrightarrow>
   (\<forall>l' \<in> set src. InferTraktListSlug E (ListName l') = slug \<longrightarrow> ListName l' = ListName l) \<Longrightarrow>
   GetListNameFromSlug_spec (traktIDMetasOf E src) slug = ListName l"
proof (induction src)
  case Nil
  then show ?case by simp
next
  case (Cons a src)
  have step: "GetListNameFromSlug_spec (traktIDMetasOf E (a # src)) slug
          = (if InferTraktListSlug E (ListName a) = slug then ListName a
             else GetListNameFromSlug_spec (traktIDMetasOf E src) slug)"
    by (simp add: traktIDMetasOf_def)
  show ?case
  proof (cases "InferTraktListSlug E (ListName a) = slug")
    case True
    have "ListName a = ListName l" using Cons.prems(3) True by simp
    then show ?thesis unfolding step using True by simp
  next
    case False
    have "l \<noteq> a" using False Cons.prems(2) by blast
    then have 1: "l \<in> set src" using Cons.prems(1) by simp
    have 2: "\<forall>l' \<in> set src. InferTraktListSlug E (ListName l') = slug \<longrightarrow> ListName l' = ListName l"
      using Cons.prems(3) by simp
    have "GetListNameFromSlug_spec (traktIDMetasOf E src) slug = ListName l"
      by (rule Cons.IH[OF 1 Cons.prems(2) 2])
    then show ?thesis unfolding step using False by simp
  qed
qed

text \<open>
  C4: let the mirror's list fetch of a hydration return the lists \<open>tls\<close> and the delegated
  errors \<open>errs\<close>. If one of the errors is not the not-found signal, hydrate returns an
  error. If the errors are exactly one not-found signal for \<open>slug\<close>: in a mode other than
  dry-run (full mode in particular) hydrate makes exactly one create-list call, with
  \<open>slug\<close> and the name looked up for it in the correspondence set; in dry-run mode it makes
  no create-list call and writes exactly one informational log entry. The correspondence
  set is the one built from the fetched source lists, and the name looked up is the name
  of the source list with that slug.
\<close>

theorem not_found_handling:
  assumes "TraktListsGet metas (tls, errs) \<in> set (emitted st (snd (hydrate E S st)))"
  shows "((\<exists>e \<in> set errs. asTraktListNotFoundError e = None) \<longrightarrow> fst (hydrate E S st) \<noteq> None)
     \<and> (errs = [err] \<and> asTraktListNotFoundError err = Some slug \<longrightarrow>
          (Mode (conf S) \<noteq> SyncModeDryRun \<longrightarrow>
             (\<exists>r. filter isListAdd (emitted st (snd (hydrate E S st)))
                    = [TraktListAdd slug (GetListNameFromSlug E metas slug) r]))
        \<and> (Mode (conf S) = SyncModeDryRun \<longrightarrow>
             filter isListAdd (emitted st (snd (hydrate E S st))) = []
           \<and> filter isLogInfo (emitted st (snd (hydrate E S st)))
               = [LogInfo ''sync mode %s would have created trakt list %s to backfill imdb list %s''
                    [ArgMode SyncModeDryRun, ArgS slug, ArgS (GetListNameFromSlug E metas slug)] None]))
     \<and> (\<exists>lids src. IMDbListsGet lids (Inr src) \<in> set (emitted st (snd (hydrate E S st)))
           \<and> metas = traktIDMetasOf E src
           \<and> (\<forall>l \<in> set src.
                 GetListNameFromSlug E = GetListNameFromSlug_spec
                 \<and> InferTraktListSlug E (ListName l) = slug
                 \<and> (\<forall>l' \<in> set src. InferTraktListSlug E (ListName l') = slug \<longrightarrow> ListName l' = ListName l)
                 \<longrightarrow> GetListNameFromSlug E metas slug = ListName l))"
proof -
  let ?lids = "rangeLids E (imdbLists (user st))"
  let ?T = "emitted st (snd (hydrate E S st))"
  from hydrate_reaches_lists[OF assms] obtain stA where
    a: "hydrateExport S ?lids st = (None, stA)" and
    m: "TraktListsGet metas (tls, errs) \<in> set (emitted stA (snd (hydrateLists E S ?lids stA)))"
    by blast
  from hydrateLists_emitted_fetched[OF m] obtain src st2 where f: "metas = traktIDMetasOf E src"
    "emitted stA st2 = [IMDbListsGet ?lids (Inr src), TraktListsGet metas (tls, errs)]"
    "emitted stA (snd (hydrateLists E S ?lids stA))
       = emitted stA st2 @ emitted st2 (snd (hydrateDelegated E S metas errs st2))"
    "fst (hydrateLists E S ?lids stA) = fst (hydrateDelegated E S metas errs st2)"
    by blast
  have la: "filter isListAdd ?T = filter isListAdd (emitted st2 (snd (hydrateDelegated E S metas errs st2)))"
    using hydrate_filter_lists[where Q=isListAdd, OF _ _ _ _ _ _ _ a] by (simp add: f(3) f(2))
  have li: "filter isLogInfo ?T = filter isLogInfo (emitted st2 (snd (hydrateDelegated E S metas errs st2)))"
    using hydrate_filter_lists[where Q=isLogInfo, OF _ _ _ _ _ _ _ a] by (simp add: f(3) f(2))
  have p1: "fst (hydrate E S st) \<noteq> None" if "\<exists>e \<in> set errs. asTraktListNotFoundError e = None"
  proof -
    have "fst (hydrateLists E S ?lids stA) \<noteq> None"
      using hydrateDelegated_abort[OF that] f(4) by simp
    then show ?thesis using a by (auto simp: hydrate_def case_prod_beta split: option.splits)
  qed
  have p2: "\<exists>r. filter isListAdd ?T = [TraktListAdd slug (GetListNameFromSlug E metas slug) r]"
    if t: "errs = [err] \<and> asTraktListNotFoundError err = Some slug" and n: "Mode (conf S) \<noteq> SyncModeDryRun"
  proof -
    have "filter isListAdd ?T = filter isListAdd (emitted st2 (snd (hydrateDelegated E S metas [err] st2)))"
      using la t by (simp only:)
    also have "\<dots> = [TraktListAdd slug (GetListNameFromSlug E metas slug)
                      (fst (trakt_ListAdd (traktClient S) slug (GetListNameFromSlug E metas slug)
                              (world st2)))]"
      unfolding hydrateDelegated_single[OF conjunct2[OF t]] using n by simp
    finally show ?thesis by blast
  qed
  have p3: "filter isListAdd ?T = [] \<and> filter isLogInfo ?T
               = [LogInfo ''sync mode %s would have created trakt list %s to backfill imdb list %s''
                    [ArgMode SyncModeDryRun, ArgS slug, ArgS (GetListNameFromSlug E metas slug)] None]"
    if t: "errs = [err] \<and> asTraktListNotFoundError err = Some slug" and n: "Mode (conf S) = SyncModeDryRun"
  proof -
    have 1: "filter isListAdd ?T = filter isListAdd (emitted st2 (snd (hydrateDelegated E S metas [err] st2)))"
      using la t by (simp only:)
    have 2: "filter isLogInfo ?T = filter isLogInfo (emitted st2 (snd (hydrateDelegated E S metas [err] st2)))"
      using li t by (simp only:)
    show ?thesis
      unfolding 1 2 hydrateDelegated_single[OF conjunct2[OF t]] using n by simp
  qed
  have inT: "IMDbListsGet ?lids (Inr src) \<in> set ?T"
  proof -
    have "filter (\<lambda>e. e = IMDbListsGet ?lids (Inr src)) ?T \<noteq> []"
      using hydrate_filter_lists[where Q="\<lambda>e. e = IMDbListsGet ?lids (Inr src)", OF _ _ _ _ _ _ _ a]
      by (simp add: f(3) f(2))
    then show ?thesis by (auto simp: filter_empty_conv)
  qed
  have p4: "\<forall>l \<in> set src.
                 GetListNameFromSlug E = GetListNameFromSlug_spec
                 \<and> InferTraktListSlug E (ListName l) = slug
                 \<and> (\<forall>l' \<in> set src. InferTraktListSlug E (ListName l') = slug \<longrightarrow> ListName l' = ListName l)
                 \<longrightarrow> GetListNameFromSlug E metas slug = ListName l"
  proof (intro ballI impI)
    fix l
    assume l: "l \<in> set src"
      and h: "GetListNameFromSlug E = GetListNameFromSlug_spec
                 \<and> InferTraktListSlug E (ListName l) = slug
                 \<and> (\<forall>l' \<in> set src. InferTraktListSlug E (ListName l') = slug \<longrightarrow> ListName l' = ListName l)"
    have "GetListNameFromSlug_spec (traktIDMetasOf E src) slug = ListName l"
      by (rule GetListNameFromSlug_spec_name[OF l conjunct1[OF conjunct2[OF h]] conjunct2[OF conjunct2[OF h]]])
    then show "GetListNameFromSlug E metas slug = ListName l"
      using h f(1) by simp
  qed
  have p5: "\<exists>lids src. IMDbListsGet lids (Inr src) \<in> set ?T
           \<and> metas = traktIDMetasOf E src
           \<and> (\<forall>l \<in> set src.
                 GetListNameFromSlug E = GetListNameFromSlug_spec
                 \<and> InferTraktListSlug E (ListName l) = slug
                 \<and> (\<forall>l' \<in> set src. InferTraktListSlug E (ListName l') = slug \<longrightarrow> ListName l' = ListName l)
                 \<longrightarrow> GetListNameFromSlug E metas slug = ListName l)"
    by (intro exI[of _ ?lids] exI[of _ src] conjI inT f(1) p4)
  show ?thesis
  proof (intro conjI impI)
    assume "\<exists>e \<in> set errs. asTraktListNotFoundError e = None"
    then show "fst (hydrate E S st) \<noteq> None" by (rule p1)
  next
    assume "errs = [err] \<and> asTraktListNotFoundError err = Some slug" "Mode (conf S) \<noteq> SyncModeDryRun"
    then show "\<exists>r. filter isListAdd ?T = [TraktListAdd slug (GetListNameFromSlug E metas slug) r]"
      by (rule p2)
  next
    assume "errs = [err] \<and> asTraktListNotFoundError err = Some slug" "Mode (conf S) = SyncModeDryRun"
    then show "filter isListAdd ?T = []" using p3 by blast
  next
    assume "errs = [err] \<and> asTraktListNotFoundError err = Some slug" "Mode (conf S) = SyncModeDryRun"
    then show "filter isLogInfo ?T
               = [LogInfo ''sync mode %s would have created trakt list %s to backfill imdb list %s''
                    [ArgMode SyncModeDryRun, ArgS slug, ArgS (GetListNameFromSlug E metas slug)] None]"
      using p3 by blast
  next
    show "\<exists>lids src. IMDbListsGet lids (Inr src) \<in> set ?T
           \<and> metas = traktIDMetasOf E src
           \<and> (\<forall>l \<in> set src.
                 GetListNameFromSlug E = GetListNameFromSlug_spec
                 \<and> InferTraktListSlug E (ListName l) = slug
                 \<and> (\<forall>l' \<in> set src. InferTraktListSlug E (ListName l') = slug \<longrightarrow> ListName l' = ListName l)
                 \<longrightarrow> GetListNameFromSlug E metas slug = ListName l)"
      by (rule p5)
  qed
qed








lemma map_filter_none: "list_all (\<lambda>e. f e = None) T \<Longrightarrow> List.map_filter f T = []"
  by (induction T) (simp_all add: map_filter_simps)

lemma hydrateExport_ops:
  "prefix (List.map_filter hydrationOpOf (emitted st (snd (hydrateExport S lids st)))) (exportOrder S)
   \<and> (fst (hydrateExport S lids st) = None \<longrightarrow>
        List.map_filter hydrationOpOf (emitted st (snd (hydrateExport S lids st))) = exportOrder S)"
  by (simp add: hydrateExport_def exportOrder_def trace_simps map_filter_simps split: option.splits)



lemma hydrateLists_ops:
  "prefix (List.map_filter hydrationOpOf (emitted st (snd (hydrateLists E S lids st)))) (listsOrder S)
   \<and> (fst (hydrateLists E S lids st) = None \<longrightarrow>
        List.map_filter hydrationOpOf (emitted st (snd (hydrateLists E S lids st))) = listsOrder S)"
proof (cases rule: hydrateLists_cases[of S E lids st])
  case off
  then show ?thesis by (simp add: listsOrder_def map_filter_simps)
next
  case (sourceFailed err st1)
  then show ?thesis by (simp add: listsOrder_def map_filter_simps)
next
  case (fetched src tls errs st2)
  let ?d = "hydrateDelegated E S (traktIDMetasOf E src) errs st2"
  have o2: "only (\<lambda>e. hydrationOpOf e = None) st2 (snd ?d)"
    by (rule hydrateDelegated_only) simp_all
  have e1: "emitted st2 (snd (hydrateLists E S lids st)) = emitted st2 (snd ?d)"
    unfolding fetched(5) by (simp add: case_prod_beta split: option.splits)
  have o2': "only (\<lambda>e. True) st2 (snd (hydrateLists E S lids st))"
    unfolding fetched(5) using only_True[OF o2] by (simp add: case_prod_beta split: option.splits)
  have em: "emitted st (snd (hydrateLists E S lids st)) = emitted st st2 @ emitted st2 (snd ?d)"
    using emitted_trans[OF fetched(3) o2'] e1 by simp
  have "List.map_filter hydrationOpOf (emitted st (snd (hydrateLists E S lids st)))
          = [FetchSourceLists, FetchMirrorLists]"
    by (simp add: em fetched(2) map_filter_app map_filter_none[OF only_list_all[OF o2]] map_filter_simps)
  then show ?thesis using fetched(1) by (simp add: listsOrder_def)
qed


lemmas fixture2_defs = listsDown_def demoTraktListsDown_def season_def seasonTrakt_def
      person_def personTrakt_def demoList_def demoMeta_def

lemma demo_hydrate_full:
  "fst (hydrate specEnv (demoSyncer demoTrakt SyncModeFull) demoStart) = None"
  "emitted demoStart (snd (hydrate specEnv (demoSyncer demoTrakt SyncModeFull) demoStart))
     = [IMDbRatingsExport None, IMDbListsExport [''ls1''] None, IMDbWatchlistExport None,
        IMDbListsGet [''ls1''] (Inr [demoList]),
        TraktListsGet [demoMeta] ([], [TraktListNotFoundError ''Watched-2024'']),
        TraktListAdd ''Watched-2024'' ''Watched 2024'' None,
        IMDbWatchlistGet
          (Inr \<lparr>ListID = ''watchlist'', ListName = ''WATCHLIST'', ListItems = [movie ''tt3'' 0],
                 IsWatchlist = True\<rparr>),
        TraktWatchlistGet
          (Inr \<lparr>IDMeta = \<lparr>IMDb = [], Slug = [], MetaListName = []\<rparr>,
                 TraktListItems = [traktMovie ''tt9'' 0]\<rparr>),
        TraktRatingsGet (Inr [traktMovie ''tt7'' 5]),
        IMDbRatingsGet (Inr [movie ''tt1'' 8])]"
  by (simp_all add: model_defs fixture_defs fixture2_defs)

lemma demo_hydrate_dry:
  "emitted demoStart (snd (hydrate specEnv (demoSyncer demoTrakt SyncModeDryRun) demoStart))
     = [IMDbRatingsExport None, IMDbListsExport [''ls1''] None, IMDbWatchlistExport None,
        IMDbListsGet [''ls1''] (Inr [demoList]),
        TraktListsGet [demoMeta] ([], [TraktListNotFoundError ''Watched-2024'']),
        LogInfo ''sync mode %s would have created trakt list %s to backfill imdb list %s''
          [ArgMode SyncModeDryRun, ArgS ''Watched-2024'', ArgS ''Watched 2024''] None,
        IMDbWatchlistGet
          (Inr \<lparr>ListID = ''watchlist'', ListName = ''WATCHLIST'', ListItems = [movie ''tt3'' 0],
                 IsWatchlist = True\<rparr>),
        TraktWatchlistGet
          (Inr \<lparr>IDMeta = \<lparr>IMDb = [], Slug = [], MetaListName = []\<rparr>,
                 TraktListItems = [traktMovie ''tt9'' 0]\<rparr>),
        TraktRatingsGet (Inr [traktMovie ''tt7'' 5]),
        IMDbRatingsGet (Inr [movie ''tt1'' 8])]"
  by (simp add: model_defs fixture_defs fixture2_defs)

lemma demo_hydrate_lists_down:
  "emitted demoStart (snd (hydrate specEnv (demoSyncer demoTraktListsDown SyncModeFull) demoStart))
     = [IMDbRatingsExport None, IMDbListsExport [''ls1''] None, IMDbWatchlistExport None,
        IMDbListsGet [''ls1''] (Inr [demoList]),
        TraktListsGet [demoMeta] ([], [ClientError ''500''])]"
  by (simp add: model_defs fixture_defs fixture2_defs)

theorem not_found_handling_witness:
  "TraktListsGet [demoMeta] ([], [TraktListNotFoundError ''Watched-2024''])
     \<in> set (emitted demoStart (snd (hydrate specEnv (demoSyncer demoTrakt SyncModeFull) demoStart)))
   \<and> Mode (conf (demoSyncer demoTrakt SyncModeFull)) = SyncModeFull
   \<and> (\<exists>r. filter isListAdd
             (emitted demoStart (snd (hydrate specEnv (demoSyncer demoTrakt SyncModeFull) demoStart)))
           = [TraktListAdd ''Watched-2024'' ''Watched 2024'' r])
   \<and> TraktListsGet [demoMeta] ([], [TraktListNotFoundError ''Watched-2024''])
     \<in> set (emitted demoStart (snd (hydrate specEnv (demoSyncer demoTrakt SyncModeDryRun) demoStart)))
   \<and> Mode (conf (demoSyncer demoTrakt SyncModeDryRun)) = SyncModeDryRun
   \<and> filter isListAdd
        (emitted demoStart (snd (hydrate specEnv (demoSyncer demoTrakt SyncModeDryRun) demoStart))) = []
   \<and> filter isLogInfo
        (emitted demoStart (snd (hydrate specEnv (demoSyncer demoTrakt SyncModeDryRun) demoStart)))
       = [LogInfo ''sync mode %s would have created trakt list %s to backfill imdb list %s''
            [ArgMode SyncModeDryRun, ArgS ''Watched-2024'', ArgS ''Watched 2024''] None]
   \<and> TraktListsGet [demoMeta] ([], [ClientError ''500''])
     \<in> set (emitted demoStart
               (snd (hydrate specEnv (demoSyncer demoTraktListsDown SyncModeFull) demoStart)))
   \<and> fst (hydrate specEnv (demoSyncer demoTraktListsDown SyncModeFull) demoStart) \<noteq> None"
proof -
  let ?F = "demoSyncer demoTrakt SyncModeFull"
  let ?D = "demoSyncer demoTrakt SyncModeDryRun"
  let ?X = "demoSyncer demoTraktListsDown SyncModeFull"
  let ?nf = "TraktListNotFoundError ''Watched-2024''"
  have m1: "TraktListsGet [demoMeta] ([], [?nf]) \<in> set (emitted demoStart (snd (hydrate specEnv ?F demoStart)))"
    unfolding demo_hydrate_full by simp
  have m2: "TraktListsGet [demoMeta] ([], [?nf]) \<in> set (emitted demoStart (snd (hydrate specEnv ?D demoStart)))"
    unfolding demo_hydrate_dry by simp
  have m3: "TraktListsGet [demoMeta] ([], [ClientError ''500''])
              \<in> set (emitted demoStart (snd (hydrate specEnv ?X demoStart)))"
    unfolding demo_hydrate_lists_down by simp
  have f: "Mode (conf ?F) = SyncModeFull" by (simp add: model_defs fixture_defs)
  have d: "Mode (conf ?D) = SyncModeDryRun" by (simp add: model_defs fixture_defs)
  have s: "GetListNameFromSlug specEnv = GetListNameFromSlug_spec"
    "InferTraktListSlug specEnv (ListName demoList) = ''Watched-2024''"
    by (simp_all add: fixture_defs fixture2_defs)
  have fd: "Mode (conf ?F) \<noteq> SyncModeDryRun" unfolding f by simp
  have pre: "[?nf] = [?nf] \<and> asTraktListNotFoundError ?nf = Some ''Watched-2024''" by simp
  have pre3: "\<exists>e \<in> set [ClientError ''500'']. asTraktListNotFoundError e = None" by simp
  note t1 = not_found_handling[OF m1, where err="?nf" and slug="''Watched-2024''"]
  note t2 = not_found_handling[OF m2, where err="?nf" and slug="''Watched-2024''"]
  note t3 = not_found_handling[OF m3, where err="?nf" and slug="''Watched-2024''"]
  from t1[THEN conjunct2, THEN conjunct2] obtain lids src where
    g: "IMDbListsGet lids (Inr src) \<in> set (emitted demoStart (snd (hydrate specEnv ?F demoStart)))"
    and n: "\<forall>l \<in> set src.
              GetListNameFromSlug specEnv = GetListNameFromSlug_spec
              \<and> InferTraktListSlug specEnv (ListName l) = ''Watched-2024''
              \<and> (\<forall>l' \<in> set src. InferTraktListSlug specEnv (ListName l') = ''Watched-2024''
                                \<longrightarrow> ListName l' = ListName l)
              \<longrightarrow> GetListNameFromSlug specEnv [demoMeta] ''Watched-2024'' = ListName l"
    by blast
  have src: "src = [demoList]" using g unfolding demo_hydrate_full by simp
  have mem: "demoList \<in> set [demoList]" by simp
  have prem: "GetListNameFromSlug specEnv = GetListNameFromSlug_spec
              \<and> InferTraktListSlug specEnv (ListName demoList) = ''Watched-2024''
              \<and> (\<forall>l' \<in> set [demoList]. InferTraktListSlug specEnv (ListName l') = ''Watched-2024''
                                \<longrightarrow> ListName l' = ListName demoList)"
    by (simp add: s)
  have "GetListNameFromSlug specEnv [demoMeta] ''Watched-2024'' = ListName demoList"
    by (rule n[unfolded src, THEN bspec, OF mem, THEN mp, OF prem])
  then have name: "GetListNameFromSlug specEnv [demoMeta] ''Watched-2024'' = ''Watched 2024''"
    by (simp add: demoList_def)
  have a: "\<exists>r. filter isListAdd (emitted demoStart (snd (hydrate specEnv ?F demoStart)))
                 = [TraktListAdd ''Watched-2024'' ''Watched 2024'' r]"
    using t1[THEN conjunct2, THEN conjunct1, THEN mp, OF pre, THEN conjunct1, THEN mp, OF fd]
    unfolding name .
  have b: "filter isListAdd (emitted demoStart (snd (hydrate specEnv ?D demoStart))) = []
           \<and> filter isLogInfo (emitted demoStart (snd (hydrate specEnv ?D demoStart)))
               = [LogInfo ''sync mode %s would have created trakt list %s to backfill imdb list %s''
                    [ArgMode SyncModeDryRun, ArgS ''Watched-2024'', ArgS ''Watched 2024''] None]"
    using t2[THEN conjunct2, THEN conjunct1, THEN mp, OF pre, THEN conjunct2, THEN mp, OF d]
    unfolding name .
  have c: "fst (hydrate specEnv ?X demoStart) \<noteq> None"
    by (rule t3[THEN conjunct1, THEN mp, OF pre3])
  show ?thesis
    by (intro conjI m1 m2 m3 f d a c b[THEN conjunct1] b[THEN conjunct2])
qed




lemma two_syncLists_full:
  "Mode (conf (twoSyncer SyncModeFull)) = SyncModeFull"
  "Lists (conf (twoSyncer SyncModeFull))"
  "fst (syncLists specEnv (twoSyncer SyncModeFull) twoHydrated) = None"
  "map (\<lambda>l. Remove (listDiffAt specEnv twoHydrated l)) (rangeLists specEnv (imdbLists (user twoHydrated)))
     = [[traktMovie ''tt8'' 0], [traktMovie ''tt9'' 0]]"
  "map (listRemoveCall specEnv twoHydrated)
     (filter (\<lambda>l. Remove (listDiffAt specEnv twoHydrated l) \<noteq> [])
        (rangeLists specEnv (imdbLists (user twoHydrated))))
     = [TraktListItemsRemove ''Favourites'' [traktMovie ''tt8'' 0] None,
        TraktListItemsRemove ''Classics'' [traktMovie ''tt9'' 0] None]"
  by (simp_all add: model_defs fixture_defs listDiffAt_def listRemoveCall_def)

lemma demo_ratings_diff:
  "Add (ItemsDifference specEnv (imdbRatings (user demoHydrated)) (traktRatings (user demoHydrated)))
     = [traktMovie ''tt1'' 8]"
  "Remove (ItemsDifference specEnv (imdbRatings (user demoHydrated)) (traktRatings (user demoHydrated)))
     = [traktMovie ''tt7'' 5]"
  by (simp_all add: model_defs fixture_defs)

lemma demo_full_fields:
  "Mode (conf (demoSyncer tc SyncModeFull)) = SyncModeFull"
  "\<not> authless (demoSyncer tc m)"
  "Ratings (conf (demoSyncer tc m))"
  "History (conf (demoSyncer tc m))"
  "Mode (conf (demoSyncer tc m)) = m"
  by (simp_all add: model_defs fixture_defs)





text \<open>
  C1, the claim fails in full mode: with two named lists whose Remove sets are not empty
  the list remove operation is called twice in the run, once for each list; and when the
  ratings add call fails, the ratings remove operation is not called although the Remove
  set is not empty.
\<close>

theorem mode_gate_remove_counterexample:
  "Mode (conf (twoSyncer SyncModeFull)) = SyncModeFull
   \<and> map (\<lambda>l. Remove (listDiffAt specEnv twoHydrated l)) (rangeLists specEnv (imdbLists (user twoHydrated)))
       = [[traktMovie ''tt8'' 0], [traktMovie ''tt9'' 0]]
   \<and> fst (syncLists specEnv (twoSyncer SyncModeFull) twoHydrated) = None
   \<and> filter isRemoveCall (emitted twoHydrated (snd (syncLists specEnv (twoSyncer SyncModeFull) twoHydrated)))
       = [TraktListItemsRemove ''Favourites'' [traktMovie ''tt8'' 0] None,
          TraktListItemsRemove ''Classics'' [traktMovie ''tt9'' 0] None]
   \<and> Mode (conf (demoSyncer demoTraktNoRatingsAdd SyncModeFull)) = SyncModeFull
   \<and> Remove (ItemsDifference specEnv (imdbRatings (user demoHydrated)) (traktRatings (user demoHydrated)))
       = [traktMovie ''tt7'' 5]
   \<and> fst (syncRatings specEnv (demoSyncer demoTraktNoRatingsAdd SyncModeFull) demoHydrated)
       = Some (Errorf ''failure adding trakt ratings'' (ClientError ''503''))
   \<and> filter isRemoveCall
        (emitted demoHydrated (snd (syncRatings specEnv (demoSyncer demoTraktNoRatingsAdd SyncModeFull) demoHydrated)))
       = []"
proof -
  have a: "filter isRemoveCall (emitted twoHydrated (snd (syncLists specEnv (twoSyncer SyncModeFull) twoHydrated)))
       = [TraktListItemsRemove ''Favourites'' [traktMovie ''tt8'' 0] None,
          TraktListItemsRemove ''Classics'' [traktMovie ''tt9'' 0] None]"
    by (simp add: model_defs fixture_defs)
  have b: "fst (syncRatings specEnv (demoSyncer demoTraktNoRatingsAdd SyncModeFull) demoHydrated)
       = Some (Errorf ''failure adding trakt ratings'' (ClientError ''503''))"
    by (simp add: model_defs fixture_defs)
  have c: "filter isRemoveCall
        (emitted demoHydrated (snd (syncRatings specEnv (demoSyncer demoTraktNoRatingsAdd SyncModeFull) demoHydrated)))
       = []"
    by (simp add: model_defs fixture_defs)
  show ?thesis
    by (intro conjI two_syncLists_full(1,3,4) a demo_full_fields(1) demo_ratings_diff(2) b c)
qed

theorem mode_gate_remove_witness:
  "Mode (conf (demoSyncer demoTrakt SyncModeAddOnly)) \<noteq> SyncModeFull
   \<and> filter isRemoveCall
        (emitted demoStart (snd (Sync specEnv (demoSyncer demoTrakt SyncModeAddOnly) demoStart))) = []
   \<and> Mode (conf (twoSyncer SyncModeFull)) = SyncModeFull
   \<and> Lists (conf (twoSyncer SyncModeFull))
   \<and> fst (syncLists specEnv (twoSyncer SyncModeFull) twoHydrated) = None
   \<and> filter isRemoveCall (emitted twoHydrated (snd (syncLists specEnv (twoSyncer SyncModeFull) twoHydrated)))
       = [TraktListItemsRemove ''Favourites'' [traktMovie ''tt8'' 0] None,
          TraktListItemsRemove ''Classics'' [traktMovie ''tt9'' 0] None]
   \<and> Mode (conf (demoSyncer demoTrakt SyncModeFull)) = SyncModeFull
   \<and> fst (syncRatings specEnv (demoSyncer demoTrakt SyncModeFull) demoHydrated) = None
   \<and> filter isRemoveCall
        (emitted demoHydrated (snd (syncRatings specEnv (demoSyncer demoTrakt SyncModeFull) demoHydrated)))
       = [TraktRatingsRemove [traktMovie ''tt7'' 5] None]
   \<and> fst (syncHistory specEnv (demoSyncer demoTrakt SyncModeFull) demoHydrated) = Ok ()
   \<and> filter isRemoveCall
        (emitted demoHydrated (snd (syncHistory specEnv (demoSyncer demoTrakt SyncModeFull) demoHydrated)))
       = [TraktHistoryRemove [traktMovie ''tt7'' 5] None]"
proof -
  let ?A = "demoSyncer demoTrakt SyncModeAddOnly"
  let ?T = "twoSyncer SyncModeFull"
  let ?F = "demoSyncer demoTrakt SyncModeFull"
  let ?d = "ItemsDifference specEnv (imdbRatings (user demoHydrated)) (traktRatings (user demoHydrated))"
  have a0: "Mode (conf ?A) \<noteq> SyncModeFull" by (simp add: demo_full_fields)
  have a: "filter isRemoveCall (emitted demoStart (snd (Sync specEnv ?A demoStart))) = []"
    by (rule mode_gate_remove[where S="?A" and E=specEnv and st=demoStart, THEN conjunct1, THEN mp, OF a0])
  have l0: "Mode (conf ?T) = SyncModeFull \<and> (Watchlist (conf ?T) \<or> Lists (conf ?T))
            \<and> fst (syncLists specEnv ?T twoHydrated) = None"
    by (simp add: two_syncLists_full)
  have l: "filter isRemoveCall (emitted twoHydrated (snd (syncLists specEnv ?T twoHydrated)))
       = [TraktListItemsRemove ''Favourites'' [traktMovie ''tt8'' 0] None,
          TraktListItemsRemove ''Classics'' [traktMovie ''tt9'' 0] None]"
    using mode_gate_remove[where S="?T" and E=specEnv and st=twoHydrated,
            THEN conjunct2, THEN conjunct1, THEN mp, OF l0]
    unfolding two_syncLists_full(5) .
  have r1: "fst (syncRatings specEnv ?F demoHydrated) = None" by (simp add: model_defs fixture_defs)
  have r0: "Mode (conf ?F) = SyncModeFull \<and> \<not> authless ?F \<and> Ratings (conf ?F)
            \<and> fst (syncRatings specEnv ?F demoHydrated) = None"
    by (simp add: demo_full_fields r1)
  have r: "filter isRemoveCall (emitted demoHydrated (snd (syncRatings specEnv ?F demoHydrated)))
       = [TraktRatingsRemove [traktMovie ''tt7'' 5] None]"
    using mode_gate_remove[where S="?F" and E=specEnv and st=demoHydrated,
            THEN conjunct2, THEN conjunct2, THEN conjunct1, THEN mp, OF r0]
    unfolding demo_ratings_diff by simp
  have h1: "fst (syncHistory specEnv ?F demoHydrated) = Ok ()" by (simp add: model_defs fixture_defs)
  have h0: "Mode (conf ?F) = SyncModeFull \<and> \<not> authless ?F \<and> History (conf ?F)
            \<and> fst (syncHistory specEnv ?F demoHydrated) = Ok ()"
    by (simp add: demo_full_fields h1)
  have h2: "fst (historyToRemove specEnv ?F (Remove ?d) (snd (syncHistoryAdd specEnv ?F ?d demoHydrated)))
              = Ok [traktMovie ''tt7'' 5]"
    by (simp add: model_defs fixture_defs)
  from mode_gate_remove[where S="?F" and E=specEnv and st=demoHydrated,
            THEN conjunct2, THEN conjunct2, THEN conjunct2, THEN mp, OF h0]
  obtain batch where
    h3: "fst (historyToRemove specEnv ?F (Remove ?d) (snd (syncHistoryAdd specEnv ?F ?d demoHydrated)))
           = Ok batch"
    and h4: "filter isRemoveCall (emitted demoHydrated (snd (syncHistory specEnv ?F demoHydrated)))
           = (if batch \<noteq> [] then [TraktHistoryRemove batch None] else [])"
    by blast
  have "batch = [traktMovie ''tt7'' 5]" using h2 h3 by simp
  then have h: "filter isRemoveCall (emitted demoHydrated (snd (syncHistory specEnv ?F demoHydrated)))
       = [TraktHistoryRemove [traktMovie ''tt7'' 5] None]"
    using h4 by simp
  show ?thesis
    by (intro conjI a0 a two_syncLists_full(1,2,3) l demo_full_fields(1) r1 r h1 h)
qed

text \<open>
  C2, on a concrete input: in dry-run mode, with two lists whose diffs have an Add set
  and a Remove set that are not empty, \<^verbatim>\<open>syncLists\<close> makes no client call and logs the
  Add set of each list; the \<^verbatim>\<open>continue\<close> of line 221 ends the iteration, so that no
  Remove set is logged.
\<close>

theorem dry_run_remove_not_logged:
  "Mode (conf (twoSyncer SyncModeDryRun)) = SyncModeDryRun
   \<and> map (listDiffAt specEnv twoHydrated) (rangeLists specEnv (imdbLists (user twoHydrated)))
       = [\<lparr>Add = [traktMovie ''tt1'' 0], Remove = [traktMovie ''tt8'' 0]\<rparr>,
          \<lparr>Add = [traktMovie ''tt2'' 0], Remove = [traktMovie ''tt9'' 0]\<rparr>]
   \<and> fst (syncLists specEnv (twoSyncer SyncModeDryRun) twoHydrated) = None
   \<and> emitted twoHydrated (snd (syncLists specEnv (twoSyncer SyncModeDryRun) twoHydrated))
       = [LogInfo ''skipping watchlist sync'' [] None,
          LogInfo ''sync mode %s would have added %d trakt list item(s)''
            [ArgMode SyncModeDryRun, ArgD 1] (Some (''Favourites'', [traktMovie ''tt1'' 0])),
          LogInfo ''sync mode %s would have added %d trakt list item(s)''
            [ArgMode SyncModeDryRun, ArgD 1] (Some (''Classics'', [traktMovie ''tt2'' 0]))]"
  by (simp add: model_defs fixture_defs listDiffAt_def)

lemma isListCall_conv: "isListCall e = (isTraktListsGet e \<or> isListAdd e)"
  by (cases e) simp_all

lemma filter_dropWhile_Nil: "filter G xs = [] \<Longrightarrow> filter G (dropWhile P xs) = []"
  by (auto simp: filter_empty_conv dest: set_dropWhileD)

lemma dropWhile_via_filter:
  assumes "\<And>e. A e \<Longrightarrow> Q e" "\<And>e. G e \<Longrightarrow> Q e"
  shows "filter G (dropWhile (\<lambda>e. \<not> A e) T) = filter G (dropWhile (\<lambda>e. \<not> A e) (filter Q T))"
proof (induction T)
  case Nil
  then show ?case by simp
next
  case (Cons x T)
  have fq: "filter G (filter Q T) = filter G T"
    using assms(2) by (induction T) auto
  show ?case
  proof (cases "Q x")
    case False
    then have "\<not> A x" "\<not> G x" using assms by auto
    then show ?thesis using False Cons.IH by simp
  next
    case True
    then show ?thesis using Cons.IH fq by simp
  qed
qed

lemma hydrateLists_no_refetch:
  "filter isTraktListsGet
     (dropWhile (\<lambda>e. \<not> isListAdd e)
        (filter isListCall (emitted st (snd (hydrateLists E S lids st))))) = []"
proof (cases rule: hydrateLists_cases[of S E lids st])
  case off
  then show ?thesis by simp
next
  case (sourceFailed err st1)
  then show ?thesis by simp
next
  case (fetched src tls errs st2)
  let ?metas = "traktIDMetasOf E src"
  let ?d = "hydrateDelegated E S ?metas errs st2"
  have e1: "emitted st2 (snd (hydrateLists E S lids st)) = emitted st2 (snd ?d)"
    unfolding fetched(5) by (simp add: case_prod_beta split: option.splits)
  have o: "only (\<lambda>e. True) st2 (snd (hydrateLists E S lids st))"
    unfolding fetched(5) using hydrateDelegated_any[of st2 E S ?metas errs]
    by (simp add: case_prod_beta split: option.splits)
  have e: "emitted st (snd (hydrateLists E S lids st))
             = [IMDbListsGet lids (Inr src), TraktListsGet ?metas (tls, errs)] @ emitted st2 (snd ?d)"
    using emitted_trans[OF fetched(3) o] e1 fetched(2) by simp
  have n: "only (\<lambda>e. \<not> isTraktListsGet e) st2 (snd ?d)"
    by (rule hydrateDelegated_only) simp_all
  have "filter isTraktListsGet (emitted st2 (snd ?d)) = []"
    by (rule only_filter_Nil[OF n]) simp
  then have "filter isTraktListsGet (filter isListCall (emitted st2 (snd ?d))) = []"
    by (simp add: filter_empty_conv)
  then have "filter isTraktListsGet
               (dropWhile (\<lambda>e. \<not> isListAdd e) (filter isListCall (emitted st2 (snd ?d)))) = []"
    by (rule filter_dropWhile_Nil)
  then show ?thesis unfolding e by simp
qed

lemma hydrate_no_refetch:
  "filter isTraktListsGet
     (dropWhile (\<lambda>e. \<not> isListAdd e) (filter isListCall (emitted st (snd (hydrate E S st))))) = []"
proof -
  let ?lids = "rangeLids E (imdbLists (user st))"
  obtain rA stA where a: "hydrateExport S ?lids st = (rA, stA)" by (cases "hydrateExport S ?lids st")
  show ?thesis
  proof (cases rA)
    case (Some err)
    then have "fst (hydrateExport S ?lids st) \<noteq> None" using a by simp
    then have "filter isListCall (emitted st (snd (hydrate E S st))) = []"
      by (rule hydrate_filter_export_failed[rotated -1]) simp_all
    then show ?thesis by simp
  next
    case None
    have "filter isListCall (emitted st (snd (hydrate E S st)))
            = filter isListCall (emitted stA (snd (hydrateLists E S ?lids stA)))"
      by (rule hydrate_filter_lists[rotated -1, OF a[unfolded None]]) simp_all
    then show ?thesis by (simp add: hydrateLists_no_refetch)
  qed
qed

lemma Sync_list_calls:
  "filter isListCall (emitted st (snd (Sync E S st)))
     = filter isListCall (emitted (emit (LogInfo ''sync started'' [] None) st)
                            (snd (hydrate E S (emit (LogInfo ''sync started'' [] None) st))))"
proof -
  let ?P = "\<lambda>e. \<not> isListCall e"
  let ?st0 = "emit (LogInfo ''sync started'' [] None) st"
  let ?st1 = "snd (hydrate E S ?st0)"
  let ?st2 = "snd (syncLists E S ?st1)"
  let ?st3 = "snd (syncRatings E S ?st2)"
  let ?st4 = "snd (syncHistory E S ?st3)"
  have p1: "only ?P ?st1 ?st1" by simp
  have p2: "only ?P ?st1 ?st2" by (rule syncLists_only[OF _ _ _ _ _ p1]) simp_all
  have p3: "only ?P ?st1 ?st3" by (rule syncRatings_only[OF _ _ _ p2]) simp_all
  have p4: "only ?P ?st1 ?st4" by (rule syncHistory_only[OF _ _ _ _ p3]) simp_all
  have t: "only ?P ?st1 (snd (Sync E S st))"
    unfolding Sync_def
    by (simp add: case_prod_beta only_emit_conv p1 p2 p3 p4 split: option.splits outcome.splits)
  have o0: "only (\<lambda>e. True) st ?st0" by (simp add: only_emit_conv)
  have o1: "only (\<lambda>e. True) ?st0 ?st1" by (rule hydrate_only) simp_all
  have o01: "only (\<lambda>e. True) st ?st1" by (rule only_trans[OF o0 o1])
  have "emitted st (snd (Sync E S st))
          = emitted st ?st0 @ emitted ?st0 ?st1 @ emitted ?st1 (snd (Sync E S st))"
    using emitted_trans[OF o01 t] emitted_trans[OF o0 o1] by simp
  moreover have "filter isListCall (emitted ?st1 (snd (Sync E S st))) = []"
    by (rule only_filter_Nil[OF t]) simp
  ultimately show ?thesis by simp
qed

lemma Sync_no_refetch:
  "filter isTraktListsGet (dropWhile (\<lambda>e. \<not> isListAdd e) (emitted st (snd (Sync E S st)))) = []"
proof -
  have "filter isTraktListsGet (dropWhile (\<lambda>e. \<not> isListAdd e) (emitted st (snd (Sync E S st))))
          = filter isTraktListsGet
              (dropWhile (\<lambda>e. \<not> isListAdd e) (filter isListCall (emitted st (snd (Sync E S st)))))"
    by (rule dropWhile_via_filter) (simp_all add: isListCall_conv)
  then show ?thesis unfolding Sync_list_calls by (simp add: hydrate_no_refetch)
qed

lemma storeTraktLists_absent:
  "k \<notin> (\<lambda>t. IMDb (IDMeta t)) ` set tls \<Longrightarrow> map_of (storeTraktLists tls m) k = map_of m k"
  unfolding storeTraktLists_def
  by (induction tls arbitrary: m) (simp_all add: update_conv')

lemma hydrateRatings_traktLists:
  "traktLists (user (snd (hydrateRatings E S st))) = traktLists (user st)"
  by (simp add: hydrateRatings_def invoke_conv case_prod_beta split: option.splits sum.splits)

lemma hydrateWatchlist_traktLists:
  assumes "fst (hydrateWatchlist S st) = None"
    and "\<And>w. IMDbWatchlistGet (Inr w) \<in> set (emitted st (snd (hydrateWatchlist S st))) \<Longrightarrow> ListID w \<noteq> k"
  shows "map_of (traktLists (user (snd (hydrateWatchlist S st)))) k = map_of (traktLists (user st)) k"
proof (cases "Watchlist (conf S)")
  case False
  then show ?thesis by (simp add: hydrateWatchlist_def)
next
  case True
  let ?r = "fst (imdb_WatchlistGet (imdbClient S) (world st))"
  obtain w where w: "?r = Inr w"
    using assms(1) True
    by (cases ?r) (simp_all add: hydrateWatchlist_def invoke_conv case_prod_beta split: sum.splits)
  have "IMDbWatchlistGet (Inr w) \<in> set (emitted st (snd (hydrateWatchlist S st)))"
    using True w by (simp add: hydrateWatchlist_def trace_simps split: sum.splits)
  then have "ListID w \<noteq> k" by (rule assms(2))
  then show ?thesis
    using True w assms(1)
    by (simp add: hydrateWatchlist_def invoke_conv case_prod_beta update_conv' split: sum.splits)
qed

lemma hydrateLists_traktLists:
  assumes "TraktListsGet metas (tls, errs) \<in> set (emitted st (snd (hydrateLists E S lids st)))"
    and "fst (hydrateLists E S lids st) = None"
  shows "traktLists (user (snd (hydrateLists E S lids st))) = storeTraktLists tls (traktLists (user st))"
proof -
  from hydrateLists_fetched_inv[OF assms(1)] obtain src st2 where
    u: "user st2 = (user st)\<lparr>imdbLists := storeIMDbLists src (imdbLists (user st))\<rparr>"
    and h: "hydrateLists E S lids st =
       (case hydrateDelegated E S metas errs st2 of
          (Some err, st3) \<Rightarrow> (Some err, st3)
        | (None, st3) \<Rightarrow>
            (None, st3\<lparr>user := (user st3)\<lparr>traktLists := storeTraktLists tls (traktLists (user st3))\<rparr>\<rparr>))"
    by blast
  have d: "fst (hydrateDelegated E S metas errs st2) = None"
    using assms(2) unfolding h by (simp add: case_prod_beta split: option.splits)
  have "traktLists (user (snd (hydrateLists E S lids st)))
          = storeTraktLists tls (traktLists (user (snd (hydrateDelegated E S metas errs st2))))"
    unfolding h using d by (simp add: case_prod_beta)
  then show ?thesis by (simp add: hydrateDelegated_user u)
qed

lemma hydrate_created_absent:
  assumes h: "hydrate E S st = (None, st')"
    and g: "TraktListsGet metas (tls, errs) \<in> set (emitted st st')"
    and nk: "k \<notin> (\<lambda>t. IMDb (IDMeta t)) ` set tls"
    and n0: "map_of (traktLists (user st)) k = None"
    and nw: "\<forall>w. IMDbWatchlistGet (Inr w) \<in> set (emitted st st') \<longrightarrow> ListID w \<noteq> k"
  shows "map_of (traktLists (user st')) k = None"
proof -
  let ?lids = "rangeLids E (imdbLists (user st))"
  have s: "snd (hydrate E S st) = st'" "fst (hydrate E S st) = None" using h by simp_all
  from hydrate_reaches_lists[OF g[folded s(1)]] obtain stA where
    a: "hydrateExport S ?lids st = (None, stA)" and
    m: "TraktListsGet metas (tls, errs) \<in> set (emitted stA (snd (hydrateLists E S ?lids stA)))"
    by blast
  have uA: "user stA = user st" using hydrateExport_user[of S ?lids st] a by simp
  have oA: "only (\<lambda>e. True) st stA" using hydrateExport_any[of st S ?lids] a by simp
  show ?thesis
  proof (cases rule: hydrate_cases[of S E st])
    case exportFailed
    then show ?thesis using a by simp
  next
    case (listsFailed stA')
    then show ?thesis using s(2) by simp
  next
    case (authless stA' stB)
    have eq: "stA' = stA" using authless(1) a by simp
    have b: "hydrateLists E S ?lids stA = (None, stB)" using authless(2) eq by simp
    have "traktLists (user stB) = storeTraktLists tls (traktLists (user stA))"
      using hydrateLists_traktLists[OF m] b by simp
    moreover have "st' = stB" using s(1) unfolding authless(4) by simp
    ultimately show ?thesis using storeTraktLists_absent[OF nk] n0 uA by simp
  next
    case (watchlistFailed stA' stB)
    then show ?thesis using s(2) by simp
  next
    case (ratings stA' stB stC)
    have eq: "stA' = stA" using ratings(1) a by simp
    have b: "hydrateLists E S ?lids stA = (None, stB)" using ratings(2) eq by simp
    have tB: "traktLists (user stB) = storeTraktLists tls (traktLists (user stA))"
      using hydrateLists_traktLists[OF m] b by simp
    have oB: "only (\<lambda>e. True) stA stB" using hydrateLists_any[of stA E S ?lids] b by simp
    have oC: "only (\<lambda>e. True) stB stC" using hydrateWatchlist_any[of stB S] ratings(4) by simp
    have oAB: "only (\<lambda>e. True) st stB" by (rule only_trans[OF oA oB])
    have oABC: "only (\<lambda>e. True) st stC" by (rule only_trans[OF oAB oC])
    have st': "st' = snd (hydrateRatings E S stC)" using s(1) unfolding ratings(5) by simp
    have em: "emitted st st' = emitted st stB @ emitted stB stC @ emitted stC st'"
      unfolding st'
      using emitted_trans[OF oABC hydrateRatings_any] emitted_trans[OF oAB oC] by simp
    have w: "ListID w \<noteq> k" if "IMDbWatchlistGet (Inr w) \<in> set (emitted stB (snd (hydrateWatchlist S stB)))" for w
    proof -
      have "IMDbWatchlistGet (Inr w) \<in> set (emitted st st')"
        using that ratings(4) unfolding em by simp
      then show ?thesis using nw by blast
    qed
    have "map_of (traktLists (user stC)) k = map_of (traktLists (user stB)) k"
      using hydrateWatchlist_traktLists[of S stB k] ratings(4) w by simp
    moreover have "traktLists (user st') = traktLists (user stC)"
      unfolding st' by (rule hydrateRatings_traktLists)
    ultimately show ?thesis using tB storeTraktLists_absent[OF nk] n0 uA by simp
  qed
qed

lemma ListDiff_spec_empty:
  "ListDiff_spec gid l zeroTraktList = \<lparr>Add = map toTraktItem (ListItems l), Remove = []\<rparr>"
  by (simp add: ListDiff_spec_def ItemsDifference_spec_def keyed_def zeroTraktList_def comp_def)

lemma demo_Sync_creates:
  "TraktListAdd ''Watched-2024'' ''Watched 2024'' None
     \<in> set (emitted demoStart (snd (Sync specEnv (demoSyncer demoTrakt SyncModeFull) demoStart)))"
  by (simp add: model_defs fixture_defs)

lemma emitted_emit_after [simp]:
  "emitted st (emit e2 (emit e1 (st\<lparr>world := w1\<rparr>))) = [e1, e2]"
  by (simp add: emitted_def emit_def)

lemma syncList_adds:
  assumes "Mode (conf S) \<noteq> SyncModeDryRun" and "fst (syncList E S l st) = None"
  shows "filter isItemsAddCall (emitted st (snd (syncList E S l st)))
           = (if Add (listDiffAt E st l) \<noteq> [] then [listAddCall E st l] else [])"
  using assms unfolding syncList_def Let_def listDiffAt_def listAddCall_def
  by (simp add: invoke_conv case_prod_beta split: option.splits if_splits)

lemma listAddCall_user: "user st1 = user st \<Longrightarrow> listAddCall E st1 = listAddCall E st"
  by (simp add: listAddCall_def listDiffAt_def fun_eq_iff)

lemma syncListsLoop_adds:
  assumes "Mode (conf S) \<noteq> SyncModeDryRun"
  shows "fst (syncListsLoop E S ls st) = None \<Longrightarrow>
         filter isItemsAddCall (emitted st (snd (syncListsLoop E S ls st)))
           = map (listAddCall E st) (filter (\<lambda>l. Add (listDiffAt E st l) \<noteq> []) ls)"
proof (induction ls arbitrary: st)
  case Nil
  then show ?case by simp
next
  case (Cons l ls)
  let ?st1 = "snd (syncList E S l st)"
  have f1: "fst (syncList E S l st) = None"
    using Cons.prems by (simp add: case_prod_beta split: option.splits)
  have rest: "syncListsLoop E S (l # ls) st = syncListsLoop E S ls ?st1"
    using f1 by (simp add: case_prod_beta)
  have f2: "fst (syncListsLoop E S ls ?st1) = None" using Cons.prems by (simp only: rest)
  have u: "user ?st1 = user st" by (rule syncList_user)
  have em: "emitted st (snd (syncListsLoop E S ls ?st1))
              = emitted st ?st1 @ emitted ?st1 (snd (syncListsLoop E S ls ?st1))"
    by (rule emitted_trans[OF syncList_any syncListsLoop_any])
  show ?case
    unfolding rest em
    by (simp add: syncList_adds[OF assms f1] Cons.IH[OF f2] listDiffAt_user[OF u] listAddCall_user[OF u])
qed

lemma syncLists_adds:
  assumes "Mode (conf S) \<noteq> SyncModeDryRun" and "Watchlist (conf S) \<or> Lists (conf S)"
    and "fst (syncLists E S st) = None"
  shows "filter isItemsAddCall (emitted st (snd (syncLists E S st)))
           = map (listAddCall E st)
               (filter (\<lambda>l. Add (listDiffAt E st l) \<noteq> []) (rangeLists E (imdbLists (user st))))"
proof -
  let ?st0 = "syncListsSkips S st"
  have u: "user ?st0 = user st" by simp
  have o0: "only (\<lambda>e. \<not> isItemsAddCall e) st ?st0"
    by (rule syncListsSkips_only) simp_all
  have s: "syncLists E S st = syncListsLoop E S (rangeLists E (imdbLists (user st))) ?st0"
    using assms(2) by (auto simp: syncLists_def)
  have em: "emitted st (snd (syncLists E S st))
              = emitted st ?st0 @ emitted ?st0 (snd (syncListsLoop E S (rangeLists E (imdbLists (user st))) ?st0))"
    unfolding s by (rule emitted_trans[OF o0 syncListsLoop_any])
  have f: "fst (syncListsLoop E S (rangeLists E (imdbLists (user st))) ?st0) = None"
    using assms(3) s by simp
  show ?thesis
    unfolding em
    by (simp add: only_filter_Nil[OF o0] syncListsLoop_adds[OF assms(1) f]
          listDiffAt_user[OF u] listAddCall_user[OF u])
qed

lemma syncList_named_trace:
  assumes "\<not> IsWatchlist l" and "Add (listDiffAt E st l) \<noteq> []" and "Remove (listDiffAt E st l) = []"
  shows "emitted st (snd (syncList E S l st))
           = (if Mode (conf S) = SyncModeDryRun
              then [LogInfo ''sync mode %s would have added %d trakt list item(s)''
                      [ArgMode SyncModeDryRun, ArgD (length (Add (listDiffAt E st l)))]
                      (Some (InferTraktListSlug E (ListName l), Add (listDiffAt E st l)))]
              else [TraktListItemsAdd (InferTraktListSlug E (ListName l)) (Add (listDiffAt E st l))
                      (fst (trakt_ListItemsAdd (traktClient S) (InferTraktListSlug E (ListName l))
                              (Add (listDiffAt E st l)) (world st)))])"
  using assms unfolding syncList_def Let_def listDiffAt_def
  by (simp add: invoke_conv case_prod_beta split: option.splits)

lemma syncHistory_Ok_trace:
  fixes E S st
  defines "d \<equiv> ItemsDifference E (imdbRatings (user st)) (traktRatings (user st))"
  assumes h: "\<not> authless S" "History (conf S)" "fst (syncHistory E S st) = Ok ()"
  shows "\<exists>rsA rsR.
      length rsA = length (Add d) \<and> length rsR = length (Remove d)
    \<and> map (GetItemID E) (Add d) = map (\<lambda>r. Inr (Some (fst r))) rsA
    \<and> map (GetItemID E) (Remove d) = map (\<lambda>r. Inr (Some (fst r))) rsR
    \<and> emitted st (snd (syncHistory E S st))
        = map historyGetOf (zip (Add d) rsA)
          @ gateHistoryAdd S (map fst (filter (\<lambda>xr. snd (snd xr) = []) (zip (Add d) rsA)))
          @ map historyGetOf (zip (Remove d) rsR)
          @ gateHistoryRemove S (map fst (filter (\<lambda>xr. snd (snd xr) \<noteq> []) (zip (Remove d) rsR)))"
proof -
  obtain o1 st1 where a0: "syncHistoryAdd E S d st = (o1, st1)"
    by (cases "syncHistoryAdd E S d st")
  have "o1 = Ok ()" using h a0 by (cases o1) (simp_all add: syncHistory_def d_def)
  then have a1: "syncHistoryAdd E S d st = (Ok (), st1)" using a0 by simp
  have s2: "syncHistory E S st = syncHistoryRemove E S d st1"
    using h a1 by (simp add: syncHistory_def d_def)
  obtain st2 where a2: "syncHistoryRemove E S d st1 = (Ok (), st2)"
    using h(3) s2 by (cases "syncHistoryRemove E S d st1") simp
  from syncHistoryAdd_Ok[OF a1] obtain rs1 where rs1: "length rs1 = length (Add d)"
      "list_all (\<lambda>xr. GetItemID E (fst xr) = Inr (Some (fst (snd xr)))) (zip (Add d) rs1)"
      "emitted st st1 = map historyGetOf (zip (Add d) rs1)
           @ gateHistoryAdd S (map fst (filter (\<lambda>xr. snd (snd xr) = []) (zip (Add d) rs1)))"
    by blast
  from syncHistoryRemove_Ok[OF a2] obtain rs2 where rs2: "length rs2 = length (Remove d)"
      "list_all (\<lambda>xr. GetItemID E (fst xr) = Inr (Some (fst (snd xr)))) (zip (Remove d) rs2)"
      "emitted st1 st2 = map historyGetOf (zip (Remove d) rs2)
           @ gateHistoryRemove S (map fst (filter (\<lambda>xr. snd (snd xr) \<noteq> []) (zip (Remove d) rs2)))"
    by blast
  have o1: "only (\<lambda>e. True) st st1"
    using syncHistoryAdd_only[where P="\<lambda>e. True" and ?st0.0=st and st=st and E=E and S=S and d=d] a1
    by simp
  have o2: "only (\<lambda>e. True) st1 st2"
    using syncHistoryRemove_only[where P="\<lambda>e. True" and ?st0.0=st1 and st=st1 and E=E and S=S and d=d] a2
    by simp
  have em: "emitted st (snd (syncHistory E S st)) = emitted st st1 @ emitted st1 st2"
    using emitted_trans[OF o1 o2] s2 a2 by simp
  have i1: "map (GetItemID E) (Add d) = map (\<lambda>r. Inr (Some (fst r))) rs1"
    using ids_of_zip[OF rs1(1) rs1(2)] by (simp add: comp_def)
  have i2: "map (GetItemID E) (Remove d) = map (\<lambda>r. Inr (Some (fst r))) rs2"
    using ids_of_zip[OF rs2(1) rs2(2)] by (simp add: comp_def)
  show ?thesis
    by (rule exI[of _ rs1], rule exI[of _ rs2]) (simp add: rs1(1) rs2(1) i1 i2 em rs1(3) rs2(3))
qed

lemma zip_filter_member:
  assumes "length rs = length xs" and "i < length xs" and "Q (xs ! i, rs ! i)"
  shows "xs ! i \<in> set (map fst (filter Q (zip xs rs)))"
proof -
  have "(xs ! i, rs ! i) \<in> set (zip xs rs)" using assms(1,2) by (auto simp: set_zip)
  then show ?thesis using assms(3) by force
qed

lemma update_entries:
  "kv \<in> set (AList.update k v al) \<Longrightarrow> kv = (k, v) \<or> kv \<in> set al"
  by (induction al) (auto split: if_splits)

lemma keyedByID_update: "keyedByID m \<Longrightarrow> keyedByID (AList.update (ID v) v m)"
  unfolding keyedByID_def list_all_iff
  by (auto simp: distinct_update dest: update_entries)

lemma keyedByID_store: "keyedByID m \<Longrightarrow> keyedByID (storeIMDbRatings rs m)"
  unfolding storeIMDbRatings_def
  by (induction rs arbitrary: m) (simp_all add: keyedByID_update)

lemma hydrateRatings_keyedByID:
  "keyedByID (imdbRatings (user st)) \<Longrightarrow> keyedByID (imdbRatings (user (snd (hydrateRatings E S st))))"
  by (simp add: hydrateRatings_def invoke_conv case_prod_beta keyedByID_store
        split: option.splits sum.splits)

lemma hydrateLists_imdbRatings:
  "imdbRatings (user (snd (hydrateLists E S lids st))) = imdbRatings (user st)"
  by (simp add: hydrateLists_def invoke_conv case_prod_beta hydrateDelegated_user
        split: option.splits sum.splits)

lemma hydrateWatchlist_imdbRatings:
  "imdbRatings (user (snd (hydrateWatchlist S st))) = imdbRatings (user st)"
  by (simp add: hydrateWatchlist_def invoke_conv case_prod_beta split: option.splits sum.splits)

lemma hydrate_keyedByID:
  assumes "keyedByID (imdbRatings (user st))"
  shows "keyedByID (imdbRatings (user (snd (hydrate E S st))))"
proof -
  let ?lids = "rangeLids E (imdbLists (user st))"
  have k: "keyedByID (imdbRatings (user (snd (hydrateRatings E S stC))))"
    if "imdbRatings (user stC) = imdbRatings (user st)" for stC
    by (rule hydrateRatings_keyedByID) (simp add: that assms)
  show ?thesis
  proof (cases rule: hydrate_cases[of S E st])
    case exportFailed
    then show ?thesis using assms by (simp add: hydrateExport_user)
  next
    case (listsFailed stA)
    have "user stA = user st" using hydrateExport_user[of S ?lids st] listsFailed(1) by simp
    then show ?thesis unfolding listsFailed(3) using assms by (simp add: hydrateLists_imdbRatings)
  next
    case (authless stA stB)
    have "user stA = user st" using hydrateExport_user[of S ?lids st] authless(1) by simp
    moreover have "imdbRatings (user stB) = imdbRatings (user stA)"
      using hydrateLists_imdbRatings[of E S ?lids stA] authless(2) by simp
    ultimately show ?thesis unfolding authless(4) using assms by simp
  next
    case (watchlistFailed stA stB)
    have "user stA = user st" using hydrateExport_user[of S ?lids st] watchlistFailed(1) by simp
    moreover have "imdbRatings (user stB) = imdbRatings (user stA)"
      using hydrateLists_imdbRatings[of E S ?lids stA] watchlistFailed(2) by simp
    ultimately show ?thesis unfolding watchlistFailed(5) using assms
      by (simp add: hydrateWatchlist_imdbRatings)
  next
    case (ratings stA stB stC)
    have "user stA = user st" using hydrateExport_user[of S ?lids st] ratings(1) by simp
    moreover have "imdbRatings (user stB) = imdbRatings (user stA)"
      using hydrateLists_imdbRatings[of E S ?lids stA] ratings(2) by simp
    moreover have "imdbRatings (user stC) = imdbRatings (user stB)"
      using hydrateWatchlist_imdbRatings[of S stB] ratings(4) by simp
    ultimately have "imdbRatings (user stC) = imdbRatings (user st)" by simp
    then show ?thesis unfolding ratings(5) by (rule k)
  qed
qed

lemma NewSyncer_keyedByID: "keyedByID (imdbRatings (user (snd (NewSyncer ic tc c a lids w))))"
  by (simp add: NewSyncer_def keyedByID_def)

lemma toTraktItem_ID: "toTraktItem x = toTraktItem y \<Longrightarrow> ID x = ID y"
  by (simp add: toTraktItem_def)

lemma ItemsDifference_spec_distinct:
  assumes "keyedByID source"
  shows "distinct (Add (ItemsDifference_spec source mirror))"
proof -
  have d: "distinct source" using assms by (simp add: keyedByID_def distinct_map)
  have inj: "inj_on (\<lambda>kv. toTraktItem (snd kv)) (set source)"
  proof (rule inj_onI)
    fix a b assume a: "a \<in> set source" and b: "b \<in> set source"
      and e: "toTraktItem (snd a) = toTraktItem (snd b)"
    have "ID (snd a) = fst a" "ID (snd b) = fst b"
      using assms a b by (auto simp: keyedByID_def list_all_iff)
    then have "fst a = fst b" using toTraktItem_ID[OF e] by simp
    moreover have "distinct (map fst source)" using assms by (simp add: keyedByID_def)
    ultimately show "a = b" using a b by (metis eq_key_imp_eq_value prod.collapse)
  qed
  have "distinct (map (\<lambda>kv. toTraktItem (snd kv)) source)"
    using d inj by (simp add: distinct_map)
  then show ?thesis
    by (simp add: ItemsDifference_spec_def distinct_map_filter)
qed

text \<open>
  C5: let history sync, with credentials and History on, run to its end on the ratings
  diff of its state. Its trace is then: one history read for every entry of the Add set,
  in order, each for the type and the identity of its item; the gated history add on the
  batch (the HistoryAdd call, or the log entry of dry-run mode; nothing for an empty
  batch); the history reads for the Remove set; the gated history remove. The batch is
  the entries of the Add set whose read returned no history entry, in their order. So an
  entry whose read returned no history entry is in the batch; and when the Add set has
  no repeated item, an item is in the batch exactly once if its read returned no entry
  and not at all if it returned one. The Add set of the diff of the spec has no repeated
  item on the aggregate a hydration leaves when it starts from a source ratings map
  keyed by identity, as the empty map of \<^verbatim>\<open>NewSyncer\<close> is.
\<close>

theorem history_add_batch:
  fixes E S st
  defines "d \<equiv> ItemsDifference E (imdbRatings (user st)) (traktRatings (user st))"
  shows "(\<not> authless S \<and> History (conf S) \<and> fst (syncHistory E S st) = Ok () \<longrightarrow>
          (\<exists>rs rsR batch.
              length rs = length (Add d) \<and> length rsR = length (Remove d)
            \<and> map (GetItemID E) (Add d) = map (\<lambda>r. Inr (Some (fst r))) rs
            \<and> batch = map fst (filter (\<lambda>xr. snd (snd xr) = []) (zip (Add d) rs))
            \<and> emitted st (snd (syncHistory E S st))
                = map historyGetOf (zip (Add d) rs)
                  @ gateHistoryAdd S batch
                  @ map historyGetOf (zip (Remove d) rsR)
                  @ gateHistoryRemove S (map fst (filter (\<lambda>xr. snd (snd xr) \<noteq> []) (zip (Remove d) rsR)))
            \<and> (\<forall>i<length (Add d).
                  (snd (rs ! i) = [] \<longrightarrow> Add d ! i \<in> set batch)
                \<and> (distinct (Add d) \<longrightarrow>
                      count_list batch (Add d ! i) = (if snd (rs ! i) = [] then 1 else 0)))))
     \<and> (ItemsDifference E = ItemsDifference_spec \<and> keyedByID (imdbRatings (user st0))
          \<and> user st = user (snd (hydrate E S0 st0)) \<longrightarrow> distinct (Add d))"
proof (intro conjI impI)
  assume h: "\<not> authless S \<and> History (conf S) \<and> fst (syncHistory E S st) = Ok ()"
  from syncHistory_Ok_trace[where S=S and E=E and st=st, folded d_def] h
  obtain rs rsR where t: "length rs = length (Add d)" "length rsR = length (Remove d)"
      "map (GetItemID E) (Add d) = map (\<lambda>r. Inr (Some (fst r))) rs"
      "emitted st (snd (syncHistory E S st))
        = map historyGetOf (zip (Add d) rs)
          @ gateHistoryAdd S (map fst (filter (\<lambda>xr. snd (snd xr) = []) (zip (Add d) rs)))
          @ map historyGetOf (zip (Remove d) rsR)
          @ gateHistoryRemove S (map fst (filter (\<lambda>xr. snd (snd xr) \<noteq> []) (zip (Remove d) rsR)))"
    by blast
  let ?b = "map fst (filter (\<lambda>xr. snd (snd xr) = []) (zip (Add d) rs))"
  have m: "Add d ! i \<in> set ?b" if "i < length (Add d)" "snd (rs ! i) = []" for i
    using zip_filter_member[OF t(1) that(1), of "\<lambda>xr. snd (snd xr) = []"] that(2) by simp
  have c: "count_list ?b (Add d ! i) = (if snd (rs ! i) = [] then 1 else 0)"
    if "i < length (Add d)" "distinct (Add d)" for i
    using zip_filter_count[OF that(2) t(1) that(1), of "\<lambda>xr. snd (snd xr) = []"] by simp
  show "\<exists>rs rsR batch.
              length rs = length (Add d) \<and> length rsR = length (Remove d)
            \<and> map (GetItemID E) (Add d) = map (\<lambda>r. Inr (Some (fst r))) rs
            \<and> batch = map fst (filter (\<lambda>xr. snd (snd xr) = []) (zip (Add d) rs))
            \<and> emitted st (snd (syncHistory E S st))
                = map historyGetOf (zip (Add d) rs)
                  @ gateHistoryAdd S batch
                  @ map historyGetOf (zip (Remove d) rsR)
                  @ gateHistoryRemove S (map fst (filter (\<lambda>xr. snd (snd xr) \<noteq> []) (zip (Remove d) rsR)))
            \<and> (\<forall>i<length (Add d).
                  (snd (rs ! i) = [] \<longrightarrow> Add d ! i \<in> set batch)
                \<and> (distinct (Add d) \<longrightarrow>
                      count_list batch (Add d ! i) = (if snd (rs ! i) = [] then 1 else 0)))"
    by (rule exI[of _ rs], rule exI[of _ rsR], rule exI[of _ ?b]) (simp only: t m c simp_thms, blast intro: m c)
next
  assume k: "ItemsDifference E = ItemsDifference_spec \<and> keyedByID (imdbRatings (user st0))
          \<and> user st = user (snd (hydrate E S0 st0))"
  have "keyedByID (imdbRatings (user st))"
    using hydrate_keyedByID[of st0 E S0] k by simp
  then show "distinct (Add d)"
    unfolding d_def using k by (simp add: ItemsDifference_spec_distinct)
qed

text \<open>
  C10: in dry-run mode history sync calls neither HistoryAdd nor HistoryRemove: all it
  does is read histories and write informational log entries. When the stage runs to its
  end, with credentials and History on, its trace is: one history read for every item of
  the Add set of the ratings diff, in order, each for the type and the identity of its
  item; if one of these reads returned no entry, the log entry that stands for the
  HistoryAdd call, with the number and the list of the items it would have added; one
  history read for every item of the Remove set; if one of these reads returned an entry,
  the log entry that stands for the HistoryRemove call.
\<close>

theorem dry_run_history_reads:
  fixes E S st
  defines "d \<equiv> ItemsDifference E (imdbRatings (user st)) (traktRatings (user st))"
  assumes "Mode (conf S) = SyncModeDryRun"
  shows "filter isHistoryWrite (emitted st (snd (syncHistory E S st))) = []
     \<and> list_all (\<lambda>e. isLogInfo e \<or> historyRead e \<noteq> None) (emitted st (snd (syncHistory E S st)))
     \<and> (\<not> authless S \<and> History (conf S) \<and> fst (syncHistory E S st) = Ok () \<longrightarrow>
        (\<exists>rsA rsR toAdd toRemove.
            length rsA = length (Add d) \<and> length rsR = length (Remove d)
          \<and> map (GetItemID E) (Add d) = map (\<lambda>r. Inr (Some (fst r))) rsA
          \<and> map (GetItemID E) (Remove d) = map (\<lambda>r. Inr (Some (fst r))) rsR
          \<and> toAdd = map fst (filter (\<lambda>xr. snd (snd xr) = []) (zip (Add d) rsA))
          \<and> toRemove = map fst (filter (\<lambda>xr. snd (snd xr) \<noteq> []) (zip (Remove d) rsR))
          \<and> emitted st (snd (syncHistory E S st))
              = map historyGetOf (zip (Add d) rsA)
                @ (if toAdd = [] then []
                   else [LogInfo ''sync mode %s would have added %d trakt history item(s)''
                           [ArgMode SyncModeDryRun, ArgD (length toAdd)] (Some (''history'', toAdd))])
                @ map historyGetOf (zip (Remove d) rsR)
                @ (if toRemove = [] then []
                   else [LogInfo ''sync mode %s would have deleted %d trakt history item(s)''
                           [ArgMode SyncModeDryRun, ArgD (length toRemove)] (Some (''history'', toRemove))])
          \<and> List.map_filter historyRead (emitted st (snd (syncHistory E S st)))
              = zip (map Type (Add d @ Remove d)) (map fst (rsA @ rsR))))"
proof -
  have w: "filter isHistoryWrite (emitted st (snd (syncHistory E S st))) = []"
    by (rule only_filter_Nil[OF syncHistory_only[where P="\<lambda>e. \<not> isHistoryWrite e"]])
       (simp_all add: assms)
  have l: "list_all (\<lambda>e. isLogInfo e \<or> historyRead e \<noteq> None) (emitted st (snd (syncHistory E S st)))"
    by (rule only_list_all[OF syncHistory_only[where P="\<lambda>e. isLogInfo e \<or> historyRead e \<noteq> None"]])
       (simp_all add: assms)
  have r: "\<exists>rsA rsR toAdd toRemove.
            length rsA = length (Add d) \<and> length rsR = length (Remove d)
          \<and> map (GetItemID E) (Add d) = map (\<lambda>r. Inr (Some (fst r))) rsA
          \<and> map (GetItemID E) (Remove d) = map (\<lambda>r. Inr (Some (fst r))) rsR
          \<and> toAdd = map fst (filter (\<lambda>xr. snd (snd xr) = []) (zip (Add d) rsA))
          \<and> toRemove = map fst (filter (\<lambda>xr. snd (snd xr) \<noteq> []) (zip (Remove d) rsR))
          \<and> emitted st (snd (syncHistory E S st))
              = map historyGetOf (zip (Add d) rsA)
                @ (if toAdd = [] then []
                   else [LogInfo ''sync mode %s would have added %d trakt history item(s)''
                           [ArgMode SyncModeDryRun, ArgD (length toAdd)] (Some (''history'', toAdd))])
                @ map historyGetOf (zip (Remove d) rsR)
                @ (if toRemove = [] then []
                   else [LogInfo ''sync mode %s would have deleted %d trakt history item(s)''
                           [ArgMode SyncModeDryRun, ArgD (length toRemove)] (Some (''history'', toRemove))])
          \<and> List.map_filter historyRead (emitted st (snd (syncHistory E S st)))
              = zip (map Type (Add d @ Remove d)) (map fst (rsA @ rsR))"
    if h: "\<not> authless S" "History (conf S)" "fst (syncHistory E S st) = Ok ()"
  proof -
    from syncHistory_Ok_trace[OF h, folded d_def]
    obtain rsA rsR where t: "length rsA = length (Add d)" "length rsR = length (Remove d)"
      "map (GetItemID E) (Add d) = map (\<lambda>r. Inr (Some (fst r))) rsA"
      "map (GetItemID E) (Remove d) = map (\<lambda>r. Inr (Some (fst r))) rsR"
      "emitted st (snd (syncHistory E S st))
        = map historyGetOf (zip (Add d) rsA)
          @ gateHistoryAdd S (map fst (filter (\<lambda>xr. snd (snd xr) = []) (zip (Add d) rsA)))
          @ map historyGetOf (zip (Remove d) rsR)
          @ gateHistoryRemove S (map fst (filter (\<lambda>xr. snd (snd xr) \<noteq> []) (zip (Remove d) rsR)))"
      by blast
    let ?a = "map fst (filter (\<lambda>xr. snd (snd xr) = []) (zip (Add d) rsA))"
    let ?r = "map fst (filter (\<lambda>xr. snd (snd xr) \<noteq> []) (zip (Remove d) rsR))"
    have g1: "gateHistoryAdd S ?a
               = (if ?a = [] then []
                   else [LogInfo ''sync mode %s would have added %d trakt history item(s)''
                           [ArgMode SyncModeDryRun, ArgD (length ?a)] (Some (''history'', ?a))])"
      using assms by (simp add: gateHistoryAdd_def)
    have g2: "gateHistoryRemove S ?r
               = (if ?r = [] then []
                   else [LogInfo ''sync mode %s would have deleted %d trakt history item(s)''
                           [ArgMode SyncModeDryRun, ArgD (length ?r)] (Some (''history'', ?r))])"
      using assms by (simp add: gateHistoryRemove_def)
    have n1: "List.map_filter historyRead (gateHistoryAdd S b) = []" for b
      using assms by (simp add: gateHistoryAdd_def map_filter_simps)
    have n2: "List.map_filter historyRead (gateHistoryRemove S b) = []" for b
      using assms by (simp add: gateHistoryRemove_def map_filter_simps)
    have reads: "List.map_filter historyRead (emitted st (snd (syncHistory E S st)))
                 = zip (map Type (Add d @ Remove d)) (map fst (rsA @ rsR))"
      using t(1,2) by (simp add: t(5) map_filter_app n1 n2 reads_of_zip)
    have e: "emitted st (snd (syncHistory E S st))
              = map historyGetOf (zip (Add d) rsA)
                @ (if ?a = [] then []
                   else [LogInfo ''sync mode %s would have added %d trakt history item(s)''
                           [ArgMode SyncModeDryRun, ArgD (length ?a)] (Some (''history'', ?a))])
                @ map historyGetOf (zip (Remove d) rsR)
                @ (if ?r = [] then []
                   else [LogInfo ''sync mode %s would have deleted %d trakt history item(s)''
                           [ArgMode SyncModeDryRun, ArgD (length ?r)] (Some (''history'', ?r))])"
      unfolding t(5) g1 g2 ..
    show ?thesis
      by (rule exI[of _ rsA], rule exI[of _ rsR], rule exI[of _ ?a], rule exI[of _ ?r])
         (intro conjI t(1) t(2) t(3) t(4) refl e reads)
  qed
  show ?thesis using w l r by blast
qed

lemma hydrate_authless_ops:
  assumes "Lists (conf S)" and "fst (hydrate E (S\<lparr>authless := True\<rparr>) st) = None"
  shows "List.map_filter hydrationOpOf (emitted st (snd (hydrate E (S\<lparr>authless := True\<rparr>) st)))
           = exportOrder S @ [FetchSourceLists, FetchMirrorLists]"
proof -
  let ?lids = "rangeLids E (imdbLists (user st))"
  obtain rA stA where a: "hydrateExport S ?lids st = (rA, stA)" by (cases "hydrateExport S ?lids st")
  have rA: "rA = None" using assms(2) a by (cases rA) (simp_all add: hydrate_authless)
  have h: "hydrate E (S\<lparr>authless := True\<rparr>) st = hydrateLists E S ?lids stA"
    using a rA by (simp add: hydrate_authless)
  have f: "fst (hydrateLists E S ?lids stA) = None" using assms(2) h by simp
  have oA: "only (\<lambda>e. True) st stA" using hydrateExport_any[of st S ?lids] a by simp
  have em: "emitted st (snd (hydrateLists E S ?lids stA))
              = emitted st stA @ emitted stA (snd (hydrateLists E S ?lids stA))"
    by (rule emitted_trans[OF oA hydrateLists_any])
  have e1: "List.map_filter hydrationOpOf (emitted st stA) = exportOrder S"
    using hydrateExport_ops[of st S ?lids] a rA by simp
  have e2: "List.map_filter hydrationOpOf (emitted stA (snd (hydrateLists E S ?lids stA))) = listsOrder S"
    using hydrateLists_ops[of stA E S ?lids] f by simp
  show ?thesis
    unfolding h em using assms(1) by (simp add: map_filter_app e1 e2 listsOrder_def)
qed

text \<open>
  C8: with \<^verbatim>\<open>authless\<close> set, ratings sync and history sync only log their skip reason and
  return; hydrate ends after the exports and the hydration of the lists, so it fetches
  no watchlist and no ratings on either side, while with Lists on a hydration that
  succeeds has made the exports and fetched the source lists and the mirror lists. List
  sync does not read the flag: a list sync that succeeds outside dry-run mode has made
  the add call for every list it visits whose Add set is not empty (ListItemsAdd with the
  slug of a named list), and in full mode the remove call for every list whose Remove
  set is not empty.
\<close>

theorem authless_run:
  "syncRatings E (S\<lparr>authless := True\<rparr>) st =
     (None, emit (LogInfo ''skipping ratings sync since no imdb auth was provided'' [] None) st)
   \<and> syncHistory E (S\<lparr>authless := True\<rparr>) st =
     (Ok (), emit (LogInfo ''skipping history sync since no imdb auth was provided'' [] None) st)
   \<and> filter isSecuredFetch (emitted st (snd (hydrate E (S\<lparr>authless := True\<rparr>) st))) = []
   \<and> hydrate E (S\<lparr>authless := True\<rparr>) st =
       (case hydrateExport S (rangeLids E (imdbLists (user st))) st of
          (Some err, st1) \<Rightarrow> (Some err, st1)
        | (None, st1) \<Rightarrow> hydrateLists E S (rangeLids E (imdbLists (user st))) st1)
   \<and> syncLists E (S\<lparr>authless := True\<rparr>) st = syncLists E (S\<lparr>authless := False\<rparr>) st
   \<and> (Lists (conf S) \<and> fst (hydrate E (S\<lparr>authless := True\<rparr>) st) = None \<longrightarrow>
        List.map_filter hydrationOpOf (emitted st (snd (hydrate E (S\<lparr>authless := True\<rparr>) st)))
          = exportOrder S @ [FetchSourceLists, FetchMirrorLists])
   \<and> (Mode (conf S) \<noteq> SyncModeDryRun \<and> (Watchlist (conf S) \<or> Lists (conf S))
        \<and> fst (syncLists E (S\<lparr>authless := True\<rparr>) st) = None \<longrightarrow>
        filter isItemsAddCall (emitted st (snd (syncLists E (S\<lparr>authless := True\<rparr>) st)))
          = map (listAddCall E st)
              (filter (\<lambda>l. Add (listDiffAt E st l) \<noteq> []) (rangeLists E (imdbLists (user st)))))
   \<and> (Mode (conf S) = SyncModeFull \<and> (Watchlist (conf S) \<or> Lists (conf S))
        \<and> fst (syncLists E (S\<lparr>authless := True\<rparr>) st) = None \<longrightarrow>
        filter isRemoveCall (emitted st (snd (syncLists E (S\<lparr>authless := True\<rparr>) st)))
          = map (listRemoveCall E st)
              (filter (\<lambda>l. Remove (listDiffAt E st l) \<noteq> []) (rangeLists E (imdbLists (user st)))))"
proof -
  let ?A = "S\<lparr>authless := True\<rparr>"
  have a: "filter isSecuredFetch (emitted st (snd (hydrate E ?A st))) = []"
    by (rule only_filter_Nil[OF hydrate_authless_only[where P="\<lambda>e. \<not> isSecuredFetch e"]]) simp_all
  have b: "syncLists E ?A st = syncLists E (S\<lparr>authless := False\<rparr>) st"
    by (simp add: syncLists_authless)
  have c: "Lists (conf S) \<and> fst (hydrate E ?A st) = None \<longrightarrow>
           List.map_filter hydrationOpOf (emitted st (snd (hydrate E ?A st)))
             = exportOrder S @ [FetchSourceLists, FetchMirrorLists]"
    using hydrate_authless_ops[of S E st] by simp
  have d: "Mode (conf S) \<noteq> SyncModeDryRun \<and> (Watchlist (conf S) \<or> Lists (conf S))
        \<and> fst (syncLists E ?A st) = None \<longrightarrow>
        filter isItemsAddCall (emitted st (snd (syncLists E ?A st)))
          = map (listAddCall E st)
              (filter (\<lambda>l. Add (listDiffAt E st l) \<noteq> []) (rangeLists E (imdbLists (user st))))"
    using syncLists_adds[of ?A E st] by simp
  have e: "Mode (conf S) = SyncModeFull \<and> (Watchlist (conf S) \<or> Lists (conf S))
        \<and> fst (syncLists E ?A st) = None \<longrightarrow>
        filter isRemoveCall (emitted st (snd (syncLists E ?A st)))
          = map (listRemoveCall E st)
              (filter (\<lambda>l. Remove (listDiffAt E st l) \<noteq> []) (rangeLists E (imdbLists (user st))))"
    using syncLists_full[of ?A E st] by simp
  have r: "syncRatings E ?A st =
     (None, emit (LogInfo ''skipping ratings sync since no imdb auth was provided'' [] None) st)"
    by (simp add: syncRatings_def)
  have h: "syncHistory E ?A st =
     (Ok (), emit (LogInfo ''skipping history sync since no imdb auth was provided'' [] None) st)"
    by (simp add: syncHistory_def)
  show ?thesis
    by (intro conjI r h a hydrate_authless b c d e)
qed

text \<open>
  C7: after the first create-list call of a run, the run makes no list fetch on the
  mirror. Let hydration succeed, from any state (in a run: from the state after the
  ``sync started'' entry), with a mirror list fetch that returned the lists \<open>tls\<close>; let
  \<open>l\<close> be a list whose id is the id of none of the lists in \<open>tls\<close>, was not in the mirror map
  before, and is not the id under which the watchlist is stored. Then the mirror map has
  no entry for \<open>l\<close>, so that the list sync computes the diff of \<open>l\<close> against the zero value
  of the mirror list type, a list with no items. When that diff has an Add set and no
  Remove set, the body of the list sync loop on \<open>l\<close> (not the watchlist), at any point of
  the loop, makes one ListItemsAdd call with the slug of \<open>l\<close> and the whole Add set, or in
  dry-run mode writes the log entry for it, and nothing else; and a list sync that
  succeeds outside dry-run mode and visits \<open>l\<close> has made that call. With the diff of the
  spec, the Add set is every item of \<open>l\<close> and the Remove set is empty.
\<close>

theorem created_list_diff:
  fixes E S st st' metas tls errs l
  defines "d0 \<equiv> ListDiff E l zeroTraktList"
  defines "slug \<equiv> InferTraktListSlug E (ListName l)"
  shows
  "filter isTraktListsGet (dropWhile (\<lambda>e. \<not> isListAdd e) (emitted st (snd (Sync E S st)))) = []
   \<and> (hydrate E S st = (None, st')
        \<and> TraktListsGet metas (tls, errs) \<in> set (emitted st st')
        \<and> ListID l \<notin> (\<lambda>t. IMDb (IDMeta t)) ` set tls
        \<and> map_of (traktLists (user st)) (ListID l) = None
        \<and> (\<forall>w. IMDbWatchlistGet (Inr w) \<in> set (emitted st st') \<longrightarrow> ListID w \<noteq> ListID l)
      \<longrightarrow> traktListAt (traktLists (user st')) (ListID l) = zeroTraktList
          \<and> TraktListItems (traktListAt (traktLists (user st')) (ListID l)) = []
          \<and> listDiffAt E st' l = d0
          \<and> (\<forall>st1. user st1 = user st' \<and> \<not> IsWatchlist l \<and> Add d0 \<noteq> [] \<and> Remove d0 = [] \<longrightarrow>
                emitted st1 (snd (syncList E S l st1))
                  = (if Mode (conf S) = SyncModeDryRun
                     then [LogInfo ''sync mode %s would have added %d trakt list item(s)''
                             [ArgMode SyncModeDryRun, ArgD (length (Add d0))] (Some (slug, Add d0))]
                     else [TraktListItemsAdd slug (Add d0)
                             (fst (trakt_ListItemsAdd (traktClient S) slug (Add d0) (world st1)))]))
          \<and> (Mode (conf S) \<noteq> SyncModeDryRun \<and> (Watchlist (conf S) \<or> Lists (conf S))
                \<and> fst (syncLists E S st') = None
                \<and> l \<in> set (rangeLists E (imdbLists (user st'))) \<and> \<not> IsWatchlist l \<and> Add d0 \<noteq> [] \<longrightarrow>
                TraktListItemsAdd slug (Add d0) None \<in> set (emitted st' (snd (syncLists E S st'))))
          \<and> (ListDiff E = ListDiff_spec (GetItemID E) \<longrightarrow>
                d0 = \<lparr>Add = map toTraktItem (ListItems l), Remove = []\<rparr>
              \<and> listDiffAt E st' l = \<lparr>Add = map toTraktItem (ListItems l), Remove = []\<rparr>))"
proof (intro conjI impI allI)
  show "filter isTraktListsGet (dropWhile (\<lambda>e. \<not> isListAdd e) (emitted st (snd (Sync E S st)))) = []"
    by (rule Sync_no_refetch)
next
  assume a: "hydrate E S st = (None, st')
        \<and> TraktListsGet metas (tls, errs) \<in> set (emitted st st')
        \<and> ListID l \<notin> (\<lambda>t. IMDb (IDMeta t)) ` set tls
        \<and> map_of (traktLists (user st)) (ListID l) = None
        \<and> (\<forall>w. IMDbWatchlistGet (Inr w) \<in> set (emitted st st') \<longrightarrow> ListID w \<noteq> ListID l)"
  have n: "map_of (traktLists (user st')) (ListID l) = None"
    by (rule hydrate_created_absent[of E S st st' metas tls errs "ListID l"]) (simp_all add: a)
  show z: "traktListAt (traktLists (user st')) (ListID l) = zeroTraktList"
    by (simp add: traktListAt_def n)
  show "TraktListItems (traktListAt (traktLists (user st')) (ListID l)) = []"
    unfolding z by (simp add: zeroTraktList_def)
  show d: "listDiffAt E st' l = d0"
    by (simp add: listDiffAt_def z d0_def)
  {
    fix st1 :: "'a run"
    assume b: "user st1 = user st' \<and> \<not> IsWatchlist l \<and> Add d0 \<noteq> [] \<and> Remove d0 = []"
    have d1: "listDiffAt E st1 l = d0" using listDiffAt_user[of st1 st' E] b d by simp
    show "emitted st1 (snd (syncList E S l st1))
                  = (if Mode (conf S) = SyncModeDryRun
                     then [LogInfo ''sync mode %s would have added %d trakt list item(s)''
                             [ArgMode SyncModeDryRun, ArgD (length (Add d0))] (Some (slug, Add d0))]
                     else [TraktListItemsAdd slug (Add d0)
                             (fst (trakt_ListItemsAdd (traktClient S) slug (Add d0) (world st1)))])"
      using syncList_named_trace[of l E st1 S] b unfolding d1 slug_def by simp
  }
  {
    assume c: "Mode (conf S) \<noteq> SyncModeDryRun \<and> (Watchlist (conf S) \<or> Lists (conf S))
                \<and> fst (syncLists E S st') = None
                \<and> l \<in> set (rangeLists E (imdbLists (user st'))) \<and> \<not> IsWatchlist l \<and> Add d0 \<noteq> []"
    have f: "filter isItemsAddCall (emitted st' (snd (syncLists E S st')))
           = map (listAddCall E st')
               (filter (\<lambda>l. Add (listDiffAt E st' l) \<noteq> []) (rangeLists E (imdbLists (user st'))))"
      using syncLists_adds[of S E st'] c by simp
    have "listAddCall E st' l \<in> set (filter isItemsAddCall (emitted st' (snd (syncLists E S st'))))"
      unfolding f using c d by simp
    moreover have "listAddCall E st' l = TraktListItemsAdd slug (Add d0) None"
      using c d by (simp add: listAddCall_def slug_def)
    ultimately show "TraktListItemsAdd slug (Add d0) None \<in> set (emitted st' (snd (syncLists E S st')))"
      by simp
  }
  {
    assume s: "ListDiff E = ListDiff_spec (GetItemID E)"
    show e: "d0 = \<lparr>Add = map toTraktItem (ListItems l), Remove = []\<rparr>"
      unfolding d0_def s by (simp add: ListDiff_spec_empty)
    show "listDiffAt E st' l = \<lparr>Add = map toTraktItem (ListItems l), Remove = []\<rparr>"
      unfolding d e ..
  }
qed

lemmas fixture3_defs = demoFullHydrated_def demoAuthlessHydrated_def ratingsOnly_def pairIMDb_def pairTrakt_def pairSyncer_def pairStart_def
      pairHydrated_def

lemma pair_run:
  "\<not> authless (pairSyncer SyncModeFull)"
  "History (conf (pairSyncer SyncModeFull))"
  "fst (syncHistory specEnv (pairSyncer SyncModeFull) pairHydrated) = Ok ()"
  "Add (ItemsDifference specEnv (imdbRatings (user pairHydrated)) (traktRatings (user pairHydrated)))
     = [traktMovie ''tt1'' 8, traktMovie ''tt2'' 6]"
  "Remove (ItemsDifference specEnv (imdbRatings (user pairHydrated)) (traktRatings (user pairHydrated)))
     = [traktMovie ''tt7'' 5]"
  "emitted pairHydrated (snd (syncHistory specEnv (pairSyncer SyncModeFull) pairHydrated))
     = [TraktHistoryGet ''movie'' ''tt1'' (Inr []),
        TraktHistoryGet ''movie'' ''tt2'' (Inr [WatchedAt ''2023-05-05'']),
        TraktHistoryAdd [traktMovie ''tt1'' 8] None,
        TraktHistoryGet ''movie'' ''tt7'' (Inr [WatchedAt ''2024-01-01'']),
        TraktHistoryRemove [traktMovie ''tt7'' 5] None]"
  by (simp_all add: model_defs fixture_defs fixture3_defs)

lemma two_list: "length rs = 2 \<Longrightarrow> \<exists>r1 r2. rs = [r1, r2]"
  by (cases rs; cases "tl rs") auto

lemma one_list: "length rs = 1 \<Longrightarrow> \<exists>r1. rs = [r1]"
  by (cases rs) auto

theorem history_add_batch_witness:
  "\<not> authless (pairSyncer SyncModeFull)
   \<and> History (conf (pairSyncer SyncModeFull))
   \<and> fst (syncHistory specEnv (pairSyncer SyncModeFull) pairHydrated) = Ok ()
   \<and> ItemsDifference specEnv = ItemsDifference_spec
   \<and> keyedByID (imdbRatings (user pairStart))
   \<and> user pairHydrated = user (snd (hydrate specEnv (pairSyncer SyncModeFull) pairStart))
   \<and> Add (ItemsDifference specEnv (imdbRatings (user pairHydrated)) (traktRatings (user pairHydrated)))
       = [traktMovie ''tt1'' 8, traktMovie ''tt2'' 6]
   \<and> distinct (Add (ItemsDifference specEnv (imdbRatings (user pairHydrated))
                      (traktRatings (user pairHydrated))))
   \<and> (\<exists>tid1 tid2 batch.
         emitted pairHydrated (snd (syncHistory specEnv (pairSyncer SyncModeFull) pairHydrated))
           = [TraktHistoryGet ''movie'' tid1 (Inr []),
              TraktHistoryGet ''movie'' tid2 (Inr [WatchedAt ''2023-05-05''])]
             @ gateHistoryAdd (pairSyncer SyncModeFull) batch
             @ [TraktHistoryGet ''movie'' ''tt7'' (Inr [WatchedAt ''2024-01-01'']),
                TraktHistoryRemove [traktMovie ''tt7'' 5] None]
       \<and> GetItemID specEnv (traktMovie ''tt1'' 8) = Inr (Some tid1)
       \<and> GetItemID specEnv (traktMovie ''tt2'' 6) = Inr (Some tid2)
       \<and> batch = [traktMovie ''tt1'' 8]
       \<and> count_list batch (traktMovie ''tt1'' 8) = 1
       \<and> count_list batch (traktMovie ''tt2'' 6) = 0)"
proof -
  let ?S = "pairSyncer SyncModeFull"
  let ?d = "ItemsDifference specEnv (imdbRatings (user pairHydrated)) (traktRatings (user pairHydrated))"
  let ?a1 = "traktMovie ''tt1'' 8"
  let ?a2 = "traktMovie ''tt2'' 6"
  note th = history_add_batch[where E=specEnv and S="?S" and st=pairHydrated
              and ?st0.0=pairStart and ?S0.0="?S"]
  have e: "ItemsDifference specEnv = ItemsDifference_spec" by (simp add: specEnv_def)
  have k: "keyedByID (imdbRatings (user pairStart))"
    unfolding pairStart_def by (rule NewSyncer_keyedByID)
  have u: "user pairHydrated = user (snd (hydrate specEnv ?S pairStart))"
    by (simp add: pairHydrated_def)
  have pre2: "ItemsDifference specEnv = ItemsDifference_spec \<and> keyedByID (imdbRatings (user pairStart))
          \<and> user pairHydrated = user (snd (hydrate specEnv ?S pairStart))"
    by (intro conjI e k u)
  have dst: "distinct (Add ?d)" by (rule th[THEN conjunct2, THEN mp, OF pre2])
  have pre1: "\<not> authless ?S \<and> History (conf ?S) \<and> fst (syncHistory specEnv ?S pairHydrated) = Ok ()"
    by (intro conjI pair_run(1,2,3))
  from th[THEN conjunct1, THEN mp, OF pre1] obtain rs rsR batch where
    t: "length rs = length (Add ?d)" "length rsR = length (Remove ?d)"
       "map (GetItemID specEnv) (Add ?d) = map (\<lambda>r. Inr (Some (fst r))) rs"
       "batch = map fst (filter (\<lambda>xr. snd (snd xr) = []) (zip (Add ?d) rs))"
       "emitted pairHydrated (snd (syncHistory specEnv ?S pairHydrated))
          = map historyGetOf (zip (Add ?d) rs) @ gateHistoryAdd ?S batch
            @ map historyGetOf (zip (Remove ?d) rsR)
            @ gateHistoryRemove ?S (map fst (filter (\<lambda>xr. snd (snd xr) \<noteq> []) (zip (Remove ?d) rsR)))"
    and c: "\<forall>i<length (Add ?d).
              (snd (rs ! i) = [] \<longrightarrow> Add ?d ! i \<in> set batch)
            \<and> (distinct (Add ?d) \<longrightarrow> count_list batch (Add ?d ! i) = (if snd (rs ! i) = [] then 1 else 0))"
    by blast
  obtain r1 r2 where rs: "rs = [r1, r2]" using t(1) two_list[of rs] by (auto simp: pair_run(4))
  obtain q where rsR: "rsR = [q]" using t(2) one_list[of rsR] by (auto simp: pair_run(5))
  have tr: "[TraktHistoryGet ''movie'' ''tt1'' (Inr []),
             TraktHistoryGet ''movie'' ''tt2'' (Inr [WatchedAt ''2023-05-05'']),
             TraktHistoryAdd [traktMovie ''tt1'' 8] None,
             TraktHistoryGet ''movie'' ''tt7'' (Inr [WatchedAt ''2024-01-01'']),
             TraktHistoryRemove [traktMovie ''tt7'' 5] None]
            = [historyGetOf (?a1, r1), historyGetOf (?a2, r2)] @ gateHistoryAdd ?S batch
              @ map historyGetOf (zip (Remove ?d) rsR)
              @ gateHistoryRemove ?S (map fst (filter (\<lambda>xr. snd (snd xr) \<noteq> []) (zip (Remove ?d) rsR)))"
    using t(5) unfolding pair_run(6) pair_run(4) rs by simp
  have r: "snd r1 = []" "snd r2 = [WatchedAt ''2023-05-05'']" "fst r1 = ''tt1''" "fst r2 = ''tt2''"
    using tr by (simp_all add: historyGetOf_def)
  have b: "batch = [?a1]" unfolding t(4) pair_run(4) rs by (simp add: r)
  have i1: "GetItemID specEnv ?a1 = Inr (Some (fst r1))" "GetItemID specEnv ?a2 = Inr (Some (fst r2))"
    using t(3) unfolding pair_run(4) rs by simp_all
  have c0: "count_list batch ?a1 = 1"
    using c[THEN spec, of 0, THEN mp, THEN conjunct2, THEN mp, OF _ dst]
    unfolding pair_run(4) rs by (simp add: r)
  have c1: "count_list batch ?a2 = 0"
    using c[THEN spec, of 1, THEN mp, THEN conjunct2, THEN mp, OF _ dst]
    unfolding pair_run(4) rs by (simp add: r)
  have em: "emitted pairHydrated (snd (syncHistory specEnv ?S pairHydrated))
           = [TraktHistoryGet ''movie'' (fst r1) (Inr []),
              TraktHistoryGet ''movie'' (fst r2) (Inr [WatchedAt ''2023-05-05''])]
             @ gateHistoryAdd ?S batch
             @ [TraktHistoryGet ''movie'' ''tt7'' (Inr [WatchedAt ''2024-01-01'']),
                TraktHistoryRemove [traktMovie ''tt7'' 5] None]"
    unfolding pair_run(6) b r by (simp add: gateHistoryAdd_def pair_run model_defs fixture_defs fixture3_defs)
  have ex: "\<exists>tid1 tid2 batch.
         emitted pairHydrated (snd (syncHistory specEnv ?S pairHydrated))
           = [TraktHistoryGet ''movie'' tid1 (Inr []),
              TraktHistoryGet ''movie'' tid2 (Inr [WatchedAt ''2023-05-05''])]
             @ gateHistoryAdd ?S batch
             @ [TraktHistoryGet ''movie'' ''tt7'' (Inr [WatchedAt ''2024-01-01'']),
                TraktHistoryRemove [traktMovie ''tt7'' 5] None]
       \<and> GetItemID specEnv ?a1 = Inr (Some tid1)
       \<and> GetItemID specEnv ?a2 = Inr (Some tid2)
       \<and> batch = [?a1]
       \<and> count_list batch ?a1 = 1
       \<and> count_list batch ?a2 = 0"
    by (rule exI[of _ "fst r1"], rule exI[of _ "fst r2"], rule exI[of _ batch])
       (intro conjI em i1 b c0 c1)
  show ?thesis
    by (intro conjI pair_run(1,2,3,4) e k u dst ex)
qed

lemma demo_dry_history:
  "Mode (conf (demoSyncer demoTrakt SyncModeDryRun)) = SyncModeDryRun"
  "\<not> authless (demoSyncer demoTrakt SyncModeDryRun)"
  "History (conf (demoSyncer demoTrakt SyncModeDryRun))"
  "fst (syncHistory specEnv (demoSyncer demoTrakt SyncModeDryRun) demoHydrated) = Ok ()"
  "emitted demoHydrated (snd (syncHistory specEnv (demoSyncer demoTrakt SyncModeDryRun) demoHydrated))
     = [TraktHistoryGet ''movie'' ''tt1'' (Inr []),
        LogInfo ''sync mode %s would have added %d trakt history item(s)''
          [ArgMode SyncModeDryRun, ArgD 1] (Some (''history'', [traktMovie ''tt1'' 8])),
        TraktHistoryGet ''movie'' ''tt7'' (Inr [WatchedAt ''2024-01-01'']),
        LogInfo ''sync mode %s would have deleted %d trakt history item(s)''
          [ArgMode SyncModeDryRun, ArgD 1] (Some (''history'', [traktMovie ''tt7'' 5]))]"
  by (simp_all add: model_defs fixture_defs)

theorem dry_run_history_reads_witness:
  "Mode (conf (demoSyncer demoTrakt SyncModeDryRun)) = SyncModeDryRun
   \<and> \<not> authless (demoSyncer demoTrakt SyncModeDryRun)
   \<and> History (conf (demoSyncer demoTrakt SyncModeDryRun))
   \<and> fst (syncHistory specEnv (demoSyncer demoTrakt SyncModeDryRun) demoHydrated) = Ok ()
   \<and> Add (ItemsDifference specEnv (imdbRatings (user demoHydrated)) (traktRatings (user demoHydrated)))
       = [traktMovie ''tt1'' 8]
   \<and> Remove (ItemsDifference specEnv (imdbRatings (user demoHydrated)) (traktRatings (user demoHydrated)))
       = [traktMovie ''tt7'' 5]
   \<and> filter isHistoryWrite
        (emitted demoHydrated (snd (syncHistory specEnv (demoSyncer demoTrakt SyncModeDryRun) demoHydrated)))
       = []
   \<and> (\<exists>rA rR toAdd toRemove.
         snd rA = [] \<and> snd rR = [WatchedAt ''2024-01-01'']
       \<and> GetItemID specEnv (traktMovie ''tt1'' 8) = Inr (Some (fst rA))
       \<and> GetItemID specEnv (traktMovie ''tt7'' 5) = Inr (Some (fst rR))
       \<and> toAdd = [traktMovie ''tt1'' 8] \<and> toRemove = [traktMovie ''tt7'' 5]
       \<and> emitted demoHydrated (snd (syncHistory specEnv (demoSyncer demoTrakt SyncModeDryRun) demoHydrated))
           = [historyGetOf (traktMovie ''tt1'' 8, rA),
              LogInfo ''sync mode %s would have added %d trakt history item(s)''
                [ArgMode SyncModeDryRun, ArgD (length toAdd)] (Some (''history'', toAdd)),
              historyGetOf (traktMovie ''tt7'' 5, rR),
              LogInfo ''sync mode %s would have deleted %d trakt history item(s)''
                [ArgMode SyncModeDryRun, ArgD (length toRemove)] (Some (''history'', toRemove))])
   \<and> List.map_filter historyRead
        (emitted demoHydrated (snd (syncHistory specEnv (demoSyncer demoTrakt SyncModeDryRun) demoHydrated)))
       = [(''movie'', ''tt1''), (''movie'', ''tt7'')]"
proof -
  let ?S = "demoSyncer demoTrakt SyncModeDryRun"
  let ?d = "ItemsDifference specEnv (imdbRatings (user demoHydrated)) (traktRatings (user demoHydrated))"
  let ?a = "traktMovie ''tt1'' 8"
  let ?b = "traktMovie ''tt7'' 5"
  let ?T = "emitted demoHydrated (snd (syncHistory specEnv ?S demoHydrated))"
  note th = dry_run_history_reads[OF demo_dry_history(1), where E=specEnv and st=demoHydrated]
  have w: "filter isHistoryWrite ?T = []" by (rule th[THEN conjunct1])
  have pre: "\<not> authless ?S \<and> History (conf ?S) \<and> fst (syncHistory specEnv ?S demoHydrated) = Ok ()"
    by (intro conjI demo_dry_history(2,3,4))
  from th[THEN conjunct2, THEN conjunct2, THEN mp, OF pre]
  obtain rsA rsR toAdd toRemove where
    t: "length rsA = length (Add ?d)" "length rsR = length (Remove ?d)"
       "map (GetItemID specEnv) (Add ?d) = map (\<lambda>r. Inr (Some (fst r))) rsA"
       "map (GetItemID specEnv) (Remove ?d) = map (\<lambda>r. Inr (Some (fst r))) rsR"
       "toAdd = map fst (filter (\<lambda>xr. snd (snd xr) = []) (zip (Add ?d) rsA))"
       "toRemove = map fst (filter (\<lambda>xr. snd (snd xr) \<noteq> []) (zip (Remove ?d) rsR))"
       "?T = map historyGetOf (zip (Add ?d) rsA)
                @ (if toAdd = [] then []
                   else [LogInfo ''sync mode %s would have added %d trakt history item(s)''
                           [ArgMode SyncModeDryRun, ArgD (length toAdd)] (Some (''history'', toAdd))])
                @ map historyGetOf (zip (Remove ?d) rsR)
                @ (if toRemove = [] then []
                   else [LogInfo ''sync mode %s would have deleted %d trakt history item(s)''
                           [ArgMode SyncModeDryRun, ArgD (length toRemove)] (Some (''history'', toRemove))])"
       "List.map_filter historyRead ?T = zip (map Type (Add ?d @ Remove ?d)) (map fst (rsA @ rsR))"
    by blast
  obtain rA where rsA: "rsA = [rA]" using t(1) one_list[of rsA] by (auto simp: demo_ratings_diff)
  obtain rR where rsR: "rsR = [rR]" using t(2) one_list[of rsR] by (auto simp: demo_ratings_diff)
  have reads: "List.map_filter historyRead ?T = [(''movie'', fst rA), (''movie'', fst rR)]"
    using t(8) unfolding demo_ratings_diff rsA rsR by (simp add: traktMovie_def)
  have ids: "fst rA = ''tt1''" "fst rR = ''tt7''"
    using reads unfolding demo_dry_history(5) by (simp_all add: map_filter_simps)
  have hs: "snd rA = []" "snd rR = [WatchedAt ''2024-01-01'']"
    using t(7) unfolding demo_dry_history(5) demo_ratings_diff rsA rsR t(5) t(6)
    by (auto simp: historyGetOf_def split: if_splits)
  have ta: "toAdd = [?a]" unfolding t(5) demo_ratings_diff rsA by (simp add: hs)
  have tb: "toRemove = [?b]" unfolding t(6) demo_ratings_diff rsR by (simp add: hs)
  have em: "?T = [historyGetOf (?a, rA),
              LogInfo ''sync mode %s would have added %d trakt history item(s)''
                [ArgMode SyncModeDryRun, ArgD (length toAdd)] (Some (''history'', toAdd)),
              historyGetOf (?b, rR),
              LogInfo ''sync mode %s would have deleted %d trakt history item(s)''
                [ArgMode SyncModeDryRun, ArgD (length toRemove)] (Some (''history'', toRemove))]"
    using t(7) unfolding demo_ratings_diff rsA rsR by (simp add: ta tb)
  have i: "GetItemID specEnv ?a = Inr (Some (fst rA))" "GetItemID specEnv ?b = Inr (Some (fst rR))"
    using t(3) t(4) unfolding demo_ratings_diff rsA rsR by simp_all
  have ex: "\<exists>rA rR toAdd toRemove.
         snd rA = [] \<and> snd rR = [WatchedAt ''2024-01-01'']
       \<and> GetItemID specEnv ?a = Inr (Some (fst rA))
       \<and> GetItemID specEnv ?b = Inr (Some (fst rR))
       \<and> toAdd = [?a] \<and> toRemove = [?b]
       \<and> ?T = [historyGetOf (?a, rA),
              LogInfo ''sync mode %s would have added %d trakt history item(s)''
                [ArgMode SyncModeDryRun, ArgD (length toAdd)] (Some (''history'', toAdd)),
              historyGetOf (?b, rR),
              LogInfo ''sync mode %s would have deleted %d trakt history item(s)''
                [ArgMode SyncModeDryRun, ArgD (length toRemove)] (Some (''history'', toRemove))]"
    by (rule exI[of _ rA], rule exI[of _ rR], rule exI[of _ toAdd], rule exI[of _ toRemove])
       (intro conjI hs i ta tb em)
  have rd: "List.map_filter historyRead ?T = [(''movie'', ''tt1''), (''movie'', ''tt7'')]"
    using reads unfolding ids .
  show ?thesis
    by (intro conjI demo_dry_history(1,2,3,4) demo_ratings_diff w ex rd)
qed

lemma demo_authless_run:
  "Lists (conf (demoSyncer demoTrakt SyncModeFull))"
  "Mode (conf (demoSyncer demoTrakt SyncModeFull)) = SyncModeFull"
  "fst (hydrate specEnv ((demoSyncer demoTrakt SyncModeFull)\<lparr>authless := True\<rparr>) demoStart) = None"
  "exportOrder (demoSyncer demoTrakt SyncModeFull) = [ExportRatings, ExportLists, ExportWatchlist]"
  "fst (syncLists specEnv ((demoSyncer demoTrakt SyncModeFull)\<lparr>authless := True\<rparr>) demoAuthlessHydrated)
     = None"
  "map (listAddCall specEnv demoAuthlessHydrated)
     (filter (\<lambda>l. Add (listDiffAt specEnv demoAuthlessHydrated l) \<noteq> [])
        (rangeLists specEnv (imdbLists (user demoAuthlessHydrated))))
     = [TraktListItemsAdd ''Watched-2024'' [traktMovie ''tt1'' 0, traktMovie ''tt2'' 0] None]"
  "map (listRemoveCall specEnv demoAuthlessHydrated)
     (filter (\<lambda>l. Remove (listDiffAt specEnv demoAuthlessHydrated l) \<noteq> [])
        (rangeLists specEnv (imdbLists (user demoAuthlessHydrated))))
     = []"
  by (simp_all add: model_defs fixture_defs fixture3_defs exportOrder_def listAddCall_def
        listRemoveCall_def listDiffAt_def)

lemma demo_authless_Sync:
  "fst (Sync specEnv ((demoSyncer demoTrakt SyncModeFull)\<lparr>authless := True\<rparr>) demoStart) = Ok ()"
  "emitted demoStart (snd (Sync specEnv ((demoSyncer demoTrakt SyncModeFull)\<lparr>authless := True\<rparr>) demoStart))
     = [LogInfo ''sync started'' [] None,
        IMDbRatingsExport None, IMDbListsExport [''ls1''] None, IMDbWatchlistExport None,
        IMDbListsGet [''ls1''] (Inr [demoList]),
        TraktListsGet [demoMeta] ([], [TraktListNotFoundError ''Watched-2024'']),
        TraktListAdd ''Watched-2024'' ''Watched 2024'' None,
        TraktListItemsAdd ''Watched-2024'' [traktMovie ''tt1'' 0, traktMovie ''tt2'' 0] None,
        LogInfo ''skipping ratings sync since no imdb auth was provided'' [] None,
        LogInfo ''skipping history sync since no imdb auth was provided'' [] None,
        LogInfo ''sync completed'' [] None]"
  by (simp_all add: model_defs fixture_defs fixture2_defs)

theorem authless_run_witness:
  "Lists (conf (demoSyncer demoTrakt SyncModeFull))
   \<and> Mode (conf (demoSyncer demoTrakt SyncModeFull)) = SyncModeFull
   \<and> fst (hydrate specEnv ((demoSyncer demoTrakt SyncModeFull)\<lparr>authless := True\<rparr>) demoStart) = None
   \<and> List.map_filter hydrationOpOf
        (emitted demoStart
           (snd (hydrate specEnv ((demoSyncer demoTrakt SyncModeFull)\<lparr>authless := True\<rparr>) demoStart)))
       = [ExportRatings, ExportLists, ExportWatchlist, FetchSourceLists, FetchMirrorLists]
   \<and> filter isSecuredFetch
        (emitted demoStart
           (snd (hydrate specEnv ((demoSyncer demoTrakt SyncModeFull)\<lparr>authless := True\<rparr>) demoStart)))
       = []
   \<and> fst (syncLists specEnv ((demoSyncer demoTrakt SyncModeFull)\<lparr>authless := True\<rparr>) demoAuthlessHydrated)
       = None
   \<and> filter isItemsAddCall
        (emitted demoAuthlessHydrated
           (snd (syncLists specEnv ((demoSyncer demoTrakt SyncModeFull)\<lparr>authless := True\<rparr>)
                   demoAuthlessHydrated)))
       = [TraktListItemsAdd ''Watched-2024'' [traktMovie ''tt1'' 0, traktMovie ''tt2'' 0] None]
   \<and> filter isRemoveCall
        (emitted demoAuthlessHydrated
           (snd (syncLists specEnv ((demoSyncer demoTrakt SyncModeFull)\<lparr>authless := True\<rparr>)
                   demoAuthlessHydrated)))
       = []
   \<and> fst (Sync specEnv ((demoSyncer demoTrakt SyncModeFull)\<lparr>authless := True\<rparr>) demoStart) = Ok ()
   \<and> emitted demoStart (snd (Sync specEnv ((demoSyncer demoTrakt SyncModeFull)\<lparr>authless := True\<rparr>) demoStart))
       = [LogInfo ''sync started'' [] None,
          IMDbRatingsExport None, IMDbListsExport [''ls1''] None, IMDbWatchlistExport None,
          IMDbListsGet [''ls1''] (Inr [demoList]),
          TraktListsGet [demoMeta] ([], [TraktListNotFoundError ''Watched-2024'']),
          TraktListAdd ''Watched-2024'' ''Watched 2024'' None,
          TraktListItemsAdd ''Watched-2024'' [traktMovie ''tt1'' 0, traktMovie ''tt2'' 0] None,
          LogInfo ''skipping ratings sync since no imdb auth was provided'' [] None,
          LogInfo ''skipping history sync since no imdb auth was provided'' [] None,
          LogInfo ''sync completed'' [] None]"
proof -
  let ?S = "demoSyncer demoTrakt SyncModeFull"
  let ?A = "?S\<lparr>authless := True\<rparr>"
  note h = authless_run[where E=specEnv and S="?S" and st=demoStart]
  note s = authless_run[where E=specEnv and S="?S" and st=demoAuthlessHydrated]
  have p6: "Lists (conf ?S) \<and> fst (hydrate specEnv ?A demoStart) = None"
    by (intro conjI demo_authless_run(1,3))
  have ops: "List.map_filter hydrationOpOf (emitted demoStart (snd (hydrate specEnv ?A demoStart)))
               = [ExportRatings, ExportLists, ExportWatchlist, FetchSourceLists, FetchMirrorLists]"
    using h[THEN conjunct2, THEN conjunct2, THEN conjunct2, THEN conjunct2, THEN conjunct2,
            THEN conjunct1, THEN mp, OF p6]
    unfolding demo_authless_run(4) by simp
  have sec: "filter isSecuredFetch (emitted demoStart (snd (hydrate specEnv ?A demoStart))) = []"
    by (rule h[THEN conjunct2, THEN conjunct2, THEN conjunct1])
  have m: "Mode (conf ?S) \<noteq> SyncModeDryRun" unfolding demo_authless_run(2) by simp
  have wl: "Watchlist (conf ?S) \<or> Lists (conf ?S)" using demo_authless_run(1) by simp
  have p7: "Mode (conf ?S) \<noteq> SyncModeDryRun \<and> (Watchlist (conf ?S) \<or> Lists (conf ?S))
        \<and> fst (syncLists specEnv ?A demoAuthlessHydrated) = None"
    by (intro conjI m wl demo_authless_run(5))
  have p8: "Mode (conf ?S) = SyncModeFull \<and> (Watchlist (conf ?S) \<or> Lists (conf ?S))
        \<and> fst (syncLists specEnv ?A demoAuthlessHydrated) = None"
    by (intro conjI demo_authless_run(2) wl demo_authless_run(5))
  have adds: "filter isItemsAddCall (emitted demoAuthlessHydrated (snd (syncLists specEnv ?A demoAuthlessHydrated)))
       = [TraktListItemsAdd ''Watched-2024'' [traktMovie ''tt1'' 0, traktMovie ''tt2'' 0] None]"
    using s[THEN conjunct2, THEN conjunct2, THEN conjunct2, THEN conjunct2, THEN conjunct2,
            THEN conjunct2, THEN conjunct1, THEN mp, OF p7]
    unfolding demo_authless_run(6) .
  have rems: "filter isRemoveCall (emitted demoAuthlessHydrated (snd (syncLists specEnv ?A demoAuthlessHydrated)))
       = []"
    using s[THEN conjunct2, THEN conjunct2, THEN conjunct2, THEN conjunct2, THEN conjunct2,
            THEN conjunct2, THEN conjunct2, THEN mp, OF p8]
    unfolding demo_authless_run(7) .
  show ?thesis
    by (intro conjI demo_authless_run(1,2,3) ops sec demo_authless_run(5) adds rems demo_authless_Sync)
qed

lemma demo_full_lists:
  "Mode (conf (demoSyncer demoTrakt SyncModeFull)) \<noteq> SyncModeDryRun"
  "Lists (conf (demoSyncer demoTrakt SyncModeFull))"
  "fst (syncLists specEnv (demoSyncer demoTrakt SyncModeFull) demoFullHydrated) = None"
  "demoList \<in> set (rangeLists specEnv (imdbLists (user demoFullHydrated)))"
  "\<not> IsWatchlist demoList"
  "InferTraktListSlug specEnv (ListName demoList) = ''Watched-2024''"
  "map toTraktItem (ListItems demoList) = [traktMovie ''tt1'' 0, traktMovie ''tt2'' 0]"
  "fst (trakt_ListItemsAdd (traktClient (demoSyncer demoTrakt SyncModeFull)) ''Watched-2024''
          [traktMovie ''tt1'' 0, traktMovie ''tt2'' 0] w) = None"
  by (simp_all add: model_defs fixture_defs fixture2_defs fixture3_defs)

lemma demo_full_Sync:
  "filter isItemsAddCall (emitted demoStart (snd (Sync specEnv (demoSyncer demoTrakt SyncModeFull) demoStart)))
     = [TraktListItemsAdd ''Watched-2024'' [traktMovie ''tt1'' 0, traktMovie ''tt2'' 0] None,
        TraktWatchlistItemsAdd [traktMovie ''tt3'' 0] None]"
  by (simp add: model_defs fixture_defs)

theorem created_list_diff_witness:
  "hydrate specEnv (demoSyncer demoTrakt SyncModeFull) demoStart = (None, demoFullHydrated)
   \<and> TraktListsGet [demoMeta] ([], [TraktListNotFoundError ''Watched-2024''])
       \<in> set (emitted demoStart demoFullHydrated)
   \<and> TraktListAdd ''Watched-2024'' ''Watched 2024'' None \<in> set (emitted demoStart demoFullHydrated)
   \<and> map_of (traktLists (user demoStart)) (ListID demoList) = None
   \<and> ListDiff specEnv = ListDiff_spec (GetItemID specEnv)
   \<and> traktListAt (traktLists (user demoFullHydrated)) (ListID demoList) = zeroTraktList
   \<and> listDiffAt specEnv demoFullHydrated demoList
       = \<lparr>Add = [traktMovie ''tt1'' 0, traktMovie ''tt2'' 0], Remove = []\<rparr>
   \<and> emitted demoFullHydrated (snd (syncList specEnv (demoSyncer demoTrakt SyncModeFull) demoList demoFullHydrated))
       = [TraktListItemsAdd ''Watched-2024'' [traktMovie ''tt1'' 0, traktMovie ''tt2'' 0] None]
   \<and> fst (syncLists specEnv (demoSyncer demoTrakt SyncModeFull) demoFullHydrated) = None
   \<and> demoList \<in> set (rangeLists specEnv (imdbLists (user demoFullHydrated)))
   \<and> TraktListItemsAdd ''Watched-2024'' [traktMovie ''tt1'' 0, traktMovie ''tt2'' 0] None
       \<in> set (emitted demoFullHydrated (snd (syncLists specEnv (demoSyncer demoTrakt SyncModeFull) demoFullHydrated)))
   \<and> TraktListAdd ''Watched-2024'' ''Watched 2024'' None
       \<in> set (emitted demoStart (snd (Sync specEnv (demoSyncer demoTrakt SyncModeFull) demoStart)))
   \<and> filter isItemsAddCall (emitted demoStart (snd (Sync specEnv (demoSyncer demoTrakt SyncModeFull) demoStart)))
       = [TraktListItemsAdd ''Watched-2024'' [traktMovie ''tt1'' 0, traktMovie ''tt2'' 0] None,
          TraktWatchlistItemsAdd [traktMovie ''tt3'' 0] None]
   \<and> filter isTraktListsGet
        (dropWhile (\<lambda>e. \<not> isListAdd e)
           (emitted demoStart (snd (Sync specEnv (demoSyncer demoTrakt SyncModeFull) demoStart)))) = []"
proof -
  let ?F = "demoSyncer demoTrakt SyncModeFull"
  let ?st' = "demoFullHydrated"
  let ?nf = "TraktListNotFoundError ''Watched-2024''"
  let ?items = "[traktMovie ''tt1'' 0, traktMovie ''tt2'' 0]"
  have h: "hydrate specEnv ?F demoStart = (None, ?st')"
    using demo_hydrate_full(1) by (simp add: prod_eq_iff demoFullHydrated_def)
  have g: "TraktListsGet [demoMeta] ([], [?nf]) \<in> set (emitted demoStart ?st')"
    unfolding demoFullHydrated_def demo_hydrate_full by simp
  have c: "TraktListAdd ''Watched-2024'' ''Watched 2024'' None \<in> set (emitted demoStart ?st')"
    unfolding demoFullHydrated_def demo_hydrate_full by simp
  have k: "ListID demoList \<notin> (\<lambda>t. IMDb (IDMeta t)) ` set []" by simp
  have n0: "map_of (traktLists (user demoStart)) (ListID demoList) = None"
    by (simp add: model_defs fixture_defs)
  have w: "\<forall>w. IMDbWatchlistGet (Inr w) \<in> set (emitted demoStart ?st') \<longrightarrow> ListID w \<noteq> ListID demoList"
    unfolding demoFullHydrated_def demo_hydrate_full by (auto simp: demoList_def)
  have e: "ListDiff specEnv = ListDiff_spec (GetItemID specEnv)" by (simp add: specEnv_def)
  have pre: "hydrate specEnv ?F demoStart = (None, ?st')
        \<and> TraktListsGet [demoMeta] ([], [?nf]) \<in> set (emitted demoStart ?st')
        \<and> ListID demoList \<notin> (\<lambda>t. IMDb (IDMeta t)) ` set []
        \<and> map_of (traktLists (user demoStart)) (ListID demoList) = None
        \<and> (\<forall>w. IMDbWatchlistGet (Inr w) \<in> set (emitted demoStart ?st') \<longrightarrow> ListID w \<noteq> ListID demoList)"
    by (intro conjI h g k n0 w)
  note t = created_list_diff[where E=specEnv and S="?F" and st=demoStart and st'="?st'"
             and metas="[demoMeta]" and tls="[]" and errs="[?nf]" and l=demoList]
  note b = t[THEN conjunct2, THEN mp, OF pre]
  have z: "traktListAt (traktLists (user ?st')) (ListID demoList) = zeroTraktList"
    by (rule b[THEN conjunct1])
  note sp = b[THEN conjunct2, THEN conjunct2, THEN conjunct2, THEN conjunct2, THEN conjunct2, THEN mp, OF e]
  have d0: "ListDiff specEnv demoList zeroTraktList = \<lparr>Add = ?items, Remove = []\<rparr>"
    using sp[THEN conjunct1] unfolding demo_full_lists(7) .
  have d: "listDiffAt specEnv ?st' demoList = \<lparr>Add = ?items, Remove = []\<rparr>"
    using sp[THEN conjunct2] unfolding demo_full_lists(7) .
  have p3: "user ?st' = user ?st' \<and> \<not> IsWatchlist demoList
            \<and> Add (ListDiff specEnv demoList zeroTraktList) \<noteq> []
            \<and> Remove (ListDiff specEnv demoList zeroTraktList) = []"
    unfolding d0 using demo_full_lists(5) by simp
  have one: "emitted ?st' (snd (syncList specEnv ?F demoList ?st'))
               = [TraktListItemsAdd ''Watched-2024'' ?items None]"
    using b[THEN conjunct2, THEN conjunct2, THEN conjunct2, THEN conjunct1, THEN spec, of "?st'",
            THEN mp, OF p3] demo_full_lists(1)
    unfolding d0 demo_full_lists(6) by (simp add: demo_full_lists(8))
  have p4: "Mode (conf ?F) \<noteq> SyncModeDryRun \<and> (Watchlist (conf ?F) \<or> Lists (conf ?F))
                \<and> fst (syncLists specEnv ?F ?st') = None
                \<and> demoList \<in> set (rangeLists specEnv (imdbLists (user ?st'))) \<and> \<not> IsWatchlist demoList
                \<and> Add (ListDiff specEnv demoList zeroTraktList) \<noteq> []"
    unfolding d0 using demo_full_lists(1,2,3,4,5) by simp
  have stage: "TraktListItemsAdd ''Watched-2024'' ?items None
                 \<in> set (emitted ?st' (snd (syncLists specEnv ?F ?st')))"
    using b[THEN conjunct2, THEN conjunct2, THEN conjunct2, THEN conjunct2, THEN conjunct1, THEN mp, OF p4]
    unfolding d0 demo_full_lists(6) by simp
  have a: "filter isTraktListsGet
             (dropWhile (\<lambda>e. \<not> isListAdd e) (emitted demoStart (snd (Sync specEnv ?F demoStart)))) = []"
    by (rule t[THEN conjunct1])
  show ?thesis
    by (intro conjI h g c n0 e z d one demo_full_lists(3,4) stage demo_Sync_creates demo_full_Sync a)
qed

end
